(* ===== verification/VF_Prelude.thy ===== *)
theory VF_Prelude
  imports Main "HOL-Library.Word"
begin

text \<open>
  Shared vocabulary of the development: the machine integers of the C sources, the result type in
  which every undefined behaviour of the sources is a value, the byte layout of integers in memory
  and on the wire, and the guest memory that device and driver share.

  \<^item> \<open>u8\<close>, \<open>u16\<close>, \<open>u32\<close>, \<open>u64\<close> are \<^verbatim>\<open>uint8_t\<close> to \<^verbatim>\<open>uint64_t\<close>; \<open>+\<close>, \<open>-\<close>, \<open>*\<close> wrap.
  \<^item> \<open>'a outcome\<close> is what a C function that may run into undefined behaviour (or never return)
    gives: \<open>Ok\<close> of its result, or the \<open>Fault\<close> it ran into.
  \<^item> \<open>le_bytes\<close>, \<open>le_word\<close> lay a word out in little-endian byte order, which is the order of the
    x86 host; \<open>htons\<close>, \<open>htonl\<close> are the C library functions on that host.
  \<^item> \<open>mem_read\<close>, \<open>mem_write\<close> are \<^verbatim>\<open>cpu_physical_memory_read\<close> and
    \<^verbatim>\<open>cpu_physical_memory_write\<close> on guest RAM.
\<close>

unbundle bit_operations_syntax

named_theorems outcome_simps \<open>evaluation rules of the outcome type\<close>
named_theorems byte_simps \<open>layout of words as bytes\<close>

section \<open>Machine integers and outcomes\<close>

type_synonym u8 = "8 word"
type_synonym u16 = "16 word"
type_synonym u32 = "32 word"
type_synonym u64 = "64 word"
type_synonym i32 = int

datatype fault =
    Buffer_Overflow    \<comment> \<open>a write past the end of an array or allocated block\<close>
  | Out_Of_Bounds      \<comment> \<open>a read past the end of an object\<close>
  | Uninitialised_Read \<comment> \<open>use of a variable that was never assigned\<close>
  | Null_Deref         \<comment> \<open>access through a null pointer\<close>
  | Use_After_Free     \<comment> \<open>access to, or second release of, a freed block\<close>
  | Int_Overflow       \<comment> \<open>a signed value that the type cannot represent\<close>
  | No_Return          \<comment> \<open>the call has not returned within the given number of steps\<close>

datatype 'a outcome = Ok 'a | Fault fault

definition bindO :: "'a outcome \<Rightarrow> ('a \<Rightarrow> 'b outcome) \<Rightarrow> 'b outcome" where
  "bindO m f = (case m of Ok a \<Rightarrow> f a | Fault e \<Rightarrow> Fault e)"

lemma bindO_Ok [simp, outcome_simps]: "bindO (Ok a) f = f a"
  by (simp add: bindO_def)

lemma bindO_Fault [simp, outcome_simps]: "bindO (Fault e) f = Fault e"
  by (simp add: bindO_def)

text \<open>With this congruence rule the simplifier evaluates a step before it looks at what follows.\<close>

lemma bindO_weak_cong: "m = m' \<Longrightarrow> bindO m f = bindO m' f"
  by simp

lemma bindO_cong [fundef_cong]:
  "m = m' \<Longrightarrow> (\<And>a. m' = Ok a \<Longrightarrow> f a = g a) \<Longrightarrow> bindO m f = bindO m' g"
  by (cases m') simp_all

lemma bindO_eq_Ok_conv: "bindO m f = Ok b \<longleftrightarrow> (\<exists>a. m = Ok a \<and> f a = Ok b)"
  by (cases m) simp_all

lemma bindO_eq_Fault_conv:
  "bindO m f = Fault e \<longleftrightarrow> m = Fault e \<or> (\<exists>a. m = Ok a \<and> f a = Fault e)"
  by (cases m) simp_all

lemma bindO_OkE:
  assumes "bindO m f = Ok b"
  obtains a where "m = Ok a" and "f a = Ok b"
  using assms by (cases m) simp_all

lemma bindO_assoc: "bindO (bindO m f) g = bindO m (\<lambda>a. bindO (f a) g)"
  by (cases m) simp_all

lemma bindO_split: "P (bindO m f) \<longleftrightarrow> (\<forall>a. m = Ok a \<longrightarrow> P (f a)) \<and> (\<forall>e. m = Fault e \<longrightarrow> P (Fault e))"
  by (cases m) simp_all

text \<open>Conversion of an \<^verbatim>\<open>int\<close> to the two's complement value that a narrower type keeps.\<close>

definition in_int_range :: "int \<Rightarrow> bool" where
  "in_int_range n \<longleftrightarrow> - (2 ^ 31) \<le> n \<and> n < 2 ^ 31"

section \<open>Byte layout of machine words\<close>

primrec le_bytes :: "nat \<Rightarrow> 'a::len word \<Rightarrow> u8 list" where
  "le_bytes 0 w = []"
| "le_bytes (Suc n) w = ucast w # le_bytes n (drop_bit 8 w)"

primrec le_word :: "u8 list \<Rightarrow> 'a::len word" where
  "le_word [] = 0"
| "le_word (b # bs) = ucast b OR push_bit 8 (le_word bs)"

definition be_bytes :: "nat \<Rightarrow> 'a::len word \<Rightarrow> u8 list" where
  "be_bytes n w = rev (le_bytes n w)"

definition be_word :: "u8 list \<Rightarrow> 'a::len word" where
  "be_word bs = le_word (rev bs)"

lemma length_le_bytes [simp, byte_simps]: "length (le_bytes n w) = n"
  by (induction n arbitrary: w) simp_all

lemma length_be_bytes [simp, byte_simps]: "length (be_bytes n w) = n"
  by (simp add: be_bytes_def)

lemma bit_ucast_word [simp]:
  "bit (ucast (w :: 'a::len word) :: 'b::len word) n \<longleftrightarrow> n < LENGTH('b) \<and> bit w n"
  by (auto simp: bit_simps dest: bit_imp_le_length)

lemma le_word_le_bytes: "le_word (le_bytes n w) = (take_bit (8 * n) w :: 'a::len word)"
proof (induction n arbitrary: w)
  case 0
  show ?case by simp
next
  case (Suc n)
  have "(ucast (ucast w :: u8) :: 'a word) OR push_bit 8 (take_bit (8 * n) (drop_bit 8 w))
    = take_bit (8 * Suc n) w"
  proof (rule bit_eqI)
    fix k
    assume "possible_bit TYPE('a word) k"
    then show "bit ((ucast (ucast w :: u8) :: 'a word) OR push_bit 8 (take_bit (8 * n) (drop_bit 8 w))) k
        = bit (take_bit (8 * Suc n) w) k"
      by (cases "k < 8") (auto simp: bit_or_iff bit_push_bit_iff bit_take_bit_iff bit_drop_bit_eq)
  qed
  then show ?case by (simp add: Suc.IH)
qed

lemma le_word_le_bytes_full [simp, byte_simps]:
  assumes "LENGTH('a::len) \<le> 8 * n"
  shows "le_word (le_bytes n w) = (w :: 'a word)"
  using assms by (simp add: le_word_le_bytes take_bit_word_eq_self)

lemma be_word_be_bytes [simp, byte_simps]:
  assumes "LENGTH('a::len) \<le> 8 * n"
  shows "be_word (be_bytes n w) = (w :: 'a word)"
  using assms by (simp add: be_word_def be_bytes_def)

lemma bit_le_word: "bit (le_word bs :: 'a::len word) k \<Longrightarrow> k < 8 * length bs"
proof (induction bs arbitrary: k)
  case Nil
  then show ?case by simp
next
  case (Cons b bs)
  then consider "bit b k" | "8 \<le> k" "bit (le_word bs :: 'a word) (k - 8)"
    by (auto simp: bit_simps)
  then show ?case
    using Cons.IH [of "k - 8"] by cases (auto dest: bit_imp_le_length)
qed

lemma le_bytes_le_word [simp, byte_simps]:
  assumes "8 * length bs \<le> LENGTH('a::len)" and "n = length bs"
  shows "le_bytes n (le_word bs :: 'a word) = bs"
  using assms
proof (induction bs arbitrary: n)
  case Nil
  then show ?case by simp
next
  case (Cons b bs)
  let ?w = "le_word bs :: 'a word"
  have low: "(ucast (ucast b OR push_bit 8 ?w) :: u8) = b"
    using Cons.prems by (intro bit_eqI) (auto simp: bit_simps dest: bit_imp_le_length)
  have small: "bit ?w k \<Longrightarrow> k < 8 * length bs" for k
    by (rule bit_le_word)
  have high: "drop_bit 8 (ucast b OR push_bit 8 ?w) = ?w"
    using Cons.prems by (intro bit_eqI)
      (auto simp: bit_simps dest: bit_imp_le_length small)
  show ?case using Cons low high by simp
qed

lemma be_bytes_be_word [simp, byte_simps]:
  assumes "8 * length bs \<le> LENGTH('a::len)" and "n = length bs"
  shows "be_bytes n (be_word bs :: 'a word) = bs"
  using assms by (simp add: be_word_def be_bytes_def)

lemma unat_and_mask: "unat (w AND mask n) = unat w mod 2 ^ n"
proof -
  have "unat (w AND mask n) = take_bit n (unat w)"
    by (simp only: take_bit_eq_mask [symmetric] unsigned_take_bit_eq)
  then show ?thesis by (simp only: take_bit_eq_mod)
qed

lemma and_exp: "(w :: 'a::len word) AND 2 ^ n = (if bit w n then 2 ^ n else 0)"
  by (rule bit_word_eqI) (auto simp: bit_simps)

lemma and_push_bit: "(w :: 'a::len word) AND push_bit n x = push_bit n (drop_bit n w AND x)"
  by (rule bit_word_eqI) (auto simp: bit_simps)

lemma sint_small:
  assumes "unat (w :: u32) < 2147483648" shows "sint w = int (unat w)"
proof -
  have u: "uint w = int (unat w)" by simp
  have "uint w < 2147483648" unfolding u using assms by linarith
  moreover have "0 \<le> uint w" by simp
  then have "- 2147483648 \<le> uint w" by linarith
  ultimately have "signed_take_bit 31 (uint w) = uint w"
    by (intro signed_take_bit_int_eq_self) simp_all
  then show ?thesis by (simp add: sint_uint)
qed
lemma unat_ucast64: "unat (ucast x :: u64) = unat x" for x :: u32
    using unsigned_less [where 'a = nat, of x] by (simp add: unsigned_ucast_eq take_bit_nat_eq_self)
lemma shl32_add: "push_bit 32 (ucast (a + b :: u32) :: u64) = push_bit 32 (ucast a) + push_bit 32 (ucast b)"
proof -
  have "unat (push_bit 32 (ucast x :: u64)) = unat x * 4294967296" for x :: u32
    using unsigned_less [where 'a = nat, of x] by (simp only: push_bit_eq_mult unat_word_ariths unat_ucast64) simp
  moreover have "unat (a + b) * 4294967296 = (unat a + unat b) * 4294967296 mod 18446744073709551616"
    using mult_mod_left [of "unat a + unat b" 4294967296 4294967296] by (simp add: unat_word_ariths)
  ultimately show ?thesis
    unfolding word_unat_eq_iff unat_word_ariths by (simp add: distrib_right unat_word_ariths)
qed
lemma ucast_add_carry:
  fixes l b :: u32
  shows "(ucast (l + b) :: u64) + (if l + b < l then push_bit 32 1 else 0) = ucast l + ucast b"
proof -
  have u: "unat x < 4294967296" for x :: u32
    using unsigned_less [where 'a = nat, of x] by simp
  have lt: "l + b < l \<longleftrightarrow> 4294967296 \<le> unat l + unat b" and
    s: "unat (l + b) = (if 4294967296 \<le> unat l + unat b then unat l + unat b - 4294967296 else unat l + unat b)"
    using u [of l] u [of b] by (auto simp: word_less_nat_alt unat_word_ariths mod_if)
  show ?thesis
    unfolding word_unat_eq_iff lt
    using u [of l] u [of b] by (simp only: unat_word_ariths unat_ucast64) (simp add: mod_if, linarith)
qed

text \<open>Host-to-network conversions of the C library on a little-endian host.\<close>

definition htons :: "u16 \<Rightarrow> u16" where
  "htons w = le_word (be_bytes 2 w)"

definition ntohs :: "u16 \<Rightarrow> u16" where
  "ntohs w = be_word (le_bytes 2 w)"

definition htonl :: "u32 \<Rightarrow> u32" where
  "htonl w = le_word (be_bytes 4 w)"

definition ntohl :: "u32 \<Rightarrow> u32" where
  "ntohl w = be_word (le_bytes 4 w)"

lemma ntohs_htons [simp, byte_simps]: "ntohs (htons w) = w"
  by (simp add: ntohs_def htons_def)

lemma ntohl_htonl [simp, byte_simps]: "ntohl (htonl w) = w"
  by (simp add: ntohl_def htonl_def)

lemma le_bytes_htons [byte_simps]: "le_bytes 2 (htons w) = be_bytes 2 w"
  by (simp add: htons_def)

lemma le_bytes_htonl [byte_simps]: "le_bytes 4 (htonl w) = be_bytes 4 w"
  by (simp add: htonl_def)

section \<open>Guest memory\<close>

text \<open>
  Guest RAM as the device reaches it: a total map from physical addresses to bytes. A transfer of
  \<open>n\<close> bytes touches the addresses \<open>a, a + 1, \<dots>, a + n - 1\<close>.
\<close>

type_synonym gmem = "u64 \<Rightarrow> u8"

definition mem_read :: "gmem \<Rightarrow> u64 \<Rightarrow> nat \<Rightarrow> u8 list" where
  "mem_read m a n = map (\<lambda>i. m (a + of_nat i)) [0..<n]"

definition mem_write :: "gmem \<Rightarrow> u64 \<Rightarrow> u8 list \<Rightarrow> gmem" where
  "mem_write m a bs = (\<lambda>x. if unat (x - a) < length bs then bs ! unat (x - a) else m x)"

lemma length_mem_read [simp]: "length (mem_read m a n) = n"
  by (simp add: mem_read_def)

lemma mem_write_Nil [simp]: "mem_write m a [] = m"
  by (simp add: mem_write_def)

lemma mem_read_nth [simp]: "i < n \<Longrightarrow> mem_read m a n ! i = m (a + of_nat i)"
  by (simp add: mem_read_def)

lemma mem_read_mem_write_same:
  assumes "n = length bs" and "n \<le> 2 ^ 64"
  shows "mem_read (mem_write m a bs) a n = bs"
  using assms
  by (intro nth_equalityI) (auto simp: mem_write_def unat_of_nat take_bit_nat_eq_self)

lemma mem_write_mem_read_same [simp]:
  "mem_write m a (mem_read m a n) = m"
  by (rule ext) (simp add: mem_write_def)

lemma mem_write_outside:
  "length bs \<le> unat (x - a) \<Longrightarrow> mem_write m a bs x = m x"
  by (simp add: mem_write_def)

section \<open>Byte arrays inside structures\<close>

text \<open>
  An array of bytes that is a field of a C structure, as a function of the index. \<open>buf_get\<close> reads \<open>n\<close>
  bytes from an offset and \<open>buf_put\<close> is \<^verbatim>\<open>memcpy\<close> to an offset; the definitions that use them check that
  the range lies inside the array wherever the types do not say so.
\<close>

definition buf_get :: "(nat \<Rightarrow> u8) \<Rightarrow> nat \<Rightarrow> nat \<Rightarrow> u8 list" where
  "buf_get f off n = map (\<lambda>i. f (off + i)) [0..<n]"

definition buf_put :: "(nat \<Rightarrow> u8) \<Rightarrow> nat \<Rightarrow> u8 list \<Rightarrow> nat \<Rightarrow> u8" where
  "buf_put f off bs = (\<lambda>i. if off \<le> i \<and> i < off + length bs then bs ! (i - off) else f i)"

lemma length_buf_get [simp]: "length (buf_get f off n) = n"
  by (simp add: buf_get_def)

lemma buf_get_0 [simp]: "buf_get f off 0 = []"
  by (simp add: buf_get_def)

lemma buf_get_nth [simp]: "i < n \<Longrightarrow> buf_get f off n ! i = f (off + i)"
  by (simp add: buf_get_def)

lemma buf_put_Nil [simp]: "buf_put f off [] = f"
  by (rule ext) (auto simp: buf_put_def)

lemma buf_get_put_same: "n = length bs \<Longrightarrow> buf_get (buf_put f off bs) off n = bs"
  by (intro nth_equalityI) (simp_all add: buf_put_def)

lemma buf_get_put_other:
  "off + length bs \<le> off' \<or> off' + n \<le> off \<Longrightarrow> buf_get (buf_put f off bs) off' n = buf_get f off' n"
  by (auto simp: buf_get_def buf_put_def)

lemma buf_get_append: "buf_get f off (m + n) = buf_get f off m @ buf_get f (off + m) n"
  by (intro nth_equalityI) (auto simp: nth_append add.assoc)

lemma buf_get_extend:
  "buf_get (buf_put f n bs) 0 (n + length bs) = buf_get f 0 n @ bs"
  by (simp add: buf_get_append buf_get_put_same buf_get_put_other)

end
