(* ===== verification/CString.thy ===== *)
theory CString
  imports VF_Prelude
begin

text \<open>
  The parts of the C library's string handling that the sources use. A C string is the list of its
  characters up to, and without, the terminating zero byte; a character array is described by its
  capacity, and a copy that needs more room than the array has is the fault
  \<open>Buffer_Overflow\<close>.
\<close>

definition isspace :: "char \<Rightarrow> bool" where
  "isspace c \<longleftrightarrow> c = CHR '' '' \<or> c = CHR 0x09 \<or> c = CHR 0x0A \<or> c = CHR 0x0B \<or> c = CHR 0x0C \<or> c = CHR 0x0D"

definition isdigit :: "char \<Rightarrow> bool" where
  "isdigit c \<longleftrightarrow> 48 \<le> (of_char c :: nat) \<and> (of_char c :: nat) \<le> 57"

definition digit_val :: "char \<Rightarrow> int" where
  "digit_val c = int (of_char c) - 48"

text \<open>What a reader of a \<^verbatim>\<open>char\<close> array takes for its contents: everything before the first zero byte.\<close>

definition cstr :: "string \<Rightarrow> string" where
  "cstr s = takeWhile (\<lambda>c. c \<noteq> CHR 0x00) s"

text \<open>\<^verbatim>\<open>strcpy(dst, src)\<close> into an array of \<open>cap\<close> characters: the text and its zero byte must fit.\<close>

definition strcpy :: "nat \<Rightarrow> string \<Rightarrow> string outcome" where
  "strcpy cap src = (if length src < cap then Ok src else Fault Buffer_Overflow)"

text \<open>
  \<^verbatim>\<open>strtok(line, "#")\<close> on a fresh string, seen through its effect on \<^verbatim>\<open>line\<close>: leading delimiters
  are skipped and stay in place, the next delimiter is overwritten by a zero byte.
\<close>

definition strtok_cut :: "char \<Rightarrow> string \<Rightarrow> string" where
  "strtok_cut d s = takeWhile (\<lambda>c. c = d) s @ takeWhile (\<lambda>c. c \<noteq> d) (dropWhile (\<lambda>c. c = d) s)"

text \<open>\<^verbatim>\<open>strchr(line, c)\<close>, splitting the string at the position found.\<close>

definition strchr_split :: "char \<Rightarrow> string \<Rightarrow> (string \<times> string) option" where
  "strchr_split d s =
     (if d \<in> set s then Some (takeWhile (\<lambda>c. c \<noteq> d) s, tl (dropWhile (\<lambda>c. c \<noteq> d) s)) else None)"

text \<open>
  \<^verbatim>\<open>atoi\<close>: white space, an optional sign, decimal digits. A value outside \<^verbatim>\<open>int\<close> is undefined in C.
\<close>

definition dec_val :: "string \<Rightarrow> int" where
  "dec_val ds = foldl (\<lambda>n c. 10 * n + digit_val c) 0 ds"

definition atoi_val :: "string \<Rightarrow> int" where
  "atoi_val s =
     (case dropWhile isspace s of
        [] \<Rightarrow> 0
      | c # r \<Rightarrow>
          if c = CHR ''-'' then - dec_val (takeWhile isdigit r)
          else if c = CHR ''+'' then dec_val (takeWhile isdigit r)
          else dec_val (takeWhile isdigit (c # r)))"

definition atoi :: "string \<Rightarrow> i32 outcome" where
  "atoi s = (if in_int_range (atoi_val s) then Ok (atoi_val s) else Fault Int_Overflow)"

text \<open>Decimal output as \<^verbatim>\<open>printf("%d")\<close> writes it.\<close>

fun show_nat :: "nat \<Rightarrow> string" where
  "show_nat n = (if n < 10 then [char_of (48 + n)] else show_nat (n div 10) @ [char_of (48 + n mod 10)])"

declare show_nat.simps [simp del]

definition show_int :: "int \<Rightarrow> string" where
  "show_int n = (if n < 0 then CHR ''-'' # show_nat (nat (- n)) else show_nat (nat n))"

section \<open>Facts\<close>

lemma of_char_digit: "d < 10 \<Longrightarrow> (of_char (char_of (48 + d :: nat)) :: nat) = 48 + d"
  by simp

lemma isdigit_char_of [simp]: "d < 10 \<Longrightarrow> isdigit (char_of (48 + d :: nat))"
  by (simp add: isdigit_def)

lemma digit_val_char_of [simp]: "d < 10 \<Longrightarrow> digit_val (char_of (48 + d :: nat)) = int d"
  by (simp add: digit_val_def)

lemma dec_val_snoc: "dec_val (ds @ [c]) = 10 * dec_val ds + digit_val c"
  by (simp add: dec_val_def)

lemma show_nat_digits: "list_all isdigit (show_nat n)"
proof (induction n rule: show_nat.induct)
  case (1 n)
  then show ?case by (subst show_nat.simps) simp
qed

lemma show_nat_nonempty: "show_nat n \<noteq> []"
  by (subst show_nat.simps) simp

lemma dec_val_show_nat: "dec_val (show_nat n) = int n"
proof (induction n rule: show_nat.induct)
  case (1 n)
  show ?case
  proof (cases "n < 10")
    case True
    then show ?thesis by (subst show_nat.simps) (simp add: dec_val_def)
  next
    case False
    then have "dec_val (show_nat n) = 10 * int (n div 10) + int (n mod 10)"
      using 1 by (subst show_nat.simps) (simp add: dec_val_snoc)
    then show ?thesis by (simp flip: of_nat_add of_nat_mult add: zmod_int zdiv_int)
  qed
qed

lemma length_show_nat: "n < 10 ^ Suc k \<Longrightarrow> length (show_nat n) \<le> Suc k"
proof (induction k arbitrary: n)
  case 0
  then show ?case by (subst show_nat.simps) simp
next
  case (Suc k)
  show ?case
  proof (cases "n < 10")
    case True
    then show ?thesis by (subst show_nat.simps) simp
  next
    case False
    from Suc.prems have "n div 10 < 10 ^ Suc k"
      by (simp add: div_less_iff_less_mult mult.commute)
    with Suc.IH [of "n div 10"] False show ?thesis
      by (subst show_nat.simps) simp
  qed
qed

lemma length_show_int: "in_int_range n \<Longrightarrow> length (show_int n) \<le> 11"
  using length_show_nat [of "nat n" 9] length_show_nat [of "nat (- n)" 9]
  by (auto simp: show_int_def in_int_range_def nat_less_iff)

lemma isspace_newline [simp]: "isspace CHR 0x0A"
  by (simp add: isspace_def)

lemma takeWhile_all_id: "list_all P xs \<Longrightarrow> takeWhile P xs = xs"
  by (simp add: list_all_iff)

lemma isdigit_not_space: "isdigit c \<Longrightarrow> \<not> isspace c"
  by (auto simp: isdigit_def isspace_def)

lemma isdigit_not_sign: "isdigit c \<Longrightarrow> c \<noteq> CHR ''-'' \<and> c \<noteq> CHR ''+''"
  by (auto simp: isdigit_def)

lemma atoi_val_show_nat: "atoi_val (show_nat n) = int n"
proof -
  obtain c r where cr: "show_nat n = c # r"
    using show_nat_nonempty [of n] by (cases "show_nat n") auto
  then have dig: "isdigit c" "list_all isdigit (c # r)"
    using show_nat_digits [of n] by auto
  then have "atoi_val (c # r) = dec_val (c # r)"
    by (simp add: atoi_val_def isdigit_not_space isdigit_not_sign takeWhile_all_id
        del: takeWhile.simps)
  then show ?thesis using cr dec_val_show_nat [of n] by simp
qed

lemma atoi_val_show_int [simp]: "atoi_val (show_int n) = n"
proof (cases "n < 0")
  case True
  then show ?thesis
    by (simp add: show_int_def atoi_val_def isspace_def dec_val_show_nat
        takeWhile_all_id [OF show_nat_digits])
next
  case False
  then show ?thesis by (simp add: show_int_def atoi_val_show_nat)
qed

lemma atoi_show_int: "in_int_range n \<Longrightarrow> atoi (show_int n) = Ok n"
  by (simp add: atoi_def)

lemma set_show_int: "c \<in> set (show_int n) \<Longrightarrow> isdigit c \<or> c = CHR ''-''"
  using show_nat_digits by (auto simp: show_int_def list_all_iff split: if_splits)

lemma strtok_cut_no_delim: "d \<notin> set s \<Longrightarrow> strtok_cut d s = s"
proof -
  assume d: "d \<notin> set s"
  then have "takeWhile (\<lambda>c. c = d) s = []" "dropWhile (\<lambda>c. c = d) s = s"
    by (cases s; auto)+
  moreover have "takeWhile (\<lambda>c. c \<noteq> d) s = s"
    using d by (intro takeWhile_all_id) (auto simp: list_all_iff)
  ultimately show ?thesis by (simp add: strtok_cut_def)
qed

lemma takeWhile_upto: "d \<notin> set k \<Longrightarrow> takeWhile (\<lambda>c. c \<noteq> d) (k @ d # v) = k"
  by (induction k) auto

lemma dropWhile_upto: "d \<notin> set k \<Longrightarrow> dropWhile (\<lambda>c. c \<noteq> d) (k @ d # v) = d # v"
  by (induction k) auto

lemma strtok_cut_comment:
  assumes "s \<noteq> []" and "d \<notin> set s"
  shows "strtok_cut d (s @ d # rest) = s"
  using assms by (cases s) (auto simp: strtok_cut_def takeWhile_upto)

lemma strchr_split_append:
  "d \<notin> set k \<Longrightarrow> strchr_split d (k @ d # v) = Some (k, v)"
  by (simp add: strchr_split_def takeWhile_upto dropWhile_upto)

lemma cstr_id: "CHR 0x00 \<notin> set s \<Longrightarrow> cstr s = s"
  unfolding cstr_def by (rule takeWhile_all_id) (auto simp: list_all_iff)

end
