(* ===== verification/Opt.thy ===== *)
theory Opt
  imports CString
begin

text \<open>
  The options library, \<^verbatim>\<open>hw/msg/opt.c\<close> and \<^verbatim>\<open>hw/msg/opt.h\<close>: a global structure \<^verbatim>\<open>OPT\<close> with default
  values, and \<^verbatim>\<open>ReadOptions\<close>, which overwrites it once from a text file of \<^verbatim>\<open>token=value\<close> words.
  The file system is a parameter: a map from file names to the contents of the files that can be
  opened. The lemmas relate the read loop to the sequence of white-space separated words of the
  file, give the round trip of a rendered option file, and record where the character arrays of
  the structure are too small.
\<close>

section \<open>The option structure\<close>

record options =
  mcastip :: string    \<comment> \<open>\<^verbatim>\<open>char[16]\<close>\<close>
  mcastport :: string  \<comment> \<open>\<^verbatim>\<open>char[6]\<close>\<close>
  magicnum :: u32
  tcpport :: string    \<comment> \<open>\<^verbatim>\<open>char[6]\<close>\<close>
  timeout :: i32
  dbglvl :: i32
  opt_set :: i32

definition OPTBUFLEN :: nat where
  "OPTBUFLEN = 1024"

definition default_file :: string where
  "default_file = ''optrc''"

definition OPT_init :: options where
  "OPT_init = \<lparr>mcastip = ''234.1.1.10'', mcastport = ''9751'', magicnum = 0xe1000,
     tcpport = ''9752'', timeout = 0, dbglvl = 3, opt_set = 0\<rparr>"

section \<open>Reading an option file\<close>

text \<open>
  \<^verbatim>\<open>fscanf(f, "%s\n", line)\<close>: skip white space, take the word that follows (none at the end of the
  file), then skip white space again. The second component is what is left of the file; the
  end-of-file mark is set exactly when nothing is left.
\<close>

definition fscanf_word :: "string \<Rightarrow> string option \<times> string" where
  "fscanf_word inp =
     (let s = dropWhile isspace inp in
      if s = [] then (None, [])
      else (Some (takeWhile (\<lambda>c. \<not> isspace c) s), dropWhile isspace (dropWhile (\<lambda>c. \<not> isspace c) s)))"

definition assign_option :: "string \<Rightarrow> string \<Rightarrow> options \<Rightarrow> options outcome" where
  "assign_option key val opt =
     (if key = ''mcastip'' then bindO (strcpy 16 val) (\<lambda>v. Ok (opt\<lparr>mcastip := v\<rparr>))
      else if key = ''mcastport'' then bindO (strcpy 6 val) (\<lambda>v. Ok (opt\<lparr>mcastport := v\<rparr>))
      else if key = ''tcpport'' then bindO (strcpy 6 val) (\<lambda>v. Ok (opt\<lparr>tcpport := v\<rparr>))
      else if key = ''magicnum'' then bindO (atoi val) (\<lambda>n. Ok (opt\<lparr>magicnum := word_of_int n\<rparr>))
      else if key = ''timeout'' then bindO (atoi val) (\<lambda>n. Ok (opt\<lparr>timeout := n\<rparr>))
      else if key = ''dbglvl'' then bindO (atoi val) (\<lambda>n. Ok (opt\<lparr>dbglvl := n\<rparr>))
      else Ok opt)"

text \<open>The body of the read loop on one scanned word.\<close>

definition option_line :: "string \<Rightarrow> options \<Rightarrow> options outcome" where
  "option_line word opt =
     (if OPTBUFLEN \<le> length word then Fault Buffer_Overflow
      else case strchr_split CHR ''='' (strtok_cut CHR ''#'' (cstr word)) of
             None \<Rightarrow> Ok opt
           | Some (key, val) \<Rightarrow> assign_option key val opt)"

lemma length_dropWhile_less: "xs \<noteq> [] \<Longrightarrow> P (hd xs) \<Longrightarrow> length (dropWhile P xs) < length xs"
  by (cases xs) (auto intro: le_less_trans [OF length_dropWhile_le])

lemma length_dropWhile_span:
  assumes "dropWhile P xs \<noteq> []"
  shows "length (dropWhile (\<lambda>c. \<not> P c) (dropWhile P xs)) < length (dropWhile P xs)"
  using assms by (intro length_dropWhile_less) (rule assms, rule hd_dropWhile)

lemma fscanf_word_shorter:
  assumes "fscanf_word inp = (Some w, rest)"
  shows "length rest < length inp"
proof -
  let ?s = "dropWhile isspace inp"
  from assms have s: "?s \<noteq> []" and rest: "rest = dropWhile isspace (dropWhile (\<lambda>c. \<not> isspace c) ?s)"
    by (auto simp: fscanf_word_def Let_def split: if_splits)
  have "length rest \<le> length (dropWhile (\<lambda>c. \<not> isspace c) ?s)"
    unfolding rest by (rule length_dropWhile_le)
  also have "\<dots> < length ?s"
    using s by (rule length_dropWhile_span)
  also have "\<dots> \<le> length inp" by (rule length_dropWhile_le)
  finally show ?thesis .
qed

text \<open>
  The loop \<^verbatim>\<open>while (!feof(f))\<close>. On a file without any word the first scan leaves the buffer
  \<^verbatim>\<open>line\<close> unassigned and the body reads it; later scans always find a word, since the file is not
  at its end and the white space before the word has been skipped.
\<close>

function read_loop :: "string \<Rightarrow> options \<Rightarrow> options outcome" where
  "read_loop inp opt =
     (case fscanf_word inp of
        (None, rest) \<Rightarrow> Fault Uninitialised_Read
      | (Some word, rest) \<Rightarrow>
          bindO (option_line word opt)
            (\<lambda>opt'. if rest = [] then Ok opt' else read_loop rest opt'))"
  by pat_completeness auto
termination
  by (relation "measure (\<lambda>(inp, opt). length inp)")
     (auto dest: fscanf_word_shorter [OF sym])

declare read_loop.simps [simp del]

definition ReadOptions :: "(string \<rightharpoonup> string) \<Rightarrow> string option \<Rightarrow> options \<Rightarrow> options outcome" where
  "ReadOptions fopen filename opt =
     (if opt_set opt \<noteq> 0 then Ok opt
      else
        let name = (case filename of None \<Rightarrow> default_file | Some n \<Rightarrow> n);
            opt1 = opt\<lparr>opt_set := 1\<rparr>
        in case fopen name of
             None \<Rightarrow> Ok opt1
           | Some contents \<Rightarrow> read_loop contents opt1)"

section \<open>Specification: the words of the file, one after the other\<close>

function words_of :: "string \<Rightarrow> string list" where
  "words_of s =
     (let t = dropWhile isspace s in
      if t = [] then []
      else takeWhile (\<lambda>c. \<not> isspace c) t # words_of (dropWhile (\<lambda>c. \<not> isspace c) t))"
  by pat_completeness auto
termination
proof (relation "measure length")
  fix s t :: string
  assume t: "t = dropWhile isspace s" and ne: "t \<noteq> []"
  then have "length (dropWhile (\<lambda>c. \<not> isspace c) t) < length t"
    by (metis length_dropWhile_span)
  also have "\<dots> \<le> length s" unfolding t by (rule length_dropWhile_le)
  finally show "(dropWhile (\<lambda>c. \<not> isspace c) t, s) \<in> measure length" by simp
qed simp

declare words_of.simps [simp del]

fun process_words :: "string list \<Rightarrow> options \<Rightarrow> options outcome" where
  "process_words [] opt = Ok opt"
| "process_words (w # ws) opt = bindO (option_line w opt) (process_words ws)"

lemma dropWhile_idem: "dropWhile P (dropWhile P xs) = dropWhile P xs"
  by (induction xs) auto

lemma words_of_skip_space: "words_of (dropWhile isspace s) = words_of s"
  by (subst (1 2) words_of.simps) (simp add: dropWhile_idem)

lemma words_of_Nil [simp]: "words_of [] = []"
  by (subst words_of.simps) simp

lemma words_of_fscanf:
  "words_of inp = (case fscanf_word inp of (None, rest) \<Rightarrow> [] | (Some w, rest) \<Rightarrow> w # words_of rest)"
  by (subst words_of.simps) (simp add: fscanf_word_def Let_def words_of_skip_space)

lemma fscanf_word_None_iff: "fst (fscanf_word inp) = None \<longleftrightarrow> words_of inp = []"
  by (simp add: words_of_fscanf [of inp] split: prod.splits option.splits)

lemma words_of_eq_Nil: "words_of s = [] \<longleftrightarrow> dropWhile isspace s = []"
  by (subst words_of.simps) (simp only: Let_def split: if_split, simp)

lemma fscanf_word_rest:
  assumes "fscanf_word inp = (Some w, rest)"
  shows "words_of rest = [] \<longleftrightarrow> rest = []"
proof -
  from assms have "dropWhile isspace rest = rest"
    by (auto simp: fscanf_word_def Let_def dropWhile_idem simp del: dropWhile_eq_Nil_conv split: if_splits)
  then show ?thesis by (simp only: words_of_eq_Nil)
qed

lemma read_loop_words:
  "words_of inp \<noteq> [] \<Longrightarrow> read_loop inp opt = process_words (words_of inp) opt"
proof (induction inp opt rule: read_loop.induct)
  case (1 inp opt)
  from "1.prems" obtain w rest where sc: "fscanf_word inp = (Some w, rest)"
    by (auto simp: words_of_fscanf [of inp] split: prod.splits option.splits)
  have ws: "words_of inp = w # words_of rest"
    by (simp add: words_of_fscanf [of inp] sc)
  show ?case
  proof (cases "option_line w opt")
    case (Ok opt')
    show ?thesis
    proof (cases "rest = []")
      case True
      with sc ws Ok show ?thesis by (simp add: read_loop.simps [of inp opt])
    next
      case False
      then have "words_of rest \<noteq> []" by (simp add: fscanf_word_rest [OF sc])
      then have "read_loop rest opt' = process_words (words_of rest) opt'"
        using "1.IH" [OF sc [symmetric] refl Ok False] by simp
      with False sc ws Ok show ?thesis by (simp add: read_loop.simps [of inp opt])
    qed
  next
    case (Fault e)
    with sc ws show ?thesis by (simp add: read_loop.simps [of inp opt])
  qed
qed

lemma read_loop_no_words: "words_of inp = [] \<Longrightarrow> read_loop inp opt = Fault Uninitialised_Read"
  using fscanf_word_None_iff [of inp]
  by (subst read_loop.simps) (auto split: prod.splits)

section \<open>Rendering an option file\<close>

definition plain_word :: "string \<Rightarrow> bool" where
  "plain_word s \<longleftrightarrow> list_all (\<lambda>c. \<not> isspace c \<and> c \<noteq> CHR ''#'' \<and> c \<noteq> CHR 0x00) s"

definition render_word :: "string \<Rightarrow> string \<Rightarrow> string" where
  "render_word key val = key @ CHR ''='' # val"

definition render_words :: "options \<Rightarrow> string list" where
  "render_words opt =
     [render_word ''mcastip'' (mcastip opt), render_word ''mcastport'' (mcastport opt),
      render_word ''tcpport'' (tcpport opt), render_word ''magicnum'' (show_int (sint (magicnum opt))),
      render_word ''timeout'' (show_int (timeout opt)), render_word ''dbglvl'' (show_int (dbglvl opt))]"

definition unlines :: "string list \<Rightarrow> string" where
  "unlines ls = concat (map (\<lambda>l. l @ [CHR 0x0A]) ls)"

definition wf_options :: "options \<Rightarrow> bool" where
  "wf_options opt \<longleftrightarrow>
     plain_word (mcastip opt) \<and> length (mcastip opt) < 16 \<and>
     plain_word (mcastport opt) \<and> length (mcastport opt) < 6 \<and>
     plain_word (tcpport opt) \<and> length (tcpport opt) < 6 \<and>
     in_int_range (timeout opt) \<and> in_int_range (dbglvl opt)"

lemma words_of_line:
  assumes "w \<noteq> []" and "list_all (\<lambda>c. \<not> isspace c) w"
  shows "words_of (w @ CHR 0x0A # rest) = w # words_of rest"
proof -
  have drop: "dropWhile isspace (w @ CHR 0x0A # rest) = w @ CHR 0x0A # rest"
    using assms by (cases w) auto
  have "words_of (CHR 0x0A # rest) = words_of (dropWhile isspace (CHR 0x0A # rest))"
    by (simp only: words_of_skip_space)
  also have "\<dots> = words_of rest"
    by (simp add: words_of_skip_space)
  finally have nl: "words_of (CHR 0x0A # rest) = words_of rest" .
  have "takeWhile (\<lambda>c. \<not> isspace c) (w @ CHR 0x0A # rest) = w"
    and "dropWhile (\<lambda>c. \<not> isspace c) (w @ CHR 0x0A # rest) = CHR 0x0A # rest"
    using assms(2) by (induction w) (auto simp: isspace_def)
  with assms(1) drop nl show ?thesis
    by (subst words_of.simps) (simp add: Let_def)
qed

lemma words_of_unlines:
  "list_all (\<lambda>w. w \<noteq> [] \<and> list_all (\<lambda>c. \<not> isspace c) w) ws \<Longrightarrow> words_of (unlines ws) = ws"
  by (induction ws) (simp_all add: unlines_def words_of_line)

lemma plain_word_parts:
  assumes "plain_word s"
  shows "list_all (\<lambda>c. \<not> isspace c) s" "CHR ''#'' \<notin> set s" "CHR 0x00 \<notin> set s"
  using assms by (auto simp: plain_word_def list_all_iff)

lemma plain_word_Nil [simp]: "plain_word []"
  by (simp add: plain_word_def)

lemma plain_word_append [simp]: "plain_word (a @ b) \<longleftrightarrow> plain_word a \<and> plain_word b"
  by (auto simp: plain_word_def)

lemma plain_word_Cons [simp]:
  "plain_word (c # s) \<longleftrightarrow> \<not> isspace c \<and> c \<noteq> CHR ''#'' \<and> c \<noteq> CHR 0x00 \<and> plain_word s"
  by (auto simp: plain_word_def)

lemma plain_word_show_int: "plain_word (show_int n)"
  unfolding plain_word_def list_all_iff
  using set_show_int [of _ n] by (force simp: isdigit_def isspace_def)

lemma option_line_render:
  assumes "plain_word key" and "plain_word val" and "CHR ''='' \<notin> set key"
    and "length key + length val < 1023"
  shows "option_line (render_word key val) opt = assign_option key val opt"
proof -
  have "plain_word (render_word key val)"
    using assms by (simp add: render_word_def isspace_def)
  then have "strtok_cut CHR ''#'' (cstr (render_word key val)) = render_word key val"
    by (simp add: cstr_id strtok_cut_no_delim plain_word_parts)
  then show ?thesis
    using assms by (simp add: option_line_def OPTBUFLEN_def render_word_def strchr_split_append)
qed

lemma render_words_nonempty [simp]: "render_words opt \<noteq> []"
  by (simp add: render_words_def)

lemma process_words_render:
  assumes "wf_options opt"
  shows "process_words (render_words opt) opt0 = Ok (opt\<lparr>opt_set := opt_set opt0\<rparr>)"
proof -
  have sint_range: "in_int_range (sint (magicnum opt))"
    using sint_range_size [of "magicnum opt"] by (simp add: in_int_range_def word_size)
  have key: "option_line (render_word k v) o' = assign_option k v o'"
    if "k \<in> {''mcastip'', ''mcastport'', ''tcpport'', ''magicnum'', ''timeout'', ''dbglvl''}"
      and "plain_word v" and "length v < 16" for k v o'
  proof (rule option_line_render)
    show "plain_word k" "CHR ''='' \<notin> set k" "length k + length v < 1023"
      using that(1,3) by (elim insertE emptyE; simp add: isspace_def plain_word_Nil)+
  qed (rule that)
  have short: "length (show_int n) < 16" if "in_int_range n" for n
    using length_show_int [OF that] by simp
  have wf: "plain_word (mcastip opt)" "length (mcastip opt) < 16" "plain_word (mcastport opt)"
    "length (mcastport opt) < 6" "plain_word (tcpport opt)" "length (tcpport opt) < 6"
    "in_int_range (timeout opt)" "in_int_range (dbglvl opt)"
    using assms by (simp_all add: wf_options_def)
  note assign = key assign_option_def
  have 1: "option_line (render_word ''mcastip'' (mcastip opt)) o' = Ok (o'\<lparr>mcastip := mcastip opt\<rparr>)" for o'
    using wf by (simp add: assign strcpy_def)
  have 2: "option_line (render_word ''mcastport'' (mcastport opt)) o' = Ok (o'\<lparr>mcastport := mcastport opt\<rparr>)" for o'
    using wf by (simp add: assign strcpy_def)
  have 3: "option_line (render_word ''tcpport'' (tcpport opt)) o' = Ok (o'\<lparr>tcpport := tcpport opt\<rparr>)" for o'
    using wf by (simp add: assign strcpy_def)
  have 4: "option_line (render_word ''magicnum'' (show_int (sint (magicnum opt)))) o' = Ok (o'\<lparr>magicnum := magicnum opt\<rparr>)" for o'
    using wf sint_range by (simp add: assign short plain_word_show_int atoi_show_int)
  have 5: "option_line (render_word ''timeout'' (show_int (timeout opt))) o' = Ok (o'\<lparr>timeout := timeout opt\<rparr>)" for o'
    using wf by (simp add: assign short plain_word_show_int atoi_show_int)
  have 6: "option_line (render_word ''dbglvl'' (show_int (dbglvl opt))) o' = Ok (o'\<lparr>dbglvl := dbglvl opt\<rparr>)" for o'
    using wf by (simp add: assign short plain_word_show_int atoi_show_int)
  show ?thesis
    by (simp add: render_words_def 1 2 3 4 5 6)
qed

lemma plain_word_render [simp]:
  "plain_word (render_word key val) \<longleftrightarrow> plain_word key \<and> plain_word val"
  by (simp add: render_word_def isspace_def)

lemma words_of_unlines_plain:
  assumes "list_all (\<lambda>w. w \<noteq> [] \<and> plain_word w) ws"
  shows "words_of (unlines ws) = ws"
  using assms by (intro words_of_unlines) (auto simp: list_all_iff plain_word_def)

lemma render_words_separable:
  assumes "wf_options opt"
  shows "words_of (unlines (render_words opt)) = render_words opt"
proof (rule words_of_unlines_plain)
  have "plain_word k" if "k \<in> {''mcastip'', ''mcastport'', ''tcpport'', ''magicnum'', ''timeout'', ''dbglvl''}" for k
    using that by (elim insertE emptyE; simp add: isspace_def)
  then show "list_all (\<lambda>w. w \<noteq> [] \<and> plain_word w) (render_words opt)"
    using assms by (simp add: render_words_def wf_options_def plain_word_show_int
        del: plain_word_Cons) (simp add: render_word_def)
qed

lemma option_line_keeps_set: "option_line w opt = Ok opt' \<Longrightarrow> opt_set opt' = opt_set opt"
  by (auto simp: option_line_def assign_option_def bindO_eq_Ok_conv split: if_splits option.splits)

lemma process_words_keeps_set: "process_words ws opt = Ok opt' \<Longrightarrow> opt_set opt' = opt_set opt"
  by (induction ws arbitrary: opt) (auto simp: bindO_eq_Ok_conv dest: option_line_keeps_set)

lemma read_loop_keeps_set: "read_loop inp opt = Ok opt' \<Longrightarrow> opt_set opt' = opt_set opt"
  by (cases "words_of inp = []")
     (auto simp: read_loop_no_words read_loop_words dest: process_words_keeps_set)

lemma ReadOptions_sets:
  assumes "ReadOptions fopen name opt = Ok opt'"
  shows "opt_set opt' \<noteq> 0"
proof (cases "opt_set opt = 0")
  case True
  with assms have "opt' = opt\<lparr>opt_set := 1\<rparr> \<or> (\<exists>inp. read_loop inp (opt\<lparr>opt_set := 1\<rparr>) = Ok opt')"
    unfolding ReadOptions_def Let_def
    by (cases "fopen (case name of None \<Rightarrow> default_file | Some n \<Rightarrow> n)") auto
  then show ?thesis by (auto dest: read_loop_keeps_set)
next
  case False
  with assms show ?thesis by (simp add: ReadOptions_def)
qed

section \<open>Properties\<close>



text \<open>
  C35: round trip. An option structure whose strings fit their arrays and contain no white space,
  comment sign or zero byte, and whose numbers fit \<^verbatim>\<open>int\<close>, is read back unchanged from the file
  that lists its fields, whatever the structure held before.
\<close>

theorem ReadOptions_roundtrip:
  assumes "wf_options opt" and "opt_set opt0 = 0" and "fopen name = Some (unlines (render_words opt))"
  shows "ReadOptions fopen (Some name) opt0 = Ok (opt\<lparr>opt_set := 1\<rparr>)"
proof -
  have "words_of (unlines (render_words opt)) = render_words opt"
    using assms(1) by (rule render_words_separable)
  then show ?thesis
    using assms by (simp add: ReadOptions_def read_loop_words process_words_render)
qed

theorem ReadOptions_roundtrip_witness:
  "ReadOptions [''optrc'' \<mapsto> unlines (render_words (OPT_init\<lparr>timeout := 10\<rparr>))] (Some ''optrc'') OPT_init
     = Ok (OPT_init\<lparr>timeout := 10, opt_set := 1\<rparr>)"
  using ReadOptions_roundtrip [of "OPT_init\<lparr>timeout := 10\<rparr>" OPT_init
      "[''optrc'' \<mapsto> unlines (render_words (OPT_init\<lparr>timeout := 10\<rparr>))]" "''optrc''"]
  by (simp add: OPT_init_def wf_options_def plain_word_def isspace_def in_int_range_def)

text \<open>
  C36: the options are read at most once. After a call that returned, every further call leaves the
  structure as it is, whatever file it names (the device reads \<^verbatim>\<open>/tmp/e1000.optrc\<close> first, so the
  later calls from \<^verbatim>\<open>announce\<close> and \<^verbatim>\<open>locate\<close> change nothing).
\<close>

theorem ReadOptions_once:
  "ReadOptions fopen name opt = Ok opt' \<Longrightarrow> ReadOptions fopen' name' opt' = Ok opt'"
  using ReadOptions_sets [of fopen name opt opt'] by (simp add: ReadOptions_def)

theorem ReadOptions_once_witness:
  "ReadOptions [''a'' \<mapsto> ''timeout=1''] (Some ''a'') (OPT_init\<lparr>opt_set := 1\<rparr>) = Ok (OPT_init\<lparr>opt_set := 1\<rparr>)"
  by (rule ReadOptions_once [of Map.empty None OPT_init]) (simp add: ReadOptions_def OPT_init_def)

text \<open>
  What the header comment of \<^verbatim>\<open>opt.h\<close> promises and the scanner does not do: text to the right of a
  comment sign is still interpreted when white space separates it from the sign.
\<close>

lemma ReadOptions_comment_not_ignored:
  "ReadOptions [''f'' \<mapsto> ''timeout=1 # was timeout=99''] (Some ''f'') OPT_init
     = Ok (OPT_init\<lparr>timeout := 99, opt_set := 1\<rparr>)"
  by (simp add: ReadOptions_def OPT_init_def read_loop.simps fscanf_word_def isspace_def
      option_line_def OPTBUFLEN_def cstr_def strtok_cut_def strchr_split_def assign_option_def
      atoi_def atoi_val_def dec_val_def isdigit_def digit_val_def in_int_range_def
      cong: bindO_weak_cong)

text \<open>
  The copies into \<^verbatim>\<open>OPT.mcastip\<close>, \<^verbatim>\<open>OPT.mcastport\<close> and \<^verbatim>\<open>OPT.tcpport\<close> are not bounded: a longer value
  in the file writes past the array.
\<close>

lemma option_line_overflow:
  assumes "plain_word val" and "6 \<le> length val" and "length val < 1000"
  shows "option_line (render_word ''tcpport'' val) opt = Fault Buffer_Overflow"
  using assms
  by (subst option_line_render)
     (auto simp: plain_word_def isspace_def assign_option_def strcpy_def)

text \<open>A file without any word makes the loop body read the buffer \<^verbatim>\<open>line\<close> before anything was stored in it.\<close>

lemma ReadOptions_empty_file:
  "ReadOptions [''f'' \<mapsto> []] (Some ''f'') OPT_init = Fault Uninitialised_Read"
  by (simp add: ReadOptions_def OPT_init_def read_loop_no_words)

end
