(* ===== verification/Sockets.thy ===== *)
theory Sockets
  imports Opt "HOL-Library.Multiset"
begin

text \<open>
  The host that the messaging code runs on. The operating system is not part of the sources: it is
  the parameter \<open>os\<close>, a record with one function per system or resolver call that \<^verbatim>\<open>panel.c\<close> and
  \<^verbatim>\<open>message.c\<close> make. Each takes the arguments of the C call and the state \<open>'w\<close> of the world, and
  answers with the return code, the value of \<^verbatim>\<open>errno\<close> that a failing call leaves, what it stored through
  its output arguments, and the next state of the world. Nothing is assumed about these functions
  here.

  The process itself is the record \<open>host\<close>: \<^verbatim>\<open>errno\<close>, the global \<^verbatim>\<open>OPT\<close>, the panels allocated with
  \<^verbatim>\<open>malloc\<close>, the sockets it has opened and not closed yet (kept only to state that none is leaked; no
  code reads it), and the world. Code runs in the type \<open>('w, 'a) M\<close> of functions on that state that
  may run into a fault.
\<close>

section \<open>Constants of the socket interface (Linux)\<close>

abbreviation AF_UNSPEC :: u32 where "AF_UNSPEC \<equiv> 0"
abbreviation AF_INET :: u32 where "AF_INET \<equiv> 2"
abbreviation AF_INET6 :: u32 where "AF_INET6 \<equiv> 10"
abbreviation SOCK_STREAM :: u32 where "SOCK_STREAM \<equiv> 1"
abbreviation SOCK_DGRAM :: u32 where "SOCK_DGRAM \<equiv> 2"
abbreviation IPPROTO_IP :: u32 where "IPPROTO_IP \<equiv> 0"
abbreviation IPPROTO_TCP :: u32 where "IPPROTO_TCP \<equiv> 6"
abbreviation IPPROTO_UDP :: u32 where "IPPROTO_UDP \<equiv> 17"
abbreviation SOL_SOCKET :: u32 where "SOL_SOCKET \<equiv> 1"
abbreviation SO_REUSEADDR :: u32 where "SO_REUSEADDR \<equiv> 2"
abbreviation SO_LINGER :: u32 where "SO_LINGER \<equiv> 13"
abbreviation IP_MULTICAST_IF :: u32 where "IP_MULTICAST_IF \<equiv> 32"
abbreviation IP_MULTICAST_TTL :: u32 where "IP_MULTICAST_TTL \<equiv> 33"
abbreviation IP_MULTICAST_LOOP :: u32 where "IP_MULTICAST_LOOP \<equiv> 34"
abbreviation IP_ADD_MEMBERSHIP :: u32 where "IP_ADD_MEMBERSHIP \<equiv> 35"
abbreviation IP_DROP_MEMBERSHIP :: u32 where "IP_DROP_MEMBERSHIP \<equiv> 36"
abbreviation IPPROTO_IPV6 :: u32 where "IPPROTO_IPV6 \<equiv> 41"
abbreviation IPV6_MULTICAST_HOPS :: u32 where "IPV6_MULTICAST_HOPS \<equiv> 18"
abbreviation IPV6_MULTICAST_LOOP :: u32 where "IPV6_MULTICAST_LOOP \<equiv> 19"
abbreviation AI_PASSIVE :: u32 where "AI_PASSIVE \<equiv> 1"
abbreviation EPERM :: i32 where "EPERM \<equiv> 1"
abbreviation ENOMEM :: i32 where "ENOMEM \<equiv> 12"
abbreviation EINVAL :: i32 where "EINVAL \<equiv> 22"
abbreviation ENOSPC :: i32 where "ENOSPC \<equiv> 28"
abbreviation EAFNOSUPPORT :: i32 where "EAFNOSUPPORT \<equiv> 97"
abbreviation ECANCELED :: i32 where "ECANCELED \<equiv> 125"

text \<open>\<^verbatim>\<open>INVALID_SOCKET\<close> and \<^verbatim>\<open>SOCKET_ERROR\<close> of \<^verbatim>\<open>panel.h\<close>, as \<^verbatim>\<open>int\<close> and as stored in a panel.\<close>

abbreviation NO_ERROR :: i32 where "NO_ERROR \<equiv> 0"
abbreviation INVALID_SOCKET :: i32 where "INVALID_SOCKET \<equiv> - 1"
abbreviation SOCKET_ERROR :: i32 where "SOCKET_ERROR \<equiv> - 1"

section \<open>Addresses and panels\<close>

text \<open>
  \<^verbatim>\<open>struct sockaddr\<close> (16 bytes) under its \<^verbatim>\<open>sockaddr_in\<close> view. Port and address are kept as the raw
  fields, that is in network byte order.
\<close>

record sockaddr =
  sa_family :: u16
  sin_port :: u16
  sin_addr :: u32
  sin_zero :: u64

definition zero_sockaddr :: sockaddr where
  "zero_sockaddr = \<lparr>sa_family = 0, sin_port = 0, sin_addr = 0, sin_zero = 0\<rparr>"

record PANEL =
  sp_socket :: u32
  sp_bind :: sockaddr
  sp_dest :: sockaddr
  sp_family :: u32
  sp_socktype :: u32
  sp_protocol :: u32
  sp_flags :: u16
  sp_zero :: u16

type_synonym ptr = nat

abbreviation NULL :: ptr where "NULL \<equiv> 0"

text \<open>One entry of the list that \<^verbatim>\<open>getifaddrs\<close> returns: name, flags, and the address if there is one.\<close>

record ifaddr =
  ifa_name :: string
  ifa_flags :: u32
  ifa_addr :: "sockaddr option"

section \<open>The operating system as a parameter\<close>

record 'w os =
  os_fopen :: "string \<Rightarrow> 'w \<Rightarrow> string option"
  os_malloc :: "'w \<Rightarrow> bool \<times> 'w"
  os_socket :: "u32 \<Rightarrow> u32 \<Rightarrow> u32 \<Rightarrow> 'w \<Rightarrow> i32 \<times> i32 \<times> 'w"
  os_close :: "u32 \<Rightarrow> 'w \<Rightarrow> 'w"
  os_setsockopt :: "u32 \<Rightarrow> u32 \<Rightarrow> u32 \<Rightarrow> u8 list \<Rightarrow> 'w \<Rightarrow> i32 \<times> i32 \<times> 'w"
  os_bind :: "u32 \<Rightarrow> sockaddr \<Rightarrow> 'w \<Rightarrow> i32 \<times> i32 \<times> 'w"
  os_listen :: "u32 \<Rightarrow> i32 \<Rightarrow> 'w \<Rightarrow> i32 \<times> i32 \<times> 'w"
  os_accept :: "u32 \<Rightarrow> 'w \<Rightarrow> i32 \<times> i32 \<times> sockaddr \<times> 'w"
  os_connect :: "u32 \<Rightarrow> sockaddr \<Rightarrow> 'w \<Rightarrow> i32 \<times> i32 \<times> 'w"
  os_select :: "u32 list \<Rightarrow> nat option \<Rightarrow> 'w \<Rightarrow> i32 \<times> i32 \<times> (u32 list \<times> nat) \<times> 'w"
  os_send :: "u32 \<Rightarrow> u8 list \<Rightarrow> 'w \<Rightarrow> i32 \<times> i32 \<times> 'w"
  os_recv :: "u32 \<Rightarrow> nat \<Rightarrow> bool \<Rightarrow> 'w \<Rightarrow> i32 \<times> i32 \<times> u8 list \<times> 'w"
  os_sendto :: "u32 \<Rightarrow> u8 list \<Rightarrow> sockaddr \<Rightarrow> 'w \<Rightarrow> i32 \<times> i32 \<times> 'w"
  os_recvfrom :: "u32 \<Rightarrow> nat \<Rightarrow> 'w \<Rightarrow> i32 \<times> i32 \<times> (u8 list \<times> sockaddr) \<times> 'w"
  os_getaddrinfo :: "string option \<Rightarrow> string \<Rightarrow> u32 \<Rightarrow> u32 \<Rightarrow> u32 \<Rightarrow> u32 \<Rightarrow> 'w \<Rightarrow> i32 \<times> (sockaddr \<times> nat) \<times> 'w"
  os_getifaddrs :: "'w \<Rightarrow> i32 \<times> i32 \<times> ifaddr list \<times> 'w"
  os_getnameinfo :: "sockaddr \<Rightarrow> 'w \<Rightarrow> i32 \<times> string \<times> 'w"
  os_inet_pton :: "string \<Rightarrow> u32 option"
  os_inet_ntop :: "u16 \<Rightarrow> u32 \<Rightarrow> string option"

record 'w host =
  errno :: i32
  OPT :: options
  heap :: "ptr \<rightharpoonup> PANEL"
  brk :: ptr
  fds :: "u32 multiset"
  world :: 'w

type_synonym ('w, 'a) M = "'w host \<Rightarrow> ('a \<times> 'w host) outcome"

definition returnM :: "'a \<Rightarrow> ('w, 'a) M" where
  "returnM x = (\<lambda>h. Ok (x, h))"

definition bindM :: "('w, 'a) M \<Rightarrow> ('a \<Rightarrow> ('w, 'b) M) \<Rightarrow> ('w, 'b) M" where
  "bindM m f = (\<lambda>h. bindO (m h) (\<lambda>(x, h'). f x h'))"

definition faultM :: "fault \<Rightarrow> ('w, 'a) M" where
  "faultM e = (\<lambda>h. Fault e)"

definition getM :: "('w host \<Rightarrow> 'a) \<Rightarrow> ('w, 'a) M" where
  "getM f = (\<lambda>h. Ok (f h, h))"

definition modifyM :: "('w host \<Rightarrow> 'w host) \<Rightarrow> ('w, unit) M" where
  "modifyM f = (\<lambda>h. Ok ((), f h))"

text \<open>\<^verbatim>\<open>rc = m; if (rc == SOCKET_ERROR) return rc; ...\<close>\<close>

definition checkM :: "('w, i32) M \<Rightarrow> ('w, i32) M \<Rightarrow> ('w, i32) M" where
  "checkM m k = bindM m (\<lambda>rc. if rc = SOCKET_ERROR then returnM rc else k)"

section \<open>System calls and memory\<close>

definition set_error :: "i32 \<Rightarrow> ('w, unit) M" where
  "set_error e = modifyM (\<lambda>h. h\<lparr>errno := e\<rparr>)"

text \<open>A call that answers with a return code only; a negative one leaves its \<^verbatim>\<open>errno\<close>.\<close>

definition syscall :: "('w \<Rightarrow> i32 \<times> i32 \<times> 'w) \<Rightarrow> ('w, i32) M" where
  "syscall f = (\<lambda>h. case f (world h) of (rc, err, w) \<Rightarrow>
     Ok (rc, h\<lparr>world := w, errno := (if rc < 0 then err else errno h)\<rparr>))"

text \<open>A call that also stores a value through a pointer.\<close>

definition syscall_out :: "('w \<Rightarrow> i32 \<times> i32 \<times> 'a \<times> 'w) \<Rightarrow> ('w, i32 \<times> 'a) M" where
  "syscall_out f = (\<lambda>h. case f (world h) of (rc, err, x, w) \<Rightarrow>
     Ok ((rc, x), h\<lparr>world := w, errno := (if rc < 0 then err else errno h)\<rparr>))"

text \<open>The descriptor that a call returned joins the open ones unless it is the invalid socket.\<close>

definition opened :: "i32 \<Rightarrow> ('w, unit) M" where
  "opened s = modifyM (\<lambda>h. if (word_of_int s :: u32) = word_of_int INVALID_SOCKET then h
                         else h\<lparr>fds := add_mset (word_of_int s) (fds h)\<rparr>)"

definition sys_socket :: "'w os \<Rightarrow> u32 \<Rightarrow> u32 \<Rightarrow> u32 \<Rightarrow> ('w, i32) M" where
  "sys_socket os af type proto =
     bindM (syscall (os_socket os af type proto)) (\<lambda>s. bindM (opened s) (\<lambda>_. returnM s))"

definition sys_accept :: "'w os \<Rightarrow> u32 \<Rightarrow> ('w, i32 \<times> sockaddr) M" where
  "sys_accept os fd =
     bindM (syscall_out (os_accept os fd)) (\<lambda>r. bindM (opened (fst r)) (\<lambda>_. returnM r))"

definition close_fd :: "'w os \<Rightarrow> u32 \<Rightarrow> ('w, unit) M" where
  "close_fd os fd = modifyM (\<lambda>h. h\<lparr>world := os_close os fd (world h), fds := fds h - {#fd#}\<rparr>)"

definition load :: "ptr \<Rightarrow> ('w, PANEL) M" where
  "load p = (\<lambda>h. if p = NULL then Fault Null_Deref
                 else case heap h p of None \<Rightarrow> Fault Use_After_Free | Some v \<Rightarrow> Ok (v, h))"

definition update_panel :: "ptr \<Rightarrow> (PANEL \<Rightarrow> PANEL) \<Rightarrow> ('w, unit) M" where
  "update_panel p f = bindM (load p) (\<lambda>v. modifyM (\<lambda>h. h\<lparr>heap := (heap h)(p \<mapsto> f v)\<rparr>))"

text \<open>
  \<^verbatim>\<open>malloc\<close> may fail; otherwise the block gets an address that was never handed out before. \<^verbatim>\<open>free\<close>
  accepts the null pointer, and a pointer to a block that is not live is a fault.
\<close>

definition malloc_panel :: "'w os \<Rightarrow> PANEL \<Rightarrow> ('w, ptr) M" where
  "malloc_panel os v = (\<lambda>h. case os_malloc os (world h) of (ok, w) \<Rightarrow>
     if ok then Ok (Suc (brk h), h\<lparr>world := w, brk := Suc (brk h), heap := (heap h)(Suc (brk h) \<mapsto> v)\<rparr>)
     else Ok (NULL, h\<lparr>world := w\<rparr>))"

definition free_panel :: "ptr \<Rightarrow> ('w, unit) M" where
  "free_panel p = (\<lambda>h. if p = NULL then Ok ((), h)
     else case heap h p of None \<Rightarrow> Fault Use_After_Free
        | Some v \<Rightarrow> Ok ((), h\<lparr>heap := (heap h)(p := None)\<rparr>))"

text \<open>
  Live blocks have addresses up to \<open>brk\<close>, in particular the null pointer is never live; the invalid
  socket is never open.
\<close>

definition wf_host :: "'w host \<Rightarrow> bool" where
  "wf_host h \<longleftrightarrow> (\<forall>p v. heap h p = Some v \<longrightarrow> p \<noteq> NULL \<and> p \<le> brk h) \<and> word_of_int INVALID_SOCKET \<notin># fds h"

section \<open>Evaluation rules\<close>

named_theorems M_defs \<open>definitions of the host monad\<close>

lemmas monad_defs [M_defs] = returnM_def bindM_def faultM_def getM_def modifyM_def checkM_def

lemma bindM_eq_Ok_conv:
  "bindM m f h = Ok (y, h') \<longleftrightarrow> (\<exists>x h1. m h = Ok (x, h1) \<and> f x h1 = Ok (y, h'))"
  by (auto simp: bindM_def bindO_eq_Ok_conv)

text \<open>
  Evaluation of code on a concrete state: \<open>bindM_run\<close> runs the first computation, and with \<open>bindM_freeze\<close>
  as a congruence rule what follows is not simplified before its argument is known.
\<close>

lemma bindM_run: "bindM m f h = (case m h of Ok (x, h') \<Rightarrow> f x h' | Fault e \<Rightarrow> Fault e)"
  by (cases "m h") (auto simp: bindM_def)

lemma bindM_freeze: "bindM m f = bindM m f"
  by (rule refl)

lemma bindM_assoc: "bindM (bindM m f) g = bindM m (\<lambda>x. bindM (f x) g)"
  by (rule ext) (auto simp: bindM_def bindO_assoc intro: bindO_cong)

lemma bindM_returnM [simp]: "bindM (returnM x) f = f x"
  by (simp add: bindM_def returnM_def)

lemma wf_host_null: "wf_host h \<Longrightarrow> heap h NULL = None"
  by (cases "heap h NULL") (auto simp: wf_host_def)

lemma wf_host_fresh: "wf_host h \<Longrightarrow> heap h (Suc (brk h)) = None"
  by (cases "heap h (Suc (brk h))") (force simp: wf_host_def)+

lemmas sys_defs = syscall_def syscall_out_def opened_def sys_socket_def sys_accept_def close_fd_def
  set_error_def load_def update_panel_def malloc_panel_def free_panel_def

section \<open>A concrete system\<close>

text \<open>
  A system on which the code can be run: descriptors are handed out in increasing order, everything
  that is sent goes into one pipe from which everything is received, and all other calls succeed.
\<close>

record lworld =
  next_fd :: int
  pipe :: "u8 list"

abbreviation loopback_addr :: sockaddr where
  "loopback_addr \<equiv> \<lparr>sa_family = 2, sin_port = 0x0104, sin_addr = 0x0100007F, sin_zero = 0\<rparr>"

definition loop_os :: "lworld os" where
  "loop_os = \<lparr>
     os_fopen = (\<lambda>_ _. None),
     os_malloc = (\<lambda>w. (True, w)),
     os_socket = (\<lambda>_ _ _ w. (next_fd w, 0, w\<lparr>next_fd := next_fd w + 1\<rparr>)),
     os_close = (\<lambda>_ w. w),
     os_setsockopt = (\<lambda>_ _ _ _ w. (0, 0, w)),
     os_bind = (\<lambda>_ _ w. (0, 0, w)),
     os_listen = (\<lambda>_ _ w. (0, 0, w)),
     os_accept = (\<lambda>_ w. (next_fd w, 0, loopback_addr, w\<lparr>next_fd := next_fd w + 1\<rparr>)),
     os_connect = (\<lambda>_ _ w. (0, 0, w)),
     os_select = (\<lambda>fs _ w. (int (length fs), 0, (fs, 0), w)),
     os_send = (\<lambda>_ bs w. (int (length bs), 0, w\<lparr>pipe := pipe w @ bs\<rparr>)),
     os_recv = (\<lambda>_ n peek w. (int (length (take n (pipe w))), 0, take n (pipe w),
                  if peek then w else w\<lparr>pipe := drop n (pipe w)\<rparr>)),
     os_sendto = (\<lambda>_ bs _ w. (int (length bs), 0, w\<lparr>pipe := pipe w @ bs\<rparr>)),
     os_recvfrom = (\<lambda>_ n w. (int (length (take n (pipe w))), 0, (take n (pipe w), loopback_addr),
                  w\<lparr>pipe := drop n (pipe w)\<rparr>)),
     os_getaddrinfo = (\<lambda>_ _ _ _ _ _ w. (0, (loopback_addr, 16), w)),
     os_getifaddrs = (\<lambda>w. (0, 0, [\<lparr>ifa_name = ''eth0'', ifa_flags = 0x1043, ifa_addr = Some loopback_addr\<rparr>], w)),
     os_getnameinfo = (\<lambda>_ w. (0, ''127.0.0.1'', w)),
     os_inet_pton = (\<lambda>_. Some 0x0100007F),
     os_inet_ntop = (\<lambda>f _. if f = 2 then Some ''127.0.0.1'' else None)\<rparr>"

definition loop_host :: "lworld host" where
  "loop_host = \<lparr>errno = 0, OPT = OPT_init, heap = Map.empty, brk = 0, fds = {#},
     world = \<lparr>next_fd = 3, pipe = []\<rparr>\<rparr>"

end
