(* ===== verification/Panel.thy ===== *)
theory Panel
  imports Sockets
begin

text \<open>
  The socket panels of \<^verbatim>\<open>hw/msg/panel.c\<close>: creation, release, binding, destination, socket options,
  multicast membership, and the printing functions. Windows branches of the sources
  (\<^verbatim>\<open>#ifdef _WIN32\<close>) are not modelled. A panel is reached through a pointer; dereferencing a null or freed
  pointer is a fault, and so is an access through the \<^verbatim>\<open>sockaddr_in6\<close> view of a \<^verbatim>\<open>struct sockaddr\<close>,
  which is shorter than that view.
\<close>

section \<open>Flags\<close>

abbreviation SP_F_VALID :: u16 where "SP_F_VALID \<equiv> 0x0001"
abbreviation SP_F_LISTENER :: u16 where "SP_F_LISTENER \<equiv> 0x0002"
abbreviation SP_F_SENDER :: u16 where "SP_F_SENDER \<equiv> 0x0004"
abbreviation SP_F_MULTICAST :: u16 where "SP_F_MULTICAST \<equiv> 0x0010"

definition sp_setflag :: "u16 \<Rightarrow> u16 \<Rightarrow> u16" where
  "sp_setflag var flag = var OR flag"

definition sp_getflag :: "u16 \<Rightarrow> u16 \<Rightarrow> bool" where
  "sp_getflag var flag \<longleftrightarrow> var AND flag \<noteq> 0"

definition sp_clearflag :: "u16 \<Rightarrow> u16 \<Rightarrow> u16" where
  "sp_clearflag var flag = var AND NOT flag"

section \<open>Creation and release\<close>

definition zero_panel :: PANEL where
  "zero_panel = \<lparr>sp_socket = 0, sp_bind = zero_sockaddr, sp_dest = zero_sockaddr, sp_family = 0,
     sp_socktype = 0, sp_protocol = 0, sp_flags = 0, sp_zero = 0\<rparr>"

definition CreateEmptyPanel :: "'w os \<Rightarrow> ('w, ptr) M" where
  "CreateEmptyPanel os = malloc_panel os zero_panel"

definition FreePanel :: "'w os \<Rightarrow> ptr \<Rightarrow> ('w, unit) M" where
  "FreePanel os p =
     (if p \<noteq> NULL
      then bindM (load p) (\<lambda>v. bindM (close_fd os (sp_socket v)) (\<lambda>_. free_panel p))
      else returnM ())"

definition DissociatePanel :: "ptr \<Rightarrow> ('w, unit) M" where
  "DissociatePanel p = (if p \<noteq> NULL then free_panel p else returnM ())"

definition CreatePanel :: "'w os \<Rightarrow> u32 \<Rightarrow> u32 \<Rightarrow> u32 \<Rightarrow> ('w, ptr) M" where
  "CreatePanel os af type proto =
     bindM (CreateEmptyPanel os) (\<lambda>p.
     bindM (sys_socket os af type proto) (\<lambda>s.
     bindM (update_panel p (\<lambda>v. v\<lparr>sp_socket := word_of_int s\<rparr>)) (\<lambda>_.
     bindM (load p) (\<lambda>v.
       if sp_socket v = word_of_int INVALID_SOCKET
       then bindM (FreePanel os p) (\<lambda>_. returnM NULL)
       else bindM (update_panel p (\<lambda>v. v\<lparr>sp_family := af, sp_socktype := type, sp_protocol := proto,
                     sp_flags := sp_setflag (sp_flags v) SP_F_VALID\<rparr>)) (\<lambda>_. returnM p)))))"

section \<open>Address resolution, binding, destination\<close>

definition ResolveAddr ::
    "'w os \<Rightarrow> string option \<Rightarrow> string \<Rightarrow> u32 \<Rightarrow> u32 \<Rightarrow> u32 \<Rightarrow> ('w, (sockaddr \<times> nat) option) M" where
  "ResolveAddr os addr svc af type proto = (\<lambda>h.
     case os_getaddrinfo os addr svc (if addr = None then AI_PASSIVE else 0) af type proto (world h) of
       (rc, res, w) \<Rightarrow> Ok (if rc = 0 then Some res else None, h\<lparr>world := w\<rparr>))"

text \<open>
  \<^verbatim>\<open>memcpy(&p->sp_bind, ai->ai_addr, ai->ai_addrlen)\<close> stays inside the 16 bytes of a \<^verbatim>\<open>struct sockaddr\<close>
  only for addresses of at most that length.
\<close>

definition copy_addr :: "sockaddr \<times> nat \<Rightarrow> ('w, sockaddr) M" where
  "copy_addr res = (if snd res \<le> 16 then returnM (fst res) else faultM Buffer_Overflow)"

definition BindPanel :: "'w os \<Rightarrow> ptr \<Rightarrow> string option \<Rightarrow> string \<Rightarrow> i32 \<Rightarrow> ('w, i32) M" where
  "BindPanel os p addr svc reuse =
     bindM (load p) (\<lambda>v.
     if sp_getflag (sp_flags v) SP_F_VALID then
       bindM (ResolveAddr os addr svc (sp_family v) (sp_socktype v) (sp_protocol v)) (\<lambda>ai.
       case ai of
         None \<Rightarrow> returnM SOCKET_ERROR
       | Some res \<Rightarrow>
           bindM (copy_addr res) (\<lambda>a.
           bindM (update_panel p (\<lambda>v. v\<lparr>sp_bind := a\<rparr>)) (\<lambda>_.
           bindM (syscall (os_setsockopt os (sp_socket v) SOL_SOCKET SO_REUSEADDR
                    (le_bytes 4 (word_of_int reuse :: u32)))) (\<lambda>rc.
           if rc = SOCKET_ERROR then returnM rc
           else
             bindM (update_panel p (\<lambda>v. v\<lparr>sp_flags := sp_setflag (sp_flags v) SP_F_LISTENER\<rparr>)) (\<lambda>_.
             syscall (os_bind os (sp_socket v) a))))))
     else bindM (set_error EPERM) (\<lambda>_. returnM SOCKET_ERROR))"

definition CreateBoundPanel :: "'w os \<Rightarrow> string \<Rightarrow> u32 \<Rightarrow> u32 \<Rightarrow> u32 \<Rightarrow> ('w, ptr) M" where
  "CreateBoundPanel os svc af type proto =
     bindM (CreatePanel os af type proto) (\<lambda>p.
     bindM (BindPanel os p None svc 1) (\<lambda>rc.
       if rc = SOCKET_ERROR then bindM (FreePanel os p) (\<lambda>_. returnM NULL) else returnM p))"

text \<open>
  \<^verbatim>\<open>memcpy(&p->sp_bind, addr, sizeof(addr))\<close> copies as many bytes as a pointer has, eight on a 64-bit
  host: the family, the port and the address.
\<close>

definition SocketToPanel :: "'w os \<Rightarrow> i32 \<Rightarrow> sockaddr \<Rightarrow> ('w, ptr) M" where
  "SocketToPanel os s addr =
     bindM (CreateEmptyPanel os) (\<lambda>p.
     bindM (update_panel p (\<lambda>v. v\<lparr>sp_socket := word_of_int s,
        sp_bind := (sp_bind v)\<lparr>sa_family := sa_family addr, sin_port := sin_port addr, sin_addr := sin_addr addr\<rparr>,
        sp_flags := sp_setflag (sp_flags v) SP_F_VALID\<rparr>)) (\<lambda>_. returnM p))"

definition SetDestination :: "'w os \<Rightarrow> ptr \<Rightarrow> string option \<Rightarrow> string \<Rightarrow> ('w, i32) M" where
  "SetDestination os p addr svc =
     bindM (load p) (\<lambda>v.
     if sp_getflag (sp_flags v) SP_F_VALID then
       bindM (ResolveAddr os addr svc (sp_family v) (sp_socktype v) (sp_protocol v)) (\<lambda>ai.
       case ai of
         None \<Rightarrow> returnM SOCKET_ERROR
       | Some res \<Rightarrow>
           bindM (copy_addr res) (\<lambda>a.
           bindM (update_panel p (\<lambda>v. v\<lparr>sp_dest := a, sp_flags := sp_setflag (sp_flags v) SP_F_SENDER\<rparr>))
             (\<lambda>_. returnM NO_ERROR)))
     else bindM (set_error EPERM) (\<lambda>_. returnM SOCKET_ERROR))"

section \<open>Socket options\<close>

definition SetOptionLinger :: "'w os \<Rightarrow> ptr \<Rightarrow> u16 \<Rightarrow> u16 \<Rightarrow> ('w, i32) M" where
  "SetOptionLinger os p opt_yesno opt_delay =
     bindM (load p) (\<lambda>v.
       syscall (os_setsockopt os (sp_socket v) SOL_SOCKET SO_LINGER
         (le_bytes 4 (ucast opt_yesno :: u32) @ le_bytes 4 (ucast opt_delay :: u32))))"

definition SetOption :: "'w os \<Rightarrow> ptr \<Rightarrow> u32 \<Rightarrow> u32 \<Rightarrow> i32 \<Rightarrow> ('w, i32) M" where
  "SetOption os p level option optval =
     bindM (load p) (\<lambda>v.
       syscall (os_setsockopt os (sp_socket v) level option (le_bytes 4 (word_of_int optval :: u32))))"

text \<open>
  The membership request of \<^verbatim>\<open>JoinMulticastGroup\<close> and \<^verbatim>\<open>LeaveMulticastGroup\<close>: group address and interface
  address. \<^verbatim>\<open>inet_pton\<close> leaves the interface unassigned when its text is no address. The IPv6 branch writes
  \<^verbatim>\<open>sin6_scope_id\<close>, which lies past the end of \<^verbatim>\<open>sp_dest\<close>.
\<close>

definition membership :: "'w os \<Rightarrow> ptr \<Rightarrow> string option \<Rightarrow> u32 \<Rightarrow> (u16 \<Rightarrow> u16) \<Rightarrow> ('w, i32) M" where
  "membership os p ifaddr option upd =
     bindM (load p) (\<lambda>v.
     let fam = (ucast (sa_family (sp_dest v)) :: u32) in
     if fam = AF_INET \<or> fam = AF_UNSPEC then
       bindM (case ifaddr of
                None \<Rightarrow> returnM (sin_addr (sp_bind v))
              | Some txt \<Rightarrow> (case os_inet_pton os txt of
                    None \<Rightarrow> faultM Uninitialised_Read | Some a \<Rightarrow> returnM a)) (\<lambda>ifa.
       bindM (syscall (os_setsockopt os (sp_socket v) IPPROTO_IP option
                (le_bytes 4 (sin_addr (sp_dest v)) @ le_bytes 4 ifa))) (\<lambda>rc.
       if rc = SOCKET_ERROR then returnM SOCKET_ERROR
       else bindM (update_panel p (\<lambda>v. v\<lparr>sp_flags := upd (sp_flags v)\<rparr>)) (\<lambda>_. returnM rc)))
     else if fam = AF_INET6 then faultM Buffer_Overflow
     else bindM (set_error EAFNOSUPPORT) (\<lambda>_. returnM SOCKET_ERROR))"

definition JoinMulticastGroup :: "'w os \<Rightarrow> ptr \<Rightarrow> string option \<Rightarrow> ('w, i32) M" where
  "JoinMulticastGroup os p ifaddr =
     membership os p ifaddr IP_ADD_MEMBERSHIP (\<lambda>f. sp_setflag f SP_F_MULTICAST)"

definition LeaveMulticastGroup :: "'w os \<Rightarrow> ptr \<Rightarrow> string option \<Rightarrow> ('w, i32) M" where
  "LeaveMulticastGroup os p ifaddr =
     membership os p ifaddr IP_DROP_MEMBERSHIP (\<lambda>f. sp_clearflag f SP_F_MULTICAST)"

definition SetMulticastSendInterface :: "'w os \<Rightarrow> ptr \<Rightarrow> sockaddr \<Rightarrow> ('w, i32) M" where
  "SetMulticastSendInterface os p addr =
     (let fam = (ucast (sa_family addr) :: u32) in
      if fam = AF_INET then
        bindM (load p) (\<lambda>v.
        bindM (syscall (os_setsockopt os (sp_socket v) IPPROTO_IP IP_MULTICAST_IF (le_bytes 4 (sin_addr addr)))) (\<lambda>rc.
        if rc = SOCKET_ERROR then returnM SOCKET_ERROR else returnM rc))
      else if fam = AF_INET6 then faultM Out_Of_Bounds
      else bindM (set_error EAFNOSUPPORT) (\<lambda>_. returnM SOCKET_ERROR))"

definition SetMulticastTTL :: "'w os \<Rightarrow> ptr \<Rightarrow> i32 \<Rightarrow> ('w, i32) M" where
  "SetMulticastTTL os p ttl =
     bindM (load p) (\<lambda>v.
     let fam = (ucast (sa_family (sp_dest v)) :: u32);
         send = (\<lambda>level option.
           bindM (syscall (os_setsockopt os (sp_socket v) level option (le_bytes 4 (word_of_int ttl :: u32)))) (\<lambda>rc.
           if rc = SOCKET_ERROR then bindM (set_error EAFNOSUPPORT) (\<lambda>_. returnM SOCKET_ERROR)
           else returnM 0))
     in if fam = AF_INET then send IPPROTO_IP IP_MULTICAST_TTL
        else if fam = AF_INET6 then send IPPROTO_IPV6 IPV6_MULTICAST_HOPS
        else returnM SOCKET_ERROR)"

definition SetMulticastLoopback :: "'w os \<Rightarrow> ptr \<Rightarrow> i32 \<Rightarrow> ('w, i32) M" where
  "SetMulticastLoopback os p loopval =
     bindM (load p) (\<lambda>v.
     let fam = (ucast (sa_family (sp_dest v)) :: u32);
         send = (\<lambda>level option.
           bindM (syscall (os_setsockopt os (sp_socket v) level option (le_bytes 4 (word_of_int loopval :: u32)))) (\<lambda>rc.
           if rc = SOCKET_ERROR then returnM SOCKET_ERROR else returnM NO_ERROR))
     in if fam = AF_INET then send IPPROTO_IP IP_MULTICAST_LOOP
        else if fam = AF_INET6 then send IPPROTO_IPV6 IPV6_MULTICAST_LOOP
        else bindM (set_error EAFNOSUPPORT) (\<lambda>_. returnM SOCKET_ERROR))"

section \<open>Printing\<close>

text \<open>
  Each printing function is the text that it writes. \<^verbatim>\<open>FormatAddr\<close> prints \<^verbatim>\<open>buf\<close> onto itself, which is
  taken here to leave the text in place; \<^verbatim>\<open>inet_ntop\<close> on a family that it does not know stores nothing.
  The address of an IPv6 \<^verbatim>\<open>sockaddr_in6\<close> extends past the end of a \<^verbatim>\<open>struct sockaddr\<close>.
\<close>

definition FormatAddr :: "'w os \<Rightarrow> sockaddr \<Rightarrow> string outcome" where
  "FormatAddr os sa =
     (let fam = (ucast (sa_family sa) :: u32) in
      if fam = AF_UNSPEC \<or> fam = AF_INET then
        (case os_inet_ntop os (sa_family sa) (sin_addr sa) of
           None \<Rightarrow> Fault Uninitialised_Read
         | Some buf \<Rightarrow> Ok (buf @ '':'' @ show_nat (unat (ntohs (sin_port sa)))))
      else if fam = AF_INET6 then Fault Out_Of_Bounds
      else Ok ''<unsupported address format>'')"

definition PrintAddrFamily :: "u32 \<Rightarrow> string" where
  "PrintAddrFamily af =
     (if af = AF_INET then '', Family: AF_INET''
      else if af = AF_INET6 then '', Family: AF_INET6''
      else '', Family: UNKNOWN'')"

definition PrintAddrProtocol :: "u32 \<Rightarrow> string" where
  "PrintAddrProtocol proto =
     (if proto = IPPROTO_IP then '', Protocol: IPPROTO_IP''
      else if proto = IPPROTO_IPV6 then '', Protocol: IPPROTO_IPV6''
      else if proto = IPPROTO_TCP then '', Protocol: IPPROTO_TCP''
      else if proto = IPPROTO_UDP then '', Protocol: IPPROTO_UDP''
      else '', Protocol: UNKNOWN'')"

definition PrintAddr :: "'w os \<Rightarrow> sockaddr \<Rightarrow> string outcome" where
  "PrintAddr os sa = FormatAddr os sa"

definition PrintPanel :: "'w os \<Rightarrow> PANEL \<Rightarrow> string outcome" where
  "PrintPanel os p =
     bindO (FormatAddr os (sp_dest p)) (\<lambda>dest.
     bindO (FormatAddr os (sp_bind p)) (\<lambda>bnd.
     Ok (''PANEL:\<newline>'' @ ''  Socket ID: '' @ show_int (sint (sp_socket p)) @ ''\<newline>'' @
         ''  Destination: '' @ dest @ PrintAddrFamily (ucast (sa_family (sp_dest p))) @
         ''\<newline>  Bind: '' @ bnd @ PrintAddrFamily (ucast (sa_family (sp_bind p))) @ ''\<newline>'')))"

record addrinfo =
  ai_family :: u32
  ai_protocol :: u32
  ai_addr :: sockaddr

text \<open>The loop advances \<^verbatim>\<open>p\<close> along \<^verbatim>\<open>ai_next\<close> and prints the fields of \<^verbatim>\<open>ai\<close>.\<close>

fun print_addrinfo_nodes :: "'w os \<Rightarrow> addrinfo \<Rightarrow> addrinfo list \<Rightarrow> string outcome" where
  "print_addrinfo_nodes os ai [] = Ok []"
| "print_addrinfo_nodes os ai (p # next) =
     bindO (PrintAddr os (ai_addr ai)) (\<lambda>txt.
     bindO (print_addrinfo_nodes os ai next) (\<lambda>rest.
     Ok (''  Address: '' @ txt @ PrintAddrFamily (ai_family ai) @ PrintAddrProtocol (ai_protocol ai) @
         ''\<newline>'' @ rest)))"

definition PrintAddrinfo :: "'w os \<Rightarrow> addrinfo list \<Rightarrow> string outcome" where
  "PrintAddrinfo os nodes =
     (case nodes of
        [] \<Rightarrow> Ok ''No address information (null pointer).''
      | ai # _ \<Rightarrow> print_addrinfo_nodes os ai nodes)"

section \<open>The contract of the panel operations\<close>

text \<open>
  What every operation on an existing panel \<open>p\<close> may change: the contents of \<open>p\<close> other than its
  socket and its valid mark, \<^verbatim>\<open>errno\<close> and the world. Other panels, the set of live panels, the open
  sockets and the options stay as they are.
\<close>

definition panel_step :: "ptr \<Rightarrow> 'w host \<Rightarrow> 'w host \<Rightarrow> bool" where
  "panel_step p h h' \<longleftrightarrow>
     (\<forall>q. q \<noteq> p \<longrightarrow> heap h' q = heap h q) \<and>
     (case heap h p of
        None \<Rightarrow> heap h' p = None
      | Some v \<Rightarrow> (case heap h' p of
            None \<Rightarrow> False
          | Some v' \<Rightarrow> sp_socket v' = sp_socket v \<and>
              sp_getflag (sp_flags v') SP_F_VALID = sp_getflag (sp_flags v) SP_F_VALID)) \<and>
     brk h' = brk h \<and> fds h' = fds h \<and> OPT h' = OPT h"

lemma panel_step_refl [simp]: "panel_step p h h"
  by (simp add: panel_step_def split: option.splits)

lemma panel_step_wf:
  assumes "panel_step p h h'" and "wf_host h"
  shows "wf_host h'"
proof -
  have "\<exists>v. heap h q = Some v" if "heap h' q = Some v'" for q v'
    using assms(1) that by (cases "q = p") (auto simp: panel_step_def split: option.splits)
  then show ?thesis using assms by (simp add: wf_host_def panel_step_def)
qed

lemma panel_step_trans: "panel_step p h1 h2 \<Longrightarrow> panel_step p h2 h3 \<Longrightarrow> panel_step p h1 h3"
  by (auto simp: panel_step_def split: option.splits)

text \<open>
  The interface through which the messaging code uses a panel: the operation stays within
  \<open>panel_step\<close>, and on a live panel it never runs into a dangling pointer.
\<close>

locale panel_operation =
  fixes oper :: "ptr \<Rightarrow> ('w, i32) M"
  assumes stays_in_panel: "oper p h = Ok (rc, h') \<Longrightarrow> panel_step p h h'"
    and no_dangling: "p \<noteq> NULL \<Longrightarrow> heap h p = Some v \<Longrightarrow> oper p h \<noteq> Fault Null_Deref \<and> oper p h \<noteq> Fault Use_After_Free"
begin

lemma keeps_live:
  assumes "oper p h = Ok (rc, h')"
  shows "dom (heap h') = dom (heap h)"
proof -
  have "heap h' q = None \<longleftrightarrow> heap h q = None" for q
    using stays_in_panel [OF assms]
    by (cases "q = p") (auto simp: panel_step_def split: option.splits)
  then show ?thesis by (auto simp: dom_def)
qed

lemma keeps_others: "oper p h = Ok (rc, h') \<Longrightarrow> q \<noteq> p \<Longrightarrow> heap h' q = heap h q"
  using stays_in_panel by (simp add: panel_step_def)

lemma keeps_wf: "oper p h = Ok (rc, h') \<Longrightarrow> wf_host h \<Longrightarrow> wf_host h'"
  using panel_step_wf stays_in_panel by blast

lemma keeps_open: "oper p h = Ok (rc, h') \<Longrightarrow> fds h' = fds h"
  using stays_in_panel by (simp add: panel_step_def)

lemma keeps_socket:
  assumes "oper p h = Ok (rc, h')" and "heap h p = Some v"
  obtains v' where "heap h' p = Some v'" and "sp_socket v' = sp_socket v"
  using stays_in_panel [OF assms(1)] assms(2) by (auto simp: panel_step_def split: option.splits)

end

text \<open>Operations compose: running one after the other, with the early return of the code, is again one.\<close>

lemma panel_operation_check:
  fixes a b :: "ptr \<Rightarrow> ('w, i32) M"
  assumes "panel_operation a" and "panel_operation b"
  shows "panel_operation (\<lambda>p. checkM (a p) (b p))"
proof
  fix p and h h' :: "'w host" and rc
  assume "checkM (a p) (b p) h = Ok (rc, h')"
  then obtain rc1 h1 where a: "a p h = Ok (rc1, h1)"
    and rest: "h' = h1 \<or> b p h1 = Ok (rc, h')"
    by (auto simp: checkM_def bindM_eq_Ok_conv returnM_def split: if_splits)
  then show "panel_step p h h'"
    using panel_operation.stays_in_panel [OF assms(1) a] panel_operation.stays_in_panel [OF assms(2)]
    by (blast intro: panel_step_trans)
next
  fix p :: ptr and h :: "'w host" and v
  assume p: "p \<noteq> NULL" and v: "heap h p = Some v"
  have "b p h1 \<noteq> Fault Null_Deref \<and> b p h1 \<noteq> Fault Use_After_Free" if a: "a p h = Ok (rc, h1)" for rc h1
  proof -
    obtain v1 where "heap h1 p = Some v1"
      using panel_operation.keeps_socket [OF assms(1) a v] by blast
    then show ?thesis using panel_operation.no_dangling [OF assms(2) p] by blast
  qed
  then show "checkM (a p) (b p) h \<noteq> Fault Null_Deref \<and> checkM (a p) (b p) h \<noteq> Fault Use_After_Free"
    using panel_operation.no_dangling [OF assms(1) p v]
    by (auto simp: checkM_def bindM_def bindO_eq_Fault_conv returnM_def split: if_splits)
qed

lemmas flag_defs = sp_setflag_def sp_getflag_def sp_clearflag_def

text \<open>Flags are set and cleared independently.\<close>

lemma getflag_setflag_same: "flag \<noteq> 0 \<Longrightarrow> sp_getflag (sp_setflag var flag) flag"
proof -
  assume "flag \<noteq> 0"
  moreover have "(var OR flag) AND flag = flag" by (rule bit_word_eqI) (auto simp: bit_simps)
  ultimately show ?thesis by (simp add: flag_defs)
qed

lemma getflag_clearflag_same: "\<not> sp_getflag (sp_clearflag var flag) flag"
proof -
  have "(var AND NOT flag) AND flag = 0" by (rule bit_word_eqI) (auto simp: bit_simps)
  then show ?thesis by (simp add: flag_defs)
qed

lemma getflag_other:
  assumes "flag AND other = 0"
  shows "sp_getflag (sp_setflag var flag) other = sp_getflag var other"
    and "sp_getflag (sp_clearflag var flag) other = sp_getflag var other"
proof -
  have no: "\<not> (bit flag i \<and> bit other i)" for i
    using arg_cong [OF assms, of "\<lambda>w. bit w i"] by (simp add: bit_simps)
  have "(var OR flag) AND other = var AND other" "(var AND NOT flag) AND other = var AND other"
    using no by (auto intro!: bit_word_eqI simp: bit_simps)
  then show "sp_getflag (sp_setflag var flag) other = sp_getflag var other"
    and "sp_getflag (sp_clearflag var flag) other = sp_getflag var other"
    by (simp_all add: flag_defs)
qed

lemmas valid_kept [simp] =
  getflag_other [of SP_F_LISTENER SP_F_VALID, simplified]
  getflag_other [of SP_F_SENDER SP_F_VALID, simplified]
  getflag_other [of SP_F_MULTICAST SP_F_VALID, simplified]

lemmas panel_ops = BindPanel_def SetDestination_def SetOptionLinger_def SetOption_def
  membership_def SetMulticastSendInterface_def SetMulticastTTL_def SetMulticastLoopback_def
  ResolveAddr_def copy_addr_def

lemmas panel_op_simps = panel_ops monad_defs sys_defs panel_step_def Let_def

lemmas panel_op_splits = if_splits option.splits prod.splits

interpretation bind: panel_operation "\<lambda>p. BindPanel os p addr svc reuse" for os addr svc reuse
  by unfold_locales
    (auto simp: panel_op_simps split: panel_op_splits)

interpretation dest: panel_operation "\<lambda>p. SetDestination os p addr svc" for os addr svc
  by unfold_locales
    (auto simp: panel_op_simps split: panel_op_splits)

interpretation linger: panel_operation "\<lambda>p. SetOptionLinger os p yesno delay" for os yesno delay
  by unfold_locales
    (auto simp: panel_op_simps split: panel_op_splits)

interpretation sockopt: panel_operation "\<lambda>p. SetOption os p level option optval" for os level option optval
  by unfold_locales
    (auto simp: panel_op_simps split: panel_op_splits)

interpretation join: panel_operation "\<lambda>p. JoinMulticastGroup os p ifaddr" for os ifaddr
  unfolding JoinMulticastGroup_def
  by unfold_locales
    (auto simp: panel_op_simps split: panel_op_splits)

interpretation leave: panel_operation "\<lambda>p. LeaveMulticastGroup os p ifaddr" for os ifaddr
  unfolding LeaveMulticastGroup_def
  by unfold_locales
    (auto simp: panel_op_simps split: panel_op_splits)

interpretation sendif: panel_operation "\<lambda>p. SetMulticastSendInterface os p addr" for os addr
  by unfold_locales
    (auto simp: panel_op_simps split: panel_op_splits)

interpretation ttl: panel_operation "\<lambda>p. SetMulticastTTL os p ttl" for os ttl
  by unfold_locales
    (auto simp: panel_op_simps split: panel_op_splits)

interpretation loopback: panel_operation "\<lambda>p. SetMulticastLoopback os p loopval" for os loopval
  by unfold_locales
    (auto simp: panel_op_simps split: panel_op_splits)

section \<open>Sequences of panel operations\<close>

text \<open>One call of a panel operation by its client, and a sequence of such calls on any panels.\<close>

datatype panel_call =
  Call_Bind "string option" string i32
| Call_Dest "string option" string
| Call_Linger u16 u16
| Call_Option u32 u32 i32
| Call_Join "string option"
| Call_Leave "string option"
| Call_SendIf sockaddr
| Call_TTL i32
| Call_Loopback i32

fun run_call :: "'w os \<Rightarrow> panel_call \<Rightarrow> ptr \<Rightarrow> ('w, i32) M" where
  "run_call os (Call_Bind addr svc reuse) = (\<lambda>p. BindPanel os p addr svc reuse)"
| "run_call os (Call_Dest addr svc) = (\<lambda>p. SetDestination os p addr svc)"
| "run_call os (Call_Linger yesno delay) = (\<lambda>p. SetOptionLinger os p yesno delay)"
| "run_call os (Call_Option level option optval) = (\<lambda>p. SetOption os p level option optval)"
| "run_call os (Call_Join ifaddr) = (\<lambda>p. JoinMulticastGroup os p ifaddr)"
| "run_call os (Call_Leave ifaddr) = (\<lambda>p. LeaveMulticastGroup os p ifaddr)"
| "run_call os (Call_SendIf addr) = (\<lambda>p. SetMulticastSendInterface os p addr)"
| "run_call os (Call_TTL ttl) = (\<lambda>p. SetMulticastTTL os p ttl)"
| "run_call os (Call_Loopback loopval) = (\<lambda>p. SetMulticastLoopback os p loopval)"

fun run_calls :: "'w os \<Rightarrow> (ptr \<times> panel_call) list \<Rightarrow> ('w, i32 list) M" where
  "run_calls os [] = returnM []"
| "run_calls os ((p, c) # cs) =
     bindM (run_call os c p) (\<lambda>rc. bindM (run_calls os cs) (\<lambda>rcs. returnM (rc # rcs)))"

interpretation call: panel_operation "run_call os c" for os c
proof -
  show "panel_operation (run_call os c)"
    by (cases c) (simp_all add: bind.panel_operation_axioms dest.panel_operation_axioms
      linger.panel_operation_axioms sockopt.panel_operation_axioms join.panel_operation_axioms
      leave.panel_operation_axioms sendif.panel_operation_axioms ttl.panel_operation_axioms
      loopback.panel_operation_axioms)
qed

lemma run_calls_frame:
  "run_calls os cs h = Ok (rcs, h') \<Longrightarrow>
     dom (heap h') = dom (heap h) \<and> fds h' = fds h \<and> OPT h' = OPT h \<and> (wf_host h \<longrightarrow> wf_host h') \<and>
     (\<forall>q. q \<notin> fst ` set cs \<longrightarrow> heap h' q = heap h q) \<and>
     (\<forall>q v. heap h q = Some v \<longrightarrow> (\<exists>v'. heap h' q = Some v' \<and> sp_socket v' = sp_socket v))"
proof (induction cs arbitrary: h rcs)
  case Nil
  then show ?case by (simp add: returnM_def)
next
  case (Cons pc cs)
  obtain p c where pc: "pc = (p, c)" by (cases pc)
  from Cons.prems obtain rc h1 rcs1 where c: "run_call os c p h = Ok (rc, h1)"
    and cs: "run_calls os cs h1 = Ok (rcs1, h')"
    by (auto simp: pc bindM_eq_Ok_conv returnM_def)
  note IH = Cons.IH [OF cs]
  have sock: "\<exists>v'. heap h' q = Some v' \<and> sp_socket v' = sp_socket v" if v: "heap h q = Some v" for q v
  proof -
    obtain v1 where "heap h1 q = Some v1" "sp_socket v1 = sp_socket v"
      by (metis c v call.keeps_socket call.keeps_others)
    then show ?thesis using IH by metis
  qed
  have "OPT h1 = OPT h" using call.stays_in_panel [OF c] by (simp add: panel_step_def)
  then show ?case
    using IH sock call.keeps_live [OF c] call.keeps_open [OF c] call.keeps_wf [OF c] call.keeps_others [OF c]
    by (simp add: pc)
qed

lemma run_calls_no_dangling:
  "\<forall>(p, c) \<in> set cs. p \<noteq> NULL \<and> p \<in> dom (heap h) \<Longrightarrow>
     run_calls os cs h \<noteq> Fault Null_Deref \<and> run_calls os cs h \<noteq> Fault Use_After_Free"
proof (induction cs arbitrary: h)
  case Nil
  then show ?case by (simp add: returnM_def)
next
  case (Cons pc cs)
  obtain p c where pc: "pc = (p, c)" by (cases pc)
  from Cons.prems obtain v where p: "p \<noteq> NULL" "heap h p = Some v" by (auto simp: pc)
  have "run_calls os cs h1 \<noteq> Fault Null_Deref \<and> run_calls os cs h1 \<noteq> Fault Use_After_Free"
    if "run_call os c p h = Ok (rc, h1)" for rc h1
    using Cons.prems call.keeps_live [OF that] by (intro Cons.IH) auto
  then show ?case
    using call.no_dangling [OF p, of os c]
    by (auto simp: pc bindM_def bindO_eq_Fault_conv returnM_def)
qed

section \<open>Creation and release keep account of panels and sockets\<close>

text \<open>
  The two results a constructor may have: no panel and nothing left behind, or one new panel that is
  marked valid and owns one newly opened socket.
\<close>

definition created :: "ptr \<Rightarrow> 'w host \<Rightarrow> 'w host \<Rightarrow> bool" where
  "created p h h' \<longleftrightarrow>
     (if p = NULL then heap h' = heap h \<and> fds h' = fds h
      else heap h p = None \<and>
           (case heap h' p of
              None \<Rightarrow> False
            | Some v \<Rightarrow> heap h' = (heap h)(p \<mapsto> v) \<and> sp_getflag (sp_flags v) SP_F_VALID \<and>
                fds h' = add_mset (sp_socket v) (fds h)))"

lemma CreatePanel_created:
  assumes "wf_host h" and "CreatePanel os af type proto h = Ok (p, h')"
  shows "created p h h' \<and> wf_host h'"
  using assms wf_host_fresh [OF assms(1)]
  by (auto simp: CreatePanel_def CreateEmptyPanel_def FreePanel_def created_def wf_host_def
      monad_defs sys_defs getflag_setflag_same le_SucI split: if_splits option.splits prod.splits)

lemma FreePanel_undoes_created:
  assumes "created p h h'" and "FreePanel os p h' = Ok (u, h'')"
  shows "heap h'' = heap h \<and> fds h'' = fds h"
  using assms
  by (auto simp: FreePanel_def created_def monad_defs sys_defs fun_upd_idem split: if_splits option.splits)

lemma FreePanel_wf: "FreePanel os p h = Ok (u, h') \<Longrightarrow> wf_host h \<Longrightarrow> wf_host h'"
  by (auto simp: FreePanel_def wf_host_def monad_defs sys_defs dest: in_diffD split: if_splits option.splits)

lemma created_step:
  assumes "created p h h1" and "p \<noteq> NULL" and "panel_step p h1 h2"
  shows "created p h h2"
proof -
  from assms(1,2) obtain v where v: "heap h p = None" "heap h1 = (heap h)(p \<mapsto> v)"
      "sp_getflag (sp_flags v) SP_F_VALID" "fds h1 = add_mset (sp_socket v) (fds h)"
    by (auto simp: created_def split: option.splits)
  with assms(3) obtain v' where v': "heap h2 p = Some v'" "sp_socket v' = sp_socket v"
      "sp_getflag (sp_flags v') SP_F_VALID" "fds h2 = fds h1" "\<And>q. q \<noteq> p \<Longrightarrow> heap h2 q = heap h1 q"
    by (auto simp: panel_step_def split: option.splits)
  then have "heap h2 = (heap h)(p \<mapsto> v')" using v(2) by auto
  with v v' assms(2) show ?thesis by (simp add: created_def)
qed

lemma CreateBoundPanel_created:
  assumes "wf_host h" and "CreateBoundPanel os svc af type proto h = Ok (p, h')"
  shows "created p h h' \<and> wf_host h'"
proof -
  obtain q h1 rc h2 where q: "CreatePanel os af type proto h = Ok (q, h1)"
    and b: "BindPanel os q None svc 1 h1 = Ok (rc, h2)"
    and r: "if rc = SOCKET_ERROR then FreePanel os q h2 = Ok ((), h') \<and> p = NULL else p = q \<and> h' = h2"
    using assms(2) by (auto simp: CreateBoundPanel_def bindM_eq_Ok_conv returnM_def split: if_splits)
  note c = CreatePanel_created [OF assms(1) q]
  have "q \<noteq> NULL"
  proof
    assume "q = NULL"
    with b show False by (simp add: BindPanel_def bindM_def load_def)
  qed
  then have c2: "created q h h2" using created_step c bind.stays_in_panel [OF b] by blast
  have wf2: "wf_host h2" using bind.keeps_wf [OF b] c by blast
  show ?thesis
  proof (cases "rc = SOCKET_ERROR")
    case True
    then show ?thesis
      using r FreePanel_undoes_created [OF c2] FreePanel_wf [OF _ wf2] by (auto simp: created_def)
  next
    case False
    then show ?thesis using r c2 wf2 by simp
  qed
qed

text \<open>
  C31: Creating a panel, with or without binding it, either gives the null pointer with no panel and no
  socket left behind, or one new valid panel that owns the one socket that was opened; freeing it
  afterwards gives back exactly the panels and sockets there were before.
\<close>

theorem panel_lifecycle:
  assumes "wf_host h"
    and "CreatePanel os af type proto h = Ok (p, h') \<or> CreateBoundPanel os svc af type proto h = Ok (p, h')"
  shows "created p h h' \<and> wf_host h' \<and>
    (\<exists>h''. FreePanel os p h' = Ok ((), h'') \<and> heap h'' = heap h \<and> fds h'' = fds h \<and> wf_host h'')"
proof -
  have c: "created p h h'" "wf_host h'"
    using CreatePanel_created CreateBoundPanel_created assms by metis+
  then obtain h'' where f: "FreePanel os p h' = Ok ((), h'')"
    by (fastforce simp: created_def FreePanel_def monad_defs sys_defs split: option.splits if_splits)
  then show ?thesis using c FreePanel_undoes_created [OF c(1) f] FreePanel_wf [OF f] by blast
qed

theorem panel_lifecycle_witness:
  "\<exists>h'. CreateBoundPanel loop_os ''1025'' AF_INET SOCK_STREAM IPPROTO_TCP loop_host = Ok (1, h') \<and>
     created 1 loop_host h' \<and> fds h' = {#3#} \<and>
     (\<exists>h''. FreePanel loop_os 1 h' = Ok ((), h'') \<and> heap h'' = heap loop_host \<and> fds h'' = {#})"
proof -
  have wf: "wf_host loop_host" by (simp add: wf_host_def loop_host_def)
  obtain h' where h': "CreateBoundPanel loop_os ''1025'' AF_INET SOCK_STREAM IPPROTO_TCP loop_host = Ok (1, h')"
    and f: "fds h' = {#3#}"
    by (auto simp: CreateBoundPanel_def CreatePanel_def CreateEmptyPanel_def panel_op_simps loop_os_def
        loop_host_def zero_panel_def flag_defs)
  show ?thesis
    using panel_lifecycle [OF wf disjI2 [OF h']] h' f by (auto simp: loop_host_def)
qed

text \<open>
  C32: Any sequence of panel operations, on any panels and in any order, keeps the set of live panels,
  the sockets in them and the set of open sockets; it changes only panels it is applied to, and while
  it is applied to live panels only it never follows a null or dangling pointer.
\<close>

theorem panel_calls_frame:
  assumes "\<forall>(p, c) \<in> set cs. p \<noteq> NULL \<and> p \<in> dom (heap h)"
  shows "case run_calls os cs h of
      Fault e \<Rightarrow> e \<noteq> Null_Deref \<and> e \<noteq> Use_After_Free
    | Ok (rcs, h') \<Rightarrow> dom (heap h') = dom (heap h) \<and> fds h' = fds h \<and> OPT h' = OPT h \<and>
        (wf_host h \<longrightarrow> wf_host h') \<and> (\<forall>q. q \<notin> fst ` set cs \<longrightarrow> heap h' q = heap h q) \<and>
        (\<forall>q v. heap h q = Some v \<longrightarrow> (\<exists>v'. heap h' q = Some v' \<and> sp_socket v' = sp_socket v))"
  using run_calls_frame [of os cs h] run_calls_no_dangling [OF assms, of os]
  by (auto split: outcome.splits prod.splits)

theorem panel_calls_frame_witness:
  "\<exists>h rcs h'. run_calls loop_os [(1, Call_Dest (Some ''225.0.0.37'') ''12345''), (1, Call_TTL 1)] h = Ok (rcs, h') \<and>
     rcs = [0, 0] \<and> dom (heap h') = {1} \<and> fds h' = {#3#}"
proof -
  define h where "h = loop_host\<lparr>heap := [1 \<mapsto> zero_panel\<lparr>sp_socket := 3, sp_flags := 1\<rparr>], fds := {#3#}\<rparr>"
  define cs where "cs = [(1 :: ptr, Call_Dest (Some ''225.0.0.37'') ''12345''), (1, Call_TTL 1)]"
  have live: "\<forall>(p, c) \<in> set cs. p \<noteq> NULL \<and> p \<in> dom (heap h)" by (simp add: cs_def h_def)
  obtain h' where r: "run_calls loop_os cs h = Ok ([0, 0], h')"
    by (auto simp: cs_def h_def panel_op_simps loop_os_def loop_host_def zero_panel_def flag_defs)
  have "dom (heap h') = {1} \<and> fds h' = {#3#}"
    using panel_calls_frame [OF live, of loop_os] r by (auto simp: h_def)
  then show ?thesis using r by (auto simp: cs_def)
qed

text \<open>The list printer shows the first address once for every node of the list.\<close>

lemma print_addrinfo_nodes_same:
  "length xs = length ys \<Longrightarrow> print_addrinfo_nodes os ai xs = print_addrinfo_nodes os ai ys"
  by (induction xs ys rule: list_induct2) simp_all

lemma PrintAddrinfo_repeats_first:
  "PrintAddrinfo os (ai # rest) = PrintAddrinfo os (replicate (Suc (length rest)) ai)"
  using print_addrinfo_nodes_same [of "ai # rest" "replicate (Suc (length rest)) ai" os ai]
  by (simp add: PrintAddrinfo_def)

text \<open>When no socket can be had, \<^verbatim>\<open>CreateBoundPanel\<close> hands the null pointer on to \<^verbatim>\<open>BindPanel\<close>.\<close>

lemma CreateBoundPanel_no_socket:
  assumes "CreatePanel os af type proto h = Ok (NULL, h')"
  shows "CreateBoundPanel os svc af type proto h = Fault Null_Deref"
  using assms by (simp add: CreateBoundPanel_def BindPanel_def bindM_def load_def)

lemma CreatePanel_no_memory:
  assumes "fst (os_malloc os (world h)) = False"
  shows "CreatePanel os af type proto h = Fault Null_Deref"
  using assms by (auto simp: CreatePanel_def CreateEmptyPanel_def monad_defs sys_defs split: prod.splits)

end
