(* ===== verification/Framing.thy ===== *)
theory Framing
  imports Panel
begin

text \<open>
  The message layer of \<^verbatim>\<open>hw/msg/message.c\<close>: \<^verbatim>\<open>chksum\<close>, \<^verbatim>\<open>senddata\<close> and \<^verbatim>\<open>recvdata\<close>. A message on the
  wire is a \<^verbatim>\<open>struct msg_header\<close> followed by the data. The lemmas relate the checksum loop to the
  exclusive or of the little-endian words of the data, show what one wrong byte does to it, and show
  that messages sent over a reliable byte stream are received unchanged, in order, one per call.
\<close>

section \<open>Checksum\<close>

abbreviation data_at :: "u8 list \<Rightarrow> nat \<Rightarrow> u32" where
  "data_at xs i \<equiv> ucast (xs ! i)"

function chksum_loop :: "u8 list \<Rightarrow> nat \<Rightarrow> nat \<Rightarrow> u32 \<Rightarrow> nat \<times> u32" where
  "chksum_loop xs n i sm =
     (if i < n then
        chksum_loop xs n (i + 4)
          (sm XOR (data_at xs i OR push_bit 8 (data_at xs (i + 1)) OR
             push_bit 16 (data_at xs (i + 2)) OR push_bit 24 (data_at xs (i + 3))))
      else (i, sm))"
  by pat_completeness auto
termination
  by (relation "measure (\<lambda>(xs, n, i, sm). n - i)") auto

declare chksum_loop.simps [simp del]

definition chksum :: "u8 list \<Rightarrow> u16 \<Rightarrow> u32 outcome" where
  "chksum xs len =
     (if length xs < unat len then Fault Out_Of_Bounds
      else
        let extra = unat len mod 4;
            (i, sm) = chksum_loop xs (unat len - extra) 0 0
        in if 0 < extra then
             Ok (sm XOR (data_at xs i OR
               (if 2 \<le> extra then push_bit 8 (data_at xs (i + 1)) else 0) OR
               (if 3 \<le> extra then push_bit 16 (data_at xs (i + 2)) else 0)))
           else Ok sm)"

section \<open>Sending and receiving a message\<close>

text \<open>
  \<^verbatim>\<open>struct msg_header\<close> is the length, two bytes of padding that are never assigned, and the checksum,
  both fields in network byte order. The padding is the argument \<open>pad\<close>.
\<close>

abbreviation msg_header_size :: nat where "msg_header_size \<equiv> 8"

definition msg_header :: "u16 \<Rightarrow> u16 \<Rightarrow> u32 \<Rightarrow> u8 list" where
  "msg_header pad len sm = le_bytes 2 (htons len) @ le_bytes 2 pad @ le_bytes 4 (htonl sm)"

definition header_length :: "u8 list \<Rightarrow> u16" where
  "header_length bs = ntohs (le_word (take 2 bs))"

definition header_sum :: "u8 list \<Rightarrow> u32" where
  "header_sum bs = ntohl (le_word (drop 4 bs))"

definition senddata :: "'w os \<Rightarrow> u16 \<Rightarrow> u32 \<Rightarrow> u8 list \<Rightarrow> u16 \<Rightarrow> ('w, i32) M" where
  "senddata os pad socket xs len =
     (if len = 0 then bindM (set_error EINVAL) (\<lambda>_. returnM (- 1))
      else
        bindM (\<lambda>h. bindO (chksum xs len) (\<lambda>sm. Ok (sm, h))) (\<lambda>sm.
        bindM (syscall (os_send os socket (msg_header pad len sm))) (\<lambda>rc.
        if rc = 0 then bindM (set_error ECANCELED) (\<lambda>_. returnM (- 1))
        else if rc < 0 then returnM (- 1)
        else
          bindM (syscall (os_send os socket (take (unat len) xs))) (\<lambda>rc.
          if rc = 0 then bindM (set_error ECANCELED) (\<lambda>_. returnM (- 1))
          else returnM rc))))"

text \<open>
  \<^verbatim>\<open>recvdata\<close> answers with its return code, the bytes it stored at the start of the buffer \<^verbatim>\<open>data\<close>, and
  the new value of \<^verbatim>\<open>*length\<close>. Both results of comparing the checksum lead to the same return.
\<close>

definition recvdata :: "'w os \<Rightarrow> u32 \<Rightarrow> u16 \<Rightarrow> ('w, i32 \<times> u8 list \<times> u16) M" where
  "recvdata os socket len =
     bindM (syscall_out (os_recv os socket msg_header_size True)) (\<lambda>(rc, m).
     if rc = 0 then bindM (set_error ECANCELED) (\<lambda>_. returnM (- 1, [], len))
     else if rc < 0 then returnM (- 1, [], len)
     else if rc \<noteq> int msg_header_size then bindM (set_error ECANCELED) (\<lambda>_. returnM (- 1, [], len))
     else if header_length m > len then bindM (set_error ENOMEM) (\<lambda>_. returnM (- 1, [], len))
     else
       bindM (syscall_out (os_recv os socket msg_header_size False)) (\<lambda>(rc, b).
       if rc = 0 then bindM (set_error ECANCELED) (\<lambda>_. returnM (- 1, [], len))
       else if rc < 0 then returnM (- 1, [], len)
       else
         bindM (syscall_out (os_recv os socket (unat (header_length m)) False)) (\<lambda>(rc, xs).
         if rc = 0 then bindM (set_error ECANCELED) (\<lambda>_. returnM (- 1, [], len))
         else if rc < 0 then returnM (- 1, [], len)
         else if rc \<noteq> int (unat (header_length m)) then
           bindM (set_error ECANCELED) (\<lambda>_. returnM (- 1, xs, len))
         else bindM (\<lambda>h. bindO (chksum xs (header_length m)) (\<lambda>sm. Ok (sm, h))) (\<lambda>recv_sum.
           if header_sum m XOR recv_sum \<noteq> 0 then returnM (0, xs, header_length m)
           else returnM (0, xs, header_length m)))))"

section \<open>What the checksum computes\<close>

text \<open>The little-endian 32-bit words of the data, the last one filled up with zeros.\<close>

fun words32 :: "u8 list \<Rightarrow> u32 list" where
  "words32 [] = []"
| "words32 (b # bs) = le_word (take 4 (b # bs)) # words32 (drop 3 bs)"

definition xor_words :: "u8 list \<Rightarrow> u32" where
  "xor_words xs = foldr (XOR) (words32 xs) 0"

lemma words32_eq: "xs \<noteq> [] \<Longrightarrow> words32 xs = le_word (take 4 xs) # words32 (drop 4 xs)"
  by (cases xs) simp_all

lemma xor_words_eq: "xs \<noteq> [] \<Longrightarrow> xor_words xs = le_word (take 4 xs) XOR xor_words (drop 4 xs)"
  by (simp add: xor_words_def words32_eq)

lemma xor_words_Nil [simp]: "xor_words [] = 0"
  by (simp add: xor_words_def)

lemma take4_nth: "i + 3 < length xs \<Longrightarrow> take 4 (drop i xs) = [xs ! i, xs ! (i + 1), xs ! (i + 2), xs ! (i + 3)]"
  by (rule nth_equalityI) (auto simp: less_Suc_eq numeral_eq_Suc)

lemma le_word_4:
  "(le_word [a, b, c, d] :: u32) = ucast a OR push_bit 8 (ucast b) OR push_bit 16 (ucast c) OR push_bit 24 (ucast d)"
  by (simp add: push_bit_or)

lemma chksum_loop_xor_words:
  "i \<le> n \<Longrightarrow> n \<le> length xs \<Longrightarrow> 4 dvd n - i \<Longrightarrow>
     chksum_loop xs n i s = (n, s XOR xor_words (take (n - i) (drop i xs)))"
proof (induction xs n i s rule: chksum_loop.induct)
  case (1 xs n i s)
  show ?case
  proof (cases "i < n")
    case True
    then have le: "i + 4 \<le> n" using dvd_imp_le [OF 1(4)] by simp
    let ?w = "le_word [xs ! i, xs ! (i + 1), xs ! (i + 2), xs ! (i + 3)] :: u32"
    have "chksum_loop xs n i s = chksum_loop xs n (i + 4) (s XOR ?w)"
      unfolding le_word_4 by (subst chksum_loop.simps) (simp add: True)
    also have "\<dots> = (n, (s XOR ?w) XOR xor_words (take (n - (i + 4)) (drop (i + 4) xs)))"
      unfolding le_word_4 by (rule "1.IH" [OF True]) (use 1(3,4) le in \<open>auto simp: dvd_diff_nat diff_diff_left [symmetric] simp del: diff_diff_left\<close>)
    also have "xor_words (take (n - i) (drop i xs)) = ?w XOR xor_words (take (n - (i + 4)) (drop (i + 4) xs))"
      using le 1(3) take4_nth [of i xs]
      by (subst xor_words_eq) (auto simp: min_def drop_take add.commute)
    ultimately show ?thesis by (simp add: xor.assoc)
  next
    case False
    with 1(2) show ?thesis by (subst chksum_loop.simps) simp
  qed
qed

lemma words32_append: "4 dvd length xs \<Longrightarrow> words32 (xs @ ys) = words32 xs @ words32 ys"
proof (induction xs rule: words32.induct)
  case (2 b bs)
  then have l: "3 \<le> length bs" using dvd_imp_le [OF 2(2)] by simp
  moreover have "4 dvd length (drop 3 bs)"
    using dvd_diff_nat [OF 2(2) dvd_refl [of 4]] l by simp
  ultimately show ?case using 2(1) by simp
qed simp

lemma xor_words_append: "4 dvd length xs \<Longrightarrow> xor_words (xs @ ys) = xor_words xs XOR xor_words ys"
proof -
  have "foldr (XOR) (us @ vs) 0 = foldr (XOR) us 0 XOR (foldr (XOR) vs 0 :: u32)" for us vs
    by (induction us) (simp_all add: xor.assoc)
  then show "4 dvd length xs \<Longrightarrow> ?thesis" by (simp add: xor_words_def words32_append)
qed

lemma xor_words_short: "length ys < 4 \<Longrightarrow> xor_words ys = le_word ys"
  by (cases "ys = []") (simp_all add: xor_words_eq)

lemma take_extra_nth:
  assumes "i + e \<le> length xs" and "e < 4"
  shows "take e (drop i xs) =
    (if e = 0 then [] else if e = 1 then [xs ! i] else if e = 2 then [xs ! i, xs ! (i + 1)]
     else [xs ! i, xs ! (i + 1), xs ! (i + 2)])"
  using assms by (intro nth_equalityI) (auto simp: less_Suc_eq numeral_eq_Suc)

lemma chksum_eq:
  assumes "unat len \<le> length xs"
  shows "chksum xs len = Ok (xor_words (take (unat len) xs))"
proof -
  define n e where "n = unat len" and "e = n mod 4"
  have e: "e < 4" "e \<le> n" and dvd: "4 dvd n - e" by (simp_all add: e_def dvd_minus_mod)
  have n: "n \<le> length xs" using assms by (simp add: n_def)
  have "take n xs = take (n - e) xs @ take e (drop (n - e) xs)"
    using e n by (metis le_add_diff_inverse2 take_add)
  then have split: "xor_words (take n xs) = xor_words (take (n - e) xs) XOR le_word (take e (drop (n - e) xs))"
    using e n dvd xor_words_append [of "take (n - e) xs" "take e (drop (n - e) xs)"]
    by (simp add: xor_words_short)
  have loop: "chksum_loop xs (n - e) 0 0 = (n - e, xor_words (take (n - e) xs))"
    using chksum_loop_xor_words [of 0 "n - e" xs 0] n dvd by simp
  have part: "take e (drop (n - e) xs) =
    (if e = 0 then [] else if e = 1 then [xs ! (n - e)] else if e = 2 then [xs ! (n - e), xs ! (n - e + 1)]
     else [xs ! (n - e), xs ! (n - e + 1), xs ! (n - e + 2)])"
    using take_extra_nth [of "n - e" e xs] e n by simp
  show ?thesis
    using n e unfolding chksum_def n_def [symmetric] e_def [symmetric] loop Let_def split part
    by (auto simp: push_bit_or or.assoc)
qed

lemma le_word_update:
  "i < length bs \<Longrightarrow> le_word (bs[i := b]) = (le_word bs XOR push_bit (8 * i) (ucast (bs ! i XOR b)) :: 'a::len word)"
proof (induction bs arbitrary: i)
  case (Cons a bs)
  show ?case
  proof (cases i)
    case 0
    have "ucast b OR push_bit 8 w = (ucast a OR push_bit 8 w) XOR ucast (a XOR b)" for w :: "'a word"
      by (rule bit_word_eqI) (auto simp: bit_simps dest: bit_imp_le_length)
    then show ?thesis by (simp add: 0)
  next
    case (Suc j)
    have "ucast a OR push_bit 8 (v XOR w) = (ucast a OR push_bit 8 v) XOR push_bit 8 w" for v w :: "'a word"
      by (rule bit_word_eqI) (auto simp: bit_simps dest: bit_imp_le_length)
    from this [of "le_word bs" "push_bit (8 * j) (ucast (bs ! j XOR b))"]
    show ?thesis using Cons by (simp add: Suc push_bit_push_bit)
  qed
qed simp

lemma xor_words_update:
  "i < length xs \<Longrightarrow>
     xor_words (xs[i := b]) = xor_words xs XOR push_bit (8 * (i mod 4)) (ucast (xs ! i XOR b))"
proof (induction xs arbitrary: i rule: words32.induct)
  case (2 c bs)
  let ?xs = "c # bs"
  note eq = xor_words_eq [of ?xs, simplified] xor_words_eq [of "?xs[i := b]", simplified]
  show ?case
  proof (cases "i < 4")
    case True
    have "take 4 (?xs[i := b]) = (take 4 ?xs)[i := b]" by (rule take_update_swap)
    moreover have "drop 4 (?xs[i := b]) = drop 4 ?xs" using True by (simp add: drop_update_cancel del: list_update.simps)
    moreover have "take 4 ?xs ! i = ?xs ! i" using True by (rule nth_take)
    ultimately show ?thesis
      using True 2(2) le_word_update [of i "take 4 ?xs" b, where 'a = 32]
      by (simp add: xor_words_eq xor.commute xor.left_commute del: list_update.simps take_Suc_Cons)
  next
    case False
    then obtain j where i: "i = j + 4" by (metis add.commute le_Suc_ex not_less)
    have "take 4 (?xs[i := b]) = take 4 ?xs" using False by (simp add: take_update_cancel del: list_update.simps)
    moreover have "drop 4 (?xs[i := b]) = (drop 4 ?xs)[j := b]"
      by (simp add: i drop_update_swap del: list_update.simps)
    moreover have "xor_words ((drop 4 ?xs)[j := b]) = xor_words (drop 4 ?xs) XOR push_bit (8 * (j mod 4)) (ucast (drop 4 ?xs ! j XOR b))"
      using 2(1) [of j] 2(2) i by simp
    ultimately show ?thesis
      using 2(2) by (simp add: xor_words_eq i xor.assoc nth_drop add.commute del: list_update.simps)
  qed
qed simp

section \<open>Reliable streams\<close>

text \<open>
  What a connected stream socket promises: what is sent is appended to the bytes that wait at the
  other end, \<^verbatim>\<open>recv\<close> takes waiting bytes from the front, at most as many as asked for, and with
  \<^verbatim>\<open>MSG_PEEK\<close> leaves them in place. \<open>pending\<close> reads the waiting bytes off the world.
\<close>

definition reliable_stream :: "'w os \<Rightarrow> u32 \<Rightarrow> u32 \<Rightarrow> ('w \<Rightarrow> u8 list) \<Rightarrow> bool" where
  "reliable_stream os src dst pending \<longleftrightarrow>
     (\<forall>bs w. \<exists>e w'. os_send os src bs w = (int (length bs), e, w') \<and> pending w' = pending w @ bs) \<and>
     (\<forall>n w. pending w \<noteq> [] \<longrightarrow> (\<exists>e w'. os_recv os dst n True w =
        (int (length (take n (pending w))), e, take n (pending w), w') \<and> pending w' = pending w)) \<and>
     (\<forall>n w. pending w \<noteq> [] \<longrightarrow> (\<exists>e w'. os_recv os dst n False w =
        (int (length (take n (pending w))), e, take n (pending w), w') \<and> pending w' = drop n (pending w)))"

lemma reliable_streamE:
  assumes "reliable_stream os src dst pending"
  shows "\<exists>e w'. os_send os src bs w = (int (length bs), e, w') \<and> pending w' = pending w @ bs"
    and "pending w \<noteq> [] \<Longrightarrow> \<exists>e w'. os_recv os dst n True w =
        (int (length (take n (pending w))), e, take n (pending w), w') \<and> pending w' = pending w"
    and "pending w \<noteq> [] \<Longrightarrow> \<exists>e w'. os_recv os dst n False w =
        (int (length (take n (pending w))), e, take n (pending w), w') \<and> pending w' = drop n (pending w)"
  using assms unfolding reliable_stream_def by blast+

text \<open>The bytes of one message on the wire, and the messages that \<^verbatim>\<open>senddata\<close> accepts.\<close>

definition frame :: "u16 \<Rightarrow> u8 list \<Rightarrow> u8 list" where
  "frame pad xs = msg_header pad (of_nat (length xs)) (xor_words xs) @ xs"

definition sendable :: "u8 list \<Rightarrow> bool" where
  "sendable xs \<longleftrightarrow> xs \<noteq> [] \<and> length xs < 2 ^ 16"

lemma length_msg_header [simp]: "length (msg_header pad len s) = 8"
  by (simp add: msg_header_def)

lemma msg_header_not_Nil [simp]: "msg_header pad len s \<noteq> []"
  using length_msg_header [of pad len s] by fastforce

lemma header_length_msg_header [simp]: "header_length (msg_header pad len s) = len"
  by (simp add: header_length_def msg_header_def)

lemma header_sum_msg_header [simp]: "header_sum (msg_header pad len s) = s"
  by (simp add: header_sum_def msg_header_def)

lemma sendable_length:
  assumes "sendable xs"
  shows "unat (of_nat (length xs) :: u16) = length xs" and "(of_nat (length xs) :: u16) \<noteq> 0"
proof -
  show u: "unat (of_nat (length xs) :: u16) = length xs"
    using assms by (simp add: sendable_def unat_of_nat take_bit_nat_eq_self)
  then show "(of_nat (length xs) :: u16) \<noteq> 0"
    using assms by (metis sendable_def length_0_conv unat_0)
qed

text \<open>What the two calls do, given what the socket answers to each of their system calls.\<close>

lemma senddata_runs:
  assumes xs: "sendable xs"
    and 1: "os_send os s (msg_header pad (of_nat (length xs)) (xor_words xs)) (world h) = (8, e1, w1)"
    and 2: "os_send os s xs w1 = (int (length xs), e2, w2)"
  shows "senddata os pad s xs (of_nat (length xs)) h = Ok (int (length xs), h\<lparr>world := w2\<rparr>)"
  using 1 2 sendable_length [OF xs] xs
  by (simp add: senddata_def chksum_eq monad_defs sys_defs sendable_def)

lemma recvdata_runs:
  assumes xs: "sendable xs" and cap: "length xs \<le> unat len"
    and 1: "os_recv os s 8 True (world h) = (8, e1, msg_header pad (of_nat (length xs)) sm, w1)"
    and 2: "os_recv os s 8 False w1 = (8, e2, msg_header pad (of_nat (length xs)) sm, w2)"
    and 3: "os_recv os s (length xs) False w2 = (int (length xs), e3, xs, w3)"
  shows "recvdata os s len h = Ok ((0, xs, of_nat (length xs)), h\<lparr>world := w3\<rparr>)"
proof -
  note ln = sendable_length [OF xs]
  have le: "\<not> of_nat (length xs) > len" using cap ln(1) by (simp add: not_less word_le_nat_alt)
  show ?thesis
    using 1 2 3 ln le xs
    by (simp add: recvdata_def chksum_eq monad_defs sys_defs sendable_def)
qed

lemma senddata_stream:
  assumes st: "reliable_stream os src dst pending" and xs: "sendable xs"
  obtains h' where "senddata os pad src xs (of_nat (length xs)) h = Ok (int (length xs), h')"
    and "pending (world h') = pending (world h) @ frame pad xs"
    and "heap h' = heap h" and "fds h' = fds h" and "OPT h' = OPT h"
proof -
  obtain e1 w1 where 1: "os_send os src (msg_header pad (of_nat (length xs)) (xor_words xs)) (world h) = (8, e1, w1)"
      "pending w1 = pending (world h) @ msg_header pad (of_nat (length xs)) (xor_words xs)"
    using reliable_streamE(1) [OF st, of "msg_header pad (of_nat (length xs)) (xor_words xs)" "world h"] by auto
  obtain e2 w2 where 2: "os_send os src xs w1 = (int (length xs), e2, w2)" "pending w2 = pending w1 @ xs"
    using reliable_streamE(1) [OF st, of xs w1] by auto
  have "senddata os pad src xs (of_nat (length xs)) h = Ok (int (length xs), h\<lparr>world := w2\<rparr>)"
    by (rule senddata_runs [OF xs 1(1) 2(1)])
  then show ?thesis by (rule that) (simp_all add: 1 2 frame_def)
qed

lemma recvdata_stream:
  assumes st: "reliable_stream os src dst pending" and xs: "sendable xs"
    and p': "pending (world h) = msg_header pad (of_nat (length xs)) s @ xs @ rest"
    and cap: "length xs \<le> unat len"
  obtains h' where "recvdata os dst len h = Ok ((0, xs, of_nat (length xs)), h')"
    and "pending (world h') = rest"
    and "heap h' = heap h" and "fds h' = fds h" and "OPT h' = OPT h"
proof -
  let ?m = "msg_header pad (of_nat (length xs)) s"
  have ne: "?m \<noteq> []" by (rule msg_header_not_Nil)
  obtain e1 w1 where 1: "os_recv os dst 8 True (world h) = (8, e1, ?m, w1)" "pending w1 = ?m @ xs @ rest"
    using reliable_streamE(2) [OF st, of "world h" 8] p' ne by auto
  obtain e2 w2 where 2: "os_recv os dst 8 False w1 = (8, e2, ?m, w2)" "pending w2 = xs @ rest"
    using reliable_streamE(3) [OF st, of w1 8] 1(2) ne by auto
  obtain e3 w3 where 3: "os_recv os dst (length xs) False w2 = (int (length xs), e3, xs, w3)" "pending w3 = rest"
    using reliable_streamE(3) [OF st, of w2 "length xs"] 2(2) xs by (auto simp: sendable_def)
  have "recvdata os dst len h = Ok ((0, xs, of_nat (length xs)), h\<lparr>world := w3\<rparr>)"
    by (rule recvdata_runs [OF xs cap 1(1) 2(1) 3(1)])
  then show ?thesis by (rule that) (simp_all add: 3)
qed

text \<open>A whole conversation: messages sent one after the other, and received one per call.\<close>

fun send_all :: "'w os \<Rightarrow> u32 \<Rightarrow> (u16 \<times> u8 list) list \<Rightarrow> ('w, i32 list) M" where
  "send_all os s [] = returnM []"
| "send_all os s ((pad, xs) # ms) =
     bindM (senddata os pad s xs (of_nat (length xs))) (\<lambda>rc.
     bindM (send_all os s ms) (\<lambda>rcs. returnM (rc # rcs)))"

fun recv_all :: "'w os \<Rightarrow> u32 \<Rightarrow> u16 \<Rightarrow> nat \<Rightarrow> ('w, (i32 \<times> u8 list \<times> u16) list) M" where
  "recv_all os s cap 0 = returnM []"
| "recv_all os s cap (Suc n) =
     bindM (recvdata os s cap) (\<lambda>r. bindM (recv_all os s cap n) (\<lambda>rs. returnM (r # rs)))"

lemma send_all_stream:
  assumes st: "reliable_stream os src dst pending" and ms: "\<forall>m \<in> set ms. sendable (snd m)"
  shows "\<exists>h'. send_all os src ms h = Ok (map (\<lambda>m. int (length (snd m))) ms, h') \<and>
    pending (world h') = pending (world h) @ concat (map (\<lambda>m. frame (fst m) (snd m)) ms) \<and>
    heap h' = heap h \<and> fds h' = fds h \<and> OPT h' = OPT h"
  using ms
proof (induction ms arbitrary: h)
  case Nil
  then show ?case by (simp add: returnM_def)
next
  case (Cons m ms)
  obtain pad xs where m: "m = (pad, xs)" by (cases m)
  then have "sendable xs" using Cons.prems by simp
  then obtain h1 where 1: "senddata os pad src xs (of_nat (length xs)) h = Ok (int (length xs), h1)"
      "pending (world h1) = pending (world h) @ frame pad xs" "heap h1 = heap h" "fds h1 = fds h" "OPT h1 = OPT h"
    by (rule senddata_stream [OF st])
  show ?case using Cons.IH [of h1] Cons.prems 1 by (auto simp: m bindM_def returnM_def)
qed

lemma recv_all_stream:
  assumes st: "reliable_stream os src dst pending" and ms: "\<forall>m \<in> set ms. sendable (snd m) \<and> length (snd m) \<le> unat cap"
    and p: "pending (world h) = concat (map (\<lambda>m. frame (fst m) (snd m)) ms) @ rest"
  shows "\<exists>h'. recv_all os dst cap (length ms) h = Ok (map (\<lambda>m. (0, snd m, of_nat (length (snd m)))) ms, h') \<and>
    pending (world h') = rest \<and> heap h' = heap h \<and> fds h' = fds h \<and> OPT h' = OPT h"
  using ms p
proof (induction ms arbitrary: h)
  case Nil
  then show ?case by (simp add: returnM_def)
next
  case (Cons m ms)
  obtain pad xs where m: "m = (pad, xs)" by (cases m)
  let ?rest = "concat (map (\<lambda>m. frame (fst m) (snd m)) ms) @ rest"
  have xs: "sendable xs" "length xs \<le> unat cap"
    and q: "pending (world h) = msg_header pad (of_nat (length xs)) (xor_words xs) @ xs @ ?rest"
    using Cons.prems by (simp_all add: m frame_def)
  obtain h1 where 1: "recvdata os dst cap h = Ok ((0, xs, of_nat (length xs)), h1)"
      "pending (world h1) = ?rest" "heap h1 = heap h" "fds h1 = fds h" "OPT h1 = OPT h"
    by (rule recvdata_stream [OF st xs(1) q xs(2)])
  show ?case using Cons.IH [of h1] Cons.prems(1) 1 by (auto simp: m bindM_def returnM_def)
qed

lemma reliable_loop: "reliable_stream loop_os s r pipe"
  by (auto simp: reliable_stream_def loop_os_def)

lemma xor_eq_self_iff: "s XOR d = s \<longleftrightarrow> d = (0 :: 'a::len word)"
proof
  assume "s XOR d = s"
  then have "s XOR (s XOR d) = 0" by simp
  then show "d = 0" by (simp add: xor.assoc [symmetric])
qed simp

text \<open>
  C9: The checksum loop computes the exclusive or of the little-endian 32-bit words of the first
  \<^verbatim>\<open>length\<close> bytes, the last word filled up with zeros; it reads past the data exactly when \<^verbatim>\<open>length\<close>
  exceeds what is there.
\<close>

theorem chksum_is_xor_of_words:
  "chksum xs len = (if unat len \<le> length xs then Ok (xor_words (take (unat len) xs)) else Fault Out_Of_Bounds)"
  by (simp add: chksum_eq) (simp add: chksum_def)

text \<open>
  C24: Replacing one byte of the data changes the checksum by exactly the changed bits, at the byte's
  place in its word; so the checksums agree only if the byte is unchanged.
\<close>

theorem chksum_detects_one_byte:
  assumes "unat len = length xs" and "i < length xs"
  shows "\<exists>s. chksum xs len = Ok s \<and>
    chksum (xs[i := b]) len = Ok (s XOR push_bit (8 * (i mod 4)) (ucast (xs ! i XOR b))) \<and>
    (chksum (xs[i := b]) len = chksum xs len \<longleftrightarrow> b = xs ! i)"
proof -
  let ?d = "push_bit (8 * (i mod 4)) (ucast (xs ! i XOR b)) :: u32"
  have "b = xs ! i" if "?d = 0"
  proof (rule bit_word_eqI)
    fix k assume k: "k < LENGTH(8)"
    have "i mod 4 < 4" by simp
    with k have "8 * (i mod 4) + k < 32" by auto
    then have "bit ?d (8 * (i mod 4) + k) = bit (xs ! i XOR b) k"
      by (simp add: bit_simps)
    with that show "bit b k = bit (xs ! i) k" by (auto simp: bit_simps)
  qed
  then have "s XOR ?d = s \<longleftrightarrow> b = xs ! i" for s
    using xor_eq_self_iff [of s ?d] by auto
  moreover have "chksum xs len = Ok (xor_words xs)"
    and "chksum (xs[i := b]) len = Ok (xor_words xs XOR ?d)"
    using assms by (simp_all add: chksum_eq xor_words_update)
  ultimately show ?thesis by simp
qed

theorem chksum_detects_one_byte_witness:
  "chksum [1, 2, 3, 4, 5] 5 = Ok 0x04030204 \<and> chksum [1, 2, 3, 4, 7] 5 = Ok (0x04030204 XOR 2)"
proof -
  have 1: "chksum [1, 2, 3, 4, 5] 5 = Ok 0x04030204"
    by (simp add: chksum_eq xor_words_def)
  show ?thesis
    using chksum_detects_one_byte [of 5 "[1, 2, 3, 4, 5]" 4 7] 1 by auto
qed



text \<open>
  C23: When the caller's buffer is too small, \<^verbatim>\<open>recvdata\<close> stores nothing, fails with \<^verbatim>\<open>ENOMEM\<close> and leaves
  the stream as it was, so that a second call with a large enough buffer still gets the message.
\<close>

theorem recvdata_small_buffer:
  assumes "reliable_stream os src dst pending" and "sendable xs"
    and "pending (world h) = frame pad xs @ rest" and "unat small < length xs" and "length xs \<le> unat large"
  shows "\<exists>h1 h2. recvdata os dst small h = Ok ((- 1, [], small), h1) \<and> errno h1 = ENOMEM \<and>
    pending (world h1) = pending (world h) \<and>
    recvdata os dst large h1 = Ok ((0, xs, of_nat (length xs)), h2) \<and> pending (world h2) = rest"
proof -
  note ln = sendable_length [OF assms(2)]
  let ?m = "msg_header pad (of_nat (length xs)) (xor_words xs)"
  have p: "pending (world h) = ?m @ xs @ rest" using assms(3) by (simp add: frame_def)
  obtain e w where r: "os_recv os dst 8 True (world h) = (8, e, ?m, w)" "pending w = ?m @ xs @ rest"
    using reliable_streamE(2) [OF assms(1), of "world h" 8] p by auto
  have "small < of_nat (length xs)" using assms(4) ln by (simp add: word_less_nat_alt)
  then have "recvdata os dst small h = Ok ((- 1, [], small), h\<lparr>world := w, errno := ENOMEM\<rparr>)"
    using r by (simp add: recvdata_def monad_defs sys_defs)
  moreover have "pending (world (h\<lparr>world := w, errno := ENOMEM\<rparr>)) = ?m @ xs @ rest" using r by simp
  moreover from this obtain h2 where
    "recvdata os dst large (h\<lparr>world := w, errno := ENOMEM\<rparr>) = Ok ((0, xs, of_nat (length xs)), h2)"
    "pending (world h2) = rest"
    by (rule recvdata_stream [OF assms(1,2) _ assms(5)])
  ultimately show ?thesis using p by auto
qed

theorem recvdata_small_buffer_witness:
  "\<exists>h h1 h2. recvdata loop_os 4 1 h = Ok ((- 1, [], 1), h1) \<and> recvdata loop_os 4 2 h1 = Ok ((0, [5, 6], 2), h2)"
proof -
  define h where "h = loop_host\<lparr>world := \<lparr>next_fd = 3, pipe = frame 0 [5, 6]\<rparr>\<rparr>"
  show ?thesis
    using recvdata_small_buffer [OF reliable_loop, of "[5, 6]" h 0 "[]" 1 2 4]
    by (auto simp: sendable_def h_def)
qed

text \<open>A wrong checksum does not keep \<^verbatim>\<open>recvdata\<close> from delivering the data as good.\<close>

lemma recvdata_ignores_checksum:
  assumes "reliable_stream os src dst pending" and "sendable xs" and "length xs \<le> unat len"
    and "pending (world h) = msg_header pad (of_nat (length xs)) (s XOR 1) @ xs"
    and "chksum xs (of_nat (length xs)) = Ok s"
  shows "\<exists>h'. recvdata os dst len h = Ok ((0, xs, of_nat (length xs)), h')"
  using recvdata_stream [OF assms(1,2) _ assms(3), of h pad "s XOR 1" "[]"] assms(4) by auto

end
