(* ===== verification/Ownership.thy ===== *)
theory Ownership
  imports Panel
begin

text \<open>
  Accounting of panels and sockets across a run of the messaging code. \<open>owned P X h0 h\<close> says that since
  the state \<open>h0\<close> exactly the panels \<open>P\<close> have been added, and that the open sockets are those of \<open>h0\<close>,
  one for each panel of \<open>P\<close>, and the further sockets \<open>X\<close>. The lemmas give the effect of every
  constructor, operation and release on that account.
\<close>

definition socket_at :: "'w host \<Rightarrow> ptr \<Rightarrow> u32" where
  "socket_at h p = (case heap h p of None \<Rightarrow> 0 | Some v \<Rightarrow> sp_socket v)"

definition owned :: "ptr set \<Rightarrow> u32 multiset \<Rightarrow> 'w host \<Rightarrow> 'w host \<Rightarrow> bool" where
  "owned P X h0 h \<longleftrightarrow> finite P \<and> NULL \<notin> P \<and>
     (\<forall>p \<in> P. heap h0 p = None \<and> heap h p \<noteq> None) \<and> (\<forall>q. q \<notin> P \<longrightarrow> heap h q = heap h0 q) \<and>
     fds h = fds h0 + X + image_mset (socket_at h) (mset_set P) \<and> wf_host h \<and> wf_host h0"

lemma owned_start: "wf_host h \<Longrightarrow> owned {} {#} h h"
  by (simp add: owned_def)

lemma owned_end: "owned {} X h0 h \<Longrightarrow> heap h = heap h0 \<and> fds h = fds h0 + X \<and> wf_host h"
  by (auto simp: owned_def)

lemma owned_wf: "owned P X h0 h \<Longrightarrow> wf_host h"
  by (simp add: owned_def)

lemma owned_live: "owned P X h0 h \<Longrightarrow> p \<in> P \<Longrightarrow> p \<noteq> NULL \<and> (\<exists>v. heap h p = Some v)"
  by (cases "p = NULL") (auto simp: owned_def)

text \<open>Steps that touch neither panels nor sockets.\<close>

definition quiet :: "'w host \<Rightarrow> 'w host \<Rightarrow> bool" where
  "quiet h h' \<longleftrightarrow> heap h' = heap h \<and> brk h' = brk h \<and> fds h' = fds h"

lemma quiet_refl [simp]: "quiet h h"
  by (simp add: quiet_def)

lemma quiet_trans: "quiet h1 h2 \<Longrightarrow> quiet h2 h3 \<Longrightarrow> quiet h1 h3"
  by (simp add: quiet_def)

lemma owned_quiet:
  assumes "owned P X h0 h" and "quiet h h'"
  shows "owned P X h0 h'"
proof -
  have "socket_at h' = socket_at h"
    using assms(2) by (intro ext) (simp add: quiet_def socket_at_def)
  moreover have "wf_host h' = wf_host h"
    using assms(2) by (simp add: quiet_def wf_host_def)
  ultimately show ?thesis using assms by (simp add: owned_def quiet_def)
qed

section \<open>Relations that a computation respects\<close>

text \<open>
  \<open>runsM R m\<close> says that every run of \<open>m\<close> that returns goes from a state to an \<open>R\<close>-related one. The
  locale gives the rules for sequencing and for the primitives of the host; it asks only that \<open>R\<close> is
  transitive and relates states that differ in \<^verbatim>\<open>errno\<close> and the world alone.
\<close>

definition runsM :: "('w host \<Rightarrow> 'w host \<Rightarrow> bool) \<Rightarrow> ('w, 'a) M \<Rightarrow> bool" where
  "runsM R m \<longleftrightarrow> (\<forall>h x h'. m h = Ok (x, h') \<longrightarrow> R h h')"

lemma runsMD: "runsM R m \<Longrightarrow> m h = Ok (x, h') \<Longrightarrow> R h h'"
  by (simp add: runsM_def)

locale host_relation =
  fixes R :: "'w host \<Rightarrow> 'w host \<Rightarrow> bool"
  assumes world_step: "heap h' = heap h \<Longrightarrow> brk h' = brk h \<Longrightarrow> fds h' = fds h \<Longrightarrow> OPT h' = OPT h \<Longrightarrow> R h h'"
    and trans_step: "R h1 h2 \<Longrightarrow> R h2 h3 \<Longrightarrow> R h1 h3"
begin

lemma runs_bindM: "runsM R m \<Longrightarrow> (\<And>x. runsM R (f x)) \<Longrightarrow> runsM R (bindM m f)"
  unfolding runsM_def bindM_eq_Ok_conv by (blast intro: trans_step)

lemma runs_basic:
  "runsM R (returnM x)" "runsM R (faultM e)" "runsM R (getM g)" "runsM R (set_error n)"
  "runsM R (syscall f)" "runsM R (syscall_out f')" "runsM R (load q)"
  by (auto simp: runsM_def monad_defs sys_defs intro!: world_step split: prod.splits if_splits option.splits)

lemma runs_checkM: "runsM R m \<Longrightarrow> runsM R k \<Longrightarrow> runsM R (checkM m k)"
  unfolding checkM_def by (intro runs_bindM) (auto intro: runs_basic)

lemma runs_lift: "runsM R (\<lambda>h. bindO r (\<lambda>x. Ok (x, h)))"
  by (auto simp: runsM_def bindO_eq_Ok_conv intro: world_step)

lemmas runs_intros = runs_bindM runs_basic runs_checkM runs_lift

end

definition same_opt :: "'w host \<Rightarrow> 'w host \<Rightarrow> bool" where
  "same_opt h h' \<longleftrightarrow> OPT h' = OPT h"

abbreviation quietM :: "('w, 'a) M \<Rightarrow> bool" where "quietM \<equiv> runsM quiet"
abbreviation stepsM :: "ptr \<Rightarrow> ('w, 'a) M \<Rightarrow> bool" where "stepsM p \<equiv> runsM (panel_step p)"
abbreviation optM :: "('w, 'a) M \<Rightarrow> bool" where "optM \<equiv> runsM same_opt"

interpretation quiet: host_relation quiet
  by unfold_locales (auto simp: quiet_def)

interpretation step: host_relation "panel_step p" for p
  by unfold_locales (simp add: panel_step_def split: option.splits, rule panel_step_trans)

interpretation same_opt: host_relation same_opt
  by unfold_locales (auto simp: same_opt_def)

named_theorems quiet_intros \<open>introduction rules for quiet computations\<close>
named_theorems steps_intros \<open>introduction rules for computations on one panel\<close>
named_theorems opt_intros \<open>introduction rules for computations that keep the options\<close>

lemmas [quiet_intros] = quiet.runs_intros
lemmas [steps_intros] = step.runs_intros
lemmas [opt_intros] = same_opt.runs_intros

lemma stepsM_update [steps_intros]:
  assumes "\<And>v. sp_socket (f v) = sp_socket v"
    and "\<And>v. sp_getflag (sp_flags (f v)) SP_F_VALID = sp_getflag (sp_flags v) SP_F_VALID"
  shows "stepsM p (update_panel p f)"
  using assms by (auto simp: runsM_def monad_defs sys_defs panel_step_def split: if_splits option.splits)

lemma optM_steps: "stepsM p m \<Longrightarrow> optM m"
  by (simp add: runsM_def same_opt_def panel_step_def)

lemma optM_heap [opt_intros]:
  "optM (update_panel p f)" "optM (malloc_panel os v)" "optM (free_panel p)" "optM (close_fd os fd)" "optM (opened s)"
  by (auto simp: runsM_def same_opt_def monad_defs sys_defs split: if_splits option.splits prod.splits)

lemma optM_panel [opt_intros]: "optM (FreePanel os p)" "optM (DissociatePanel p)" "optM (CreatePanel os af type proto)"
  unfolding FreePanel_def DissociatePanel_def CreatePanel_def CreateEmptyPanel_def sys_socket_def
  by (auto intro!: opt_intros)

lemma load_Ok_conv: "load p h = Ok (v, h') \<longleftrightarrow> p \<noteq> NULL \<and> heap h p = Some v \<and> h' = h"
  by (auto simp: load_def split: option.splits)

lemma owned_sockets_eq:
  assumes "\<And>p. p \<in> P \<Longrightarrow> socket_at h' p = socket_at h p"
  shows "image_mset (socket_at h') (mset_set P) = image_mset (socket_at h) (mset_set P)"
  by (cases "finite P") (auto intro!: image_mset_cong assms)

lemma owned_step:
  assumes "owned P X h0 h" and "p \<in> P" and "panel_step p h h'"
  shows "owned P X h0 h'"
proof -
  have live: "heap h' q = None \<longleftrightarrow> heap h q = None" for q
    using assms(3) by (cases "q = p") (auto simp: panel_step_def split: option.splits)
  have sock: "socket_at h' q = socket_at h q" for q
    using assms(3) by (cases "q = p") (auto simp: panel_step_def socket_at_def split: option.splits)
  have "wf_host h'"
    using panel_step_wf [OF assms(3)] owned_wf [OF assms(1)] .
  moreover have "heap h' q = heap h0 q" if "q \<notin> P" for q
    using that assms by (auto simp: owned_def panel_step_def)
  moreover have "fds h' = fds h0 + X + image_mset (socket_at h') (mset_set P)"
    unfolding owned_sockets_eq [of P h' h, OF sock] using assms(1,3) by (simp add: owned_def panel_step_def)
  moreover have "heap h0 q = None \<and> heap h' q \<noteq> None" if "q \<in> P" for q
    using assms(1) live [of q] that by (simp add: owned_def)
  ultimately show ?thesis
    using assms(1) unfolding owned_def by blast
qed

lemma owned_created:
  assumes "owned P X h0 h" and "created p h h'" and "wf_host h'"
  shows "if p = NULL then owned P X h0 h' else p \<notin> P \<and> owned (insert p P) X h0 h'"
proof (cases "p = NULL")
  case True
  then show ?thesis
    using assms owned_sockets_eq [of P h' h] by (simp add: owned_def created_def socket_at_def)
next
  case False
  then obtain v where v: "heap h p = None" "heap h' = (heap h)(p \<mapsto> v)" "fds h' = add_mset (sp_socket v) (fds h)"
    using assms(2) by (auto simp: created_def split: option.splits)
  then have p: "p \<notin> P" using assms(1) by (auto simp: owned_def)
  have "image_mset (socket_at h') (mset_set P) = image_mset (socket_at h) (mset_set P)"
    by (rule owned_sockets_eq) (use v p in \<open>auto simp: socket_at_def\<close>)
  then show ?thesis
    using assms False v p by (auto simp: owned_def socket_at_def)
qed

lemma owned_remove:
  assumes "owned P X h0 h" and "p \<in> P" and "heap h' = (heap h)(p := None)" and "wf_host h'"
    and "fds h' = fds h0 + X' + image_mset (socket_at h) (mset_set (P - {p}))"
  shows "owned (P - {p}) X' h0 h'"
proof -
  have "image_mset (socket_at h') (mset_set (P - {p})) = image_mset (socket_at h) (mset_set (P - {p}))"
    by (rule owned_sockets_eq) (use assms(3) in \<open>auto simp: socket_at_def\<close>)
  then show ?thesis using assms by (auto simp: owned_def)
qed

lemma owned_split_socket:
  assumes "owned P X h0 h" and "p \<in> P"
  shows "fds h = fds h0 + X + add_mset (socket_at h p) (image_mset (socket_at h) (mset_set (P - {p})))"
  using assms by (simp add: owned_def mset_set.remove)

lemma owned_free:
  assumes "owned P X h0 h" and "p \<in> P" and "FreePanel os p h = Ok (u, h')"
  shows "owned (P - {p}) X h0 h'"
proof -
  obtain v where p: "p \<noteq> NULL" and v: "heap h p = Some v" using owned_live [OF assms(1,2)] by blast
  have h': "heap h' = (heap h)(p := None)" "fds h' = fds h - {#sp_socket v#}" "wf_host h'"
    using assms(3) p v FreePanel_wf [OF assms(3)] owned_wf [OF assms(1)]
    by (auto simp: FreePanel_def monad_defs sys_defs)
  have "fds h' = fds h0 + X + image_mset (socket_at h) (mset_set (P - {p}))"
    unfolding h'(2) owned_split_socket [OF assms(1,2)] by (simp add: socket_at_def v)
  then show ?thesis using owned_remove [OF assms(1,2) h'(1,3)] by blast
qed

lemma owned_dissociate:
  assumes "owned P X h0 h" and "p \<in> P" and "DissociatePanel p h = Ok (u, h')"
  shows "owned (P - {p}) (add_mset (socket_at h p) X) h0 h'"
proof -
  obtain v where p: "p \<noteq> NULL" and v: "heap h p = Some v" using owned_live [OF assms(1,2)] by blast
  have h': "heap h' = (heap h)(p := None)" "fds h' = fds h" "wf_host h'"
    using assms(3) p v owned_wf [OF assms(1)]
    by (auto simp: DissociatePanel_def monad_defs sys_defs wf_host_def split: if_splits)
  have "fds h' = fds h0 + add_mset (socket_at h p) X + image_mset (socket_at h) (mset_set (P - {p}))"
    unfolding h'(2) owned_split_socket [OF assms(1,2)] by simp
  then show ?thesis using owned_remove [OF assms(1,2) h'(1,3)] by blast
qed

lemma owned_opened:
  assumes "owned P X h0 h" and "heap h' = heap h" and "brk h' = brk h"
    and "fds h' = (if word_of_int s = (word_of_int INVALID_SOCKET :: u32) then fds h else add_mset (word_of_int s) (fds h))"
  shows "owned P (if word_of_int s = (word_of_int INVALID_SOCKET :: u32) then X else add_mset (word_of_int s) X) h0 h'"
proof -
  have s: "socket_at h' = socket_at h"
    using assms(2) by (intro ext) (simp add: socket_at_def)
  have "wf_host h'"
    using owned_wf [OF assms(1)] assms(2-4) by (simp add: wf_host_def)
  then show ?thesis using assms unfolding owned_def s by simp
qed

lemma owned_stepsM:
  assumes "owned P X h0 h" and "p \<in> P" and "stepsM p m" and "m h = Ok (x, h')"
  shows "owned P X h0 h'"
  using owned_step [OF assms(1,2)] runsMD [OF assms(3,4)] by blast

lemma owned_quietM:
  assumes "owned P X h0 h" and "quietM m" and "m h = Ok (x, h')"
  shows "owned P X h0 h'"
  using owned_quiet [OF assms(1)] runsMD [OF assms(2,3)] by blast

lemma panel_step_socket:
  assumes "panel_step p h h'"
  shows "socket_at h' q = socket_at h q"
  using assms by (cases "q = p") (auto simp: panel_step_def socket_at_def split: option.splits)

context panel_operation
begin

lemma steps: "stepsM p (oper p)"
  using stays_in_panel by (simp add: runsM_def)

end

text \<open>Operations on one panel that the early return of the code chains together.\<close>

lemma panel_operation_return: "panel_operation (\<lambda>p. returnM rc)"
  by unfold_locales (simp_all add: returnM_def)

end
