(* ===== verification/Discovery.thy ===== *)
theory Discovery
  imports Framing Ownership
begin

text \<open>
  Finding the peer (\<^verbatim>\<open>hw/msg/message.c\<close>): the interfaces of the host, the sockets built on them, the
  announcing side and the locating side. Loops that wait for the peer carry a bound on their number
  of rounds and fault with \<open>No_Return\<close> when it is used up. A call of \<^verbatim>\<open>dbg\<close> evaluates its arguments
  whatever the debug level is, so the \<^verbatim>\<open>FormatAddr\<close> calls in them are part of the model.
\<close>

section \<open>Interfaces\<close>

abbreviation IFF_UP :: u32 where "IFF_UP \<equiv> 0x1"
abbreviation IFF_LOOPBACK :: u32 where "IFF_LOOPBACK \<equiv> 0x8"
abbreviation IFF_MULTICAST :: u32 where "IFF_MULTICAST \<equiv> 0x1000"
abbreviation NI_MAXHOST :: nat where "NI_MAXHOST \<equiv> 1025"
abbreviation MAX_IF_LENGTH :: nat where "MAX_IF_LENGTH \<equiv> 32"
abbreviation PACKETS_PER_SEC :: i32 where "PACKETS_PER_SEC \<equiv> 10"

record IF_DATA =
  if_addr :: string
  if_name :: string
  if_sa :: sockaddr

definition getnameinfo :: "'w os \<Rightarrow> sockaddr \<Rightarrow> ('w, i32 \<times> string) M" where
  "getnameinfo os a = (\<lambda>h. case os_getnameinfo os a (world h) of (rc, txt, w) \<Rightarrow> Ok ((rc, txt), h\<lparr>world := w\<rparr>))"

text \<open>
  The loop over \<^verbatim>\<open>ifa_next\<close>. Its result: whether the function returned from inside the loop, the return
  code, the entries filled in, and \<^verbatim>\<open>numFoundIfs\<close>.
\<close>

fun scan_interfaces ::
    "'w os \<Rightarrow> nat \<Rightarrow> ifaddr list \<Rightarrow> i32 \<Rightarrow> IF_DATA list \<Rightarrow> nat \<Rightarrow> ('w, bool \<times> i32 \<times> IF_DATA list \<times> nat) M" where
  "scan_interfaces os numIfs [] rc if_d numFoundIfs = returnM (False, rc, if_d, numFoundIfs)"
| "scan_interfaces os numIfs (ifa # next) rc if_d numFoundIfs =
     (case ifa_addr ifa of
        None \<Rightarrow> scan_interfaces os numIfs next rc if_d numFoundIfs
      | Some a \<Rightarrow>
          if ucast (sa_family a) \<noteq> AF_INET then scan_interfaces os numIfs next rc if_d numFoundIfs
          else if ifa_flags ifa AND IFF_UP \<noteq> 0 \<and> ifa_flags ifa AND IFF_MULTICAST \<noteq> 0 \<and>
                  ifa_flags ifa AND IFF_LOOPBACK = 0 then
            if numFoundIfs + 1 > numIfs then scan_interfaces os numIfs next rc if_d (numFoundIfs + 1)
            else
              bindM (getnameinfo os a) (\<lambda>(rc, addr).
              if rc \<noteq> 0 then returnM (True, SOCKET_ERROR, if_d, numFoundIfs)
              else scan_interfaces os numIfs next rc
                     (if_d @ [\<lparr>if_addr = addr, if_name = take NI_MAXHOST (ifa_name ifa), if_sa = a\<rparr>])
                     (numFoundIfs + 1))
          else scan_interfaces os numIfs next rc if_d numFoundIfs)"

definition populateInterfaceData :: "'w os \<Rightarrow> nat \<Rightarrow> ('w, i32 \<times> IF_DATA list \<times> nat) M" where
  "populateInterfaceData os numIfs =
     bindM (syscall_out (os_getifaddrs os)) (\<lambda>(rc, ifaddrs).
     if rc = SOCKET_ERROR then returnM (rc, [], numIfs)
     else
       bindM (scan_interfaces os numIfs ifaddrs rc [] 0) (\<lambda>(early, rc, if_d, numFoundIfs).
       if early then returnM (rc, if_d, numIfs)
       else if numFoundIfs > numIfs then
         bindM (set_error ENOMEM) (\<lambda>_. returnM (SOCKET_ERROR, if_d, numFoundIfs))
       else returnM (rc, if_d, numFoundIfs)))"

section \<open>The pair of panels on one interface\<close>

text \<open>\<^verbatim>\<open>IF_PANEL\<close> is the pair of the panels \<^verbatim>\<open>hs\<close> (announcements) and \<^verbatim>\<open>cs\<close> (connection).\<close>

type_synonym IF_PANEL = "ptr \<times> ptr"

definition read_options :: "'w os \<Rightarrow> string option \<Rightarrow> ('w, unit) M" where
  "read_options os optrc = (\<lambda>h.
     bindO (ReadOptions (\<lambda>name. os_fopen os name (world h)) optrc (OPT h)) (\<lambda>opt. Ok ((), h\<lparr>OPT := opt\<rparr>)))"

definition setup_hs :: "'w os \<Rightarrow> options \<Rightarrow> IF_DATA \<Rightarrow> ptr \<Rightarrow> ('w, i32) M" where
  "setup_hs os opt i hs =
     checkM (BindPanel os hs (Some (if_addr i)) (mcastport opt) 1)
     (checkM (SetDestination os hs (Some (mcastip opt)) (mcastport opt))
     (checkM (JoinMulticastGroup os hs None)
     (checkM (SetMulticastSendInterface os hs (if_sa i))
     (SetMulticastLoopback os hs 1))))"

text \<open>\<^verbatim>\<open>buildIfPanel\<close> in two halves: from the creation of \<^verbatim>\<open>cs\<close> on, and the whole.\<close>

definition build_cs :: "'w os \<Rightarrow> options \<Rightarrow> IF_DATA \<Rightarrow> ptr \<Rightarrow> ('w, i32 \<times> IF_PANEL) M" where
  "build_cs os opt i hs =
     bindM (CreatePanel os AF_INET SOCK_STREAM IPPROTO_TCP) (\<lambda>cs.
     if cs = NULL then returnM (SOCKET_ERROR, (hs, cs))
     else
       bindM (BindPanel os cs (Some (if_addr i)) (tcpport opt) 1) (\<lambda>rc.
       if rc = SOCKET_ERROR then returnM (rc, (hs, cs)) else returnM (0, (hs, cs))))"

definition buildIfPanel :: "'w os \<Rightarrow> IF_PANEL \<Rightarrow> IF_DATA \<Rightarrow> ('w, i32 \<times> IF_PANEL) M" where
  "buildIfPanel os p i =
     bindM (CreatePanel os AF_INET SOCK_DGRAM IPPROTO_UDP) (\<lambda>hs.
     if hs = NULL then returnM (SOCKET_ERROR, (hs, snd p))
     else
       bindM (getM OPT) (\<lambda>opt.
       bindM (setup_hs os opt i hs) (\<lambda>rc.
       if rc = SOCKET_ERROR then returnM (rc, (hs, snd p)) else build_cs os opt i hs)))"

section \<open>Announcing\<close>

text \<open>The twelve bytes of \<^verbatim>\<open>struct announce_msg\<close>; the address is copied as it is in the panel.\<close>

definition announce_msg :: "u32 \<Rightarrow> u32 \<Rightarrow> u16 \<Rightarrow> u8 list" where
  "announce_msg magic addr port =
     le_bytes 4 (htonl magic) @ le_bytes 4 addr @ le_bytes 2 (htons port) @ le_bytes 2 (0 :: u16)"

text \<open>A debug message that prints the destination of a panel.\<close>

definition dbg_dest :: "'w os \<Rightarrow> ptr \<Rightarrow> ('w, unit) M" where
  "dbg_dest os p = bindM (load p) (\<lambda>v.
     case FormatAddr os (sp_dest v) of Ok _ \<Rightarrow> returnM () | Fault e \<Rightarrow> faultM e)"

fun build_panels :: "'w os \<Rightarrow> IF_PANEL list \<Rightarrow> nat \<Rightarrow> IF_DATA list \<Rightarrow> ('w, i32 \<times> IF_PANEL list) M" where
  "build_panels os ifp i [] = returnM (0, ifp)"
| "build_panels os ifp i (d # ds) =
     bindM (buildIfPanel os (ifp ! i) d) (\<lambda>(rc, p).
     if rc = SOCKET_ERROR then returnM (rc, ifp[i := p])
     else build_panels os (ifp[i := p]) (Suc i) ds)"

fun listen_all :: "'w os \<Rightarrow> IF_PANEL list \<Rightarrow> ('w, i32) M" where
  "listen_all os [] = returnM 0"
| "listen_all os ((hs, cs) # ps) =
     bindM (load cs) (\<lambda>v. checkM (syscall (os_listen os (sp_socket v) 1)) (listen_all os ps))"

fun send_announce :: "'w os \<Rightarrow> u32 \<Rightarrow> u16 \<Rightarrow> IF_PANEL list \<Rightarrow> ('w, i32) M" where
  "send_announce os magic port [] = returnM 0"
| "send_announce os magic port ((hs, cs) # ps) =
     bindM (load cs) (\<lambda>c.
     bindM (load hs) (\<lambda>v.
     checkM (syscall (os_sendto os (sp_socket v) (announce_msg magic (sin_addr (sp_bind c)) port) (sp_dest v)))
       (send_announce os magic port ps)))"

fun cs_sockets :: "IF_PANEL list \<Rightarrow> ('w, u32 list) M" where
  "cs_sockets [] = returnM []"
| "cs_sockets ((hs, cs) # ps) = bindM (load cs) (\<lambda>v. bindM (cs_sockets ps) (\<lambda>ss. returnM (sp_socket v # ss)))"

fun accept_first :: "'w os \<Rightarrow> u32 list \<Rightarrow> IF_PANEL list \<Rightarrow> ('w, i32) M" where
  "accept_first os ready [] = returnM INVALID_SOCKET"
| "accept_first os ready ((hs, cs) # ps) =
     bindM (load cs) (\<lambda>v.
     if sp_socket v \<in> set ready then
       bindM (sys_accept os (sp_socket v)) (\<lambda>(s, a).
       bindM (if s < 0 then returnM () else update_panel cs (\<lambda>v. v\<lparr>sp_dest := a\<rparr>)) (\<lambda>_.
       bindM (dbg_dest os cs) (\<lambda>_. returnM s)))
     else accept_first os ready ps)"

text \<open>
  One round of the announcing loop: announce on every interface and wait for a tenth of a second
  (\<open>None\<close> is \<^verbatim>\<open>goto err\<close>), then accept a connection if one came in.
\<close>

definition announce_and_wait :: "'w os \<Rightarrow> IF_PANEL list \<Rightarrow> nat \<Rightarrow> ('w, (i32 \<times> u32 list) option) M" where
  "announce_and_wait os ifp n =
     bindM (getM OPT) (\<lambda>opt.
     bindM (\<lambda>h. bindO (atoi (tcpport opt)) (\<lambda>port. Ok (port, h))) (\<lambda>port.
     bindM (send_announce os (magicnum opt) (word_of_int port) (take n ifp)) (\<lambda>rc.
     if rc = SOCKET_ERROR then returnM None
     else
       bindM (dbg_dest os (fst (ifp ! 0))) (\<lambda>_.
       bindM (cs_sockets (take n ifp)) (\<lambda>ss.
       bindM (syscall_out (os_select os ss (Some 100000))) (\<lambda>(rc, ready, tv).
       if rc < 0 then returnM None else returnM (Some (rc, ready))))))))"

datatype announce_result = Ann_Err | Ann_Next | Ann_Done i32

definition announce_round :: "'w os \<Rightarrow> IF_PANEL list \<Rightarrow> nat \<Rightarrow> ('w, announce_result) M" where
  "announce_round os ifp n =
     bindM (announce_and_wait os ifp n) (\<lambda>r.
     case r of
       None \<Rightarrow> returnM Ann_Err
     | Some (rc, ready) \<Rightarrow>
         if rc = 0 then returnM Ann_Next
         else
           bindM (accept_first os ready (take n ifp)) (\<lambda>s.
           returnM (if s \<noteq> INVALID_SOCKET then Ann_Done s else Ann_Next)))"

text \<open>The announcing loop: \<open>None\<close> is \<^verbatim>\<open>goto err\<close>, \<open>Some s\<close> is leaving the loop with that socket.\<close>

fun announce_loop :: "'w os \<Rightarrow> nat \<Rightarrow> i32 \<Rightarrow> i32 \<Rightarrow> IF_PANEL list \<Rightarrow> nat \<Rightarrow> ('w, i32 option) M" where
  "announce_loop os fuel num_packets cnt ifp n =
     (if \<not> (num_packets = 0 \<or> cnt < num_packets) then returnM (Some INVALID_SOCKET)
      else case fuel of
        0 \<Rightarrow> faultM No_Return
      | Suc fuel \<Rightarrow>
          bindM (announce_round os ifp n) (\<lambda>r.
          case r of
            Ann_Err \<Rightarrow> returnM None
          | Ann_Next \<Rightarrow> announce_loop os fuel num_packets (cnt + 1) ifp n
          | Ann_Done s \<Rightarrow> returnM (Some s)))"

declare announce_loop.simps [simp del]

text \<open>Releasing everything after the loop; \<open>False\<close> is \<^verbatim>\<open>goto err\<close>.\<close>

fun cleanup :: "'w os \<Rightarrow> i32 \<Rightarrow> IF_PANEL list \<Rightarrow> ('w, bool) M" where
  "cleanup os s [] = returnM True"
| "cleanup os s ((hs, cs) # ps) =
     bindM (load cs) (\<lambda>v.
     bindM (if word_of_int s = sp_socket v then DissociatePanel cs else FreePanel os cs) (\<lambda>_.
     bindM (LeaveMulticastGroup os hs None) (\<lambda>rc.
     if rc = SOCKET_ERROR then returnM False
     else bindM (FreePanel os hs) (\<lambda>_. cleanup os s ps))))"

fun free_pairs :: "'w os \<Rightarrow> IF_PANEL list \<Rightarrow> ('w, unit) M" where
  "free_pairs os [] = returnM ()"
| "free_pairs os ((hs, cs) # ps) =
     bindM (FreePanel os hs) (\<lambda>_. bindM (FreePanel os cs) (\<lambda>_. free_pairs os ps))"

text \<open>The error exit: indices run to the larger of \<^verbatim>\<open>ifd_length\<close> and the size of the array.\<close>

definition announce_err :: "'w os \<Rightarrow> IF_PANEL list \<Rightarrow> nat \<Rightarrow> ('w, i32) M" where
  "announce_err os ifp n =
     bindM (free_pairs os ifp) (\<lambda>_.
     if MAX_IF_LENGTH < n then faultM Out_Of_Bounds else returnM INVALID_SOCKET)"

text \<open>The stages of \<^verbatim>\<open>announce\<close>: the end after the loop, the part from \<^verbatim>\<open>listen\<close> on, and the entry.\<close>

definition announce_finish :: "'w os \<Rightarrow> IF_PANEL list \<Rightarrow> nat \<Rightarrow> i32 option \<Rightarrow> ('w, i32) M" where
  "announce_finish os ifp n r =
     (case r of
        None \<Rightarrow> announce_err os ifp n
      | Some s \<Rightarrow>
          bindM (cleanup os s (take n ifp)) (\<lambda>ok.
          if ok then returnM s else announce_err os ifp n))"

definition announce_serve :: "'w os \<Rightarrow> nat \<Rightarrow> IF_PANEL list \<Rightarrow> nat \<Rightarrow> ('w, i32) M" where
  "announce_serve os fuel ifp n =
     bindM (listen_all os (take n ifp)) (\<lambda>rc.
     if rc = SOCKET_ERROR then announce_err os ifp n
     else
       bindM (getM OPT) (\<lambda>opt.
       if \<not> in_int_range (timeout opt * PACKETS_PER_SEC) then faultM Int_Overflow
       else bindM (announce_loop os fuel (timeout opt * PACKETS_PER_SEC) 0 ifp n) (announce_finish os ifp n)))"

definition announce :: "'w os \<Rightarrow> nat \<Rightarrow> string option \<Rightarrow> ('w, i32) M" where
  "announce os fuel optrc =
     bindM (read_options os optrc) (\<lambda>_.
     let ifp = replicate MAX_IF_LENGTH (NULL, NULL) in
     bindM (populateInterfaceData os MAX_IF_LENGTH) (\<lambda>(rc, ifd, n).
     if rc = SOCKET_ERROR then announce_err os ifp n
     else
       bindM (build_panels os ifp 0 ifd) (\<lambda>(rc, ifp).
       if rc = SOCKET_ERROR then announce_err os ifp n else announce_serve os fuel ifp n)))"

section \<open>Locating\<close>

text \<open>
  The variable \<^verbatim>\<open>m\<close> of \<^verbatim>\<open>locate\<close>: twelve bytes, unassigned at first. A datagram overwrites as many of
  them as it has; the magic number is stored back in host order.
\<close>

type_synonym msg_buf = "u8 option list"

definition overlay :: "u8 list \<Rightarrow> msg_buf \<Rightarrow> msg_buf" where
  "overlay bs buf = map Some bs @ drop (length bs) buf"

definition buf_bytes :: "msg_buf \<Rightarrow> nat \<Rightarrow> nat \<Rightarrow> ('w, u8 list) M" where
  "buf_bytes buf off n =
     (let bs = take n (drop off buf) in
      if None \<in> set bs then faultM Uninitialised_Read else returnM (map the bs))"

datatype locate_result = Loc_Err | Loc_Timeout | Loc_Again nat msg_buf | Loc_Connected i32

definition locate_step :: "'w os \<Rightarrow> ptr \<Rightarrow> ptr \<Rightarrow> nat \<Rightarrow> msg_buf \<Rightarrow> ('w, locate_result) M" where
  "locate_step os hs cs tv m =
     bindM (load hs) (\<lambda>v.
     bindM (getM OPT) (\<lambda>opt.
     bindM (syscall_out (os_select os [sp_socket v] (if timeout opt > 0 then Some tv else None))) (\<lambda>(rc, ready, tv').
     if rc < 0 then returnM Loc_Err
     else if rc = 0 then returnM Loc_Timeout
     else
       bindM (syscall_out (os_recvfrom os (sp_socket v) 12)) (\<lambda>(rc, bs, from).
       if rc = SOCKET_ERROR then returnM Loc_Err
       else
         bindM (update_panel cs (\<lambda>c. c\<lparr>sp_dest := from\<rparr>)) (\<lambda>_.
         let m1 = overlay (take 12 bs) m in
         bindM (buf_bytes m1 0 4) (\<lambda>raw.
         let magic = ntohl (le_word raw); m2 = overlay (le_bytes 4 magic) m1 in
         bindM (dbg_dest os cs) (\<lambda>_.
         if magic = magicnum opt then
           bindM (buf_bytes m2 4 4) (\<lambda>addr.
           bindM (buf_bytes m2 8 2) (\<lambda>port.
           bindM (update_panel cs (\<lambda>c. c\<lparr>sp_dest := (sp_dest c)\<lparr>sin_addr := le_word addr, sin_port := le_word port\<rparr>\<rparr>)) (\<lambda>_.
           bindM (load cs) (\<lambda>c.
           bindM (syscall (os_connect os (sp_socket c) (sp_dest c))) (\<lambda>rc.
           if rc = SOCKET_ERROR then returnM Loc_Err
           else bindM (dbg_dest os cs) (\<lambda>_. returnM (Loc_Connected (sint (sp_socket c)))))))))
         else returnM (Loc_Again tv' m2))))))))"

text \<open>The loop \<^verbatim>\<open>while (socket == INVALID_SOCKET)\<close>: \<open>None\<close> is \<^verbatim>\<open>goto err\<close>.\<close>

fun locate_loop :: "'w os \<Rightarrow> nat \<Rightarrow> ptr \<Rightarrow> ptr \<Rightarrow> nat \<Rightarrow> msg_buf \<Rightarrow> ('w, i32 option) M" where
  "locate_loop os 0 hs cs tv m = faultM No_Return"
| "locate_loop os (Suc fuel) hs cs tv m =
     bindM (locate_step os hs cs tv m) (\<lambda>r.
     case r of
       Loc_Err \<Rightarrow> returnM None
     | Loc_Timeout \<Rightarrow> returnM (Some INVALID_SOCKET)
     | Loc_Again tv' m' \<Rightarrow> locate_loop os fuel hs cs tv' m'
     | Loc_Connected s \<Rightarrow>
         if s = INVALID_SOCKET then locate_loop os fuel hs cs tv m else returnM (Some s))"

fun join_all :: "'w os \<Rightarrow> ptr \<Rightarrow> IF_DATA list \<Rightarrow> ('w, i32) M" where
  "join_all os hs [] = returnM 0"
| "join_all os hs (d # ds) = checkM (JoinMulticastGroup os hs (Some (if_addr d))) (join_all os hs ds)"

definition locate_err :: "'w os \<Rightarrow> ptr \<Rightarrow> ptr \<Rightarrow> ('w, i32) M" where
  "locate_err os hs cs = bindM (FreePanel os hs) (\<lambda>_. bindM (FreePanel os cs) (\<lambda>_. returnM INVALID_SOCKET))"

definition setup_locate_hs :: "'w os \<Rightarrow> options \<Rightarrow> IF_DATA list \<Rightarrow> ptr \<Rightarrow> ('w, i32) M" where
  "setup_locate_hs os opt ifd hs =
     checkM (BindPanel os hs None (mcastport opt) 1)
     (checkM (SetDestination os hs (Some (mcastip opt)) (mcastport opt))
     (checkM (join_all os hs ifd)
     (SetMulticastLoopback os hs 1)))"

text \<open>The three stages of \<^verbatim>\<open>locate\<close>: waiting for the announcement, opening the sockets, and the entry.\<close>

definition locate_wait :: "'w os \<Rightarrow> nat \<Rightarrow> options \<Rightarrow> ptr \<Rightarrow> ptr \<Rightarrow> ('w, i32) M" where
  "locate_wait os fuel opt hs cs =
     bindM (locate_loop os fuel hs cs (nat (timeout opt) * 1000000) (replicate 12 None)) (\<lambda>r.
     case r of
       None \<Rightarrow> locate_err os hs cs
     | Some s \<Rightarrow> bindM (FreePanel os hs) (\<lambda>_. bindM (DissociatePanel cs) (\<lambda>_. returnM s)))"

definition locate_open :: "'w os \<Rightarrow> nat \<Rightarrow> options \<Rightarrow> IF_DATA list \<Rightarrow> ptr \<Rightarrow> ('w, i32) M" where
  "locate_open os fuel opt ifd hs =
     bindM (setup_locate_hs os opt ifd hs) (\<lambda>rc.
     if rc = SOCKET_ERROR then locate_err os hs NULL
     else
       bindM (CreateBoundPanel os ''0'' AF_INET SOCK_STREAM IPPROTO_TCP) (\<lambda>cs.
       if cs = NULL then locate_err os hs cs else locate_wait os fuel opt hs cs))"

definition locate :: "'w os \<Rightarrow> nat \<Rightarrow> string option \<Rightarrow> ('w, i32) M" where
  "locate os fuel optrc =
     bindM (read_options os optrc) (\<lambda>_.
     bindM (populateInterfaceData os MAX_IF_LENGTH) (\<lambda>(rc, ifd, n).
     if rc = SOCKET_ERROR then locate_err os NULL NULL
     else
       bindM (CreatePanel os AF_INET SOCK_DGRAM IPPROTO_UDP) (\<lambda>hs.
       if hs = NULL then locate_err os hs NULL
       else bindM (getM OPT) (\<lambda>opt. locate_open os fuel opt ifd hs))))"

text \<open>A buffer all of whose bytes are assigned.\<close>

lemma buf_bytes_Some: "buf_bytes (map Some xs) off n = returnM (take n (drop off xs))"
  by (auto simp: buf_bytes_def Let_def take_map drop_map comp_def)

lemma overlay_Some: "overlay ys (map Some xs) = map Some (ys @ drop (length ys) xs)"
  by (simp add: overlay_def drop_map)

section \<open>The interfaces found\<close>

text \<open>The interfaces the scan selects.\<close>

definition usable :: "ifaddr \<Rightarrow> bool" where
  "usable ifa \<longleftrightarrow> (case ifa_addr ifa of None \<Rightarrow> False | Some a \<Rightarrow>
     ucast (sa_family a) = AF_INET \<and> ifa_flags ifa AND IFF_UP \<noteq> 0 \<and> ifa_flags ifa AND IFF_MULTICAST \<noteq> 0 \<and>
     ifa_flags ifa AND IFF_LOOPBACK = 0)"

lemma quietM_getnameinfo [quiet_intros]: "quietM (getnameinfo os a)"
  by (auto simp: runsM_def getnameinfo_def quiet_def split: prod.splits)

lemma quietM_read_options [quiet_intros]: "quietM (read_options os optrc)"
  by (auto simp: runsM_def read_options_def quiet_def bindO_eq_Ok_conv)

lemma quietM_scan [quiet_intros]: "quietM (scan_interfaces os m ifas rc ds n)"
  by (induction ifas arbitrary: rc ds n) (auto intro!: quiet_intros split: option.split)

lemma quietM_populate [quiet_intros]: "quietM (populateInterfaceData os m)"
  unfolding populateInterfaceData_def by (auto intro!: quiet_intros split: prod.split)

lemma quietM_dbg_dest [quiet_intros]: "quietM (dbg_dest os p)"
  unfolding dbg_dest_def by (auto intro!: quiet_intros split: outcome.split)

lemma quietM_listen_all [quiet_intros]: "quietM (listen_all os ps)"
  by (induction ps rule: listen_all.induct) (auto intro!: quiet_intros)

lemma quietM_send_announce [quiet_intros]: "quietM (send_announce os magic port ps)"
  by (induction os magic port ps rule: send_announce.induct) (auto intro!: quiet_intros)

lemma quietM_cs_sockets [quiet_intros]: "quietM (cs_sockets ps)"
  by (induction ps rule: cs_sockets.induct) (auto intro!: quiet_intros)

lemma scan_interfaces_result:
  "scan_interfaces os m ifas rc ds n h = Ok ((early, rc', ds', n'), h') \<Longrightarrow>
     length ds = min n m \<Longrightarrow>
     length ds' \<le> m \<and> (early \<longrightarrow> rc' = SOCKET_ERROR) \<and>
     (\<not> early \<longrightarrow> (rc = 0 \<longrightarrow> rc' = 0) \<and> n' = n + length (filter usable ifas) \<and> length ds' = min n' m \<and>
        map (\<lambda>d. (if_name d, Some (if_sa d))) ds' =
          map (\<lambda>d. (if_name d, Some (if_sa d))) ds @
          take (m - n) (map (\<lambda>i. (take NI_MAXHOST (ifa_name i), ifa_addr i)) (filter usable ifas)))"
proof (induction ifas arbitrary: rc ds n h)
  case Nil
  then show ?case by (auto simp: returnM_def)
next
  case (Cons ifa ifas)
  show ?case
  proof (cases "usable ifa")
    case False
    then have eq: "scan_interfaces os m (ifa # ifas) rc ds n = scan_interfaces os m ifas rc ds n"
      by (auto simp: usable_def split: option.splits)
    show ?thesis using Cons.IH [OF Cons.prems(1) [unfolded eq] Cons.prems(2)] False by simp
  next
    case True
    then obtain a where a: "ifa_addr ifa = Some a" by (auto simp: usable_def split: option.splits)
    show ?thesis
    proof (cases "n + 1 > m")
      case over: True
      have "scan_interfaces os m (ifa # ifas) rc ds n = scan_interfaces os m ifas rc ds (n + 1)"
        using True a over by (auto simp: usable_def)
      then show ?thesis
        using Cons.IH [of rc ds "n + 1" h] Cons.prems True over by (auto simp: min_def)
    next
      case False
      obtain rc1 addr h1 where g: "getnameinfo os a h = Ok ((rc1, addr), h1)"
        by (cases "os_getnameinfo os a (world h)") (simp add: getnameinfo_def)
      let ?d = "\<lparr>if_addr = addr, if_name = take NI_MAXHOST (ifa_name ifa), if_sa = a\<rparr>"
      have "scan_interfaces os m (ifa # ifas) rc ds n h =
          (if rc1 \<noteq> 0 then Ok ((True, SOCKET_ERROR, ds, n), h1)
           else scan_interfaces os m ifas rc1 (ds @ [?d]) (n + 1) h1)"
        using True a False g by (auto simp: usable_def bindM_def returnM_def)
      moreover have "m - n = Suc (m - (n + 1))" using False by simp
      ultimately show ?thesis
        using Cons.IH [of rc1 "ds @ [?d]" "n + 1" h1] Cons.prems True False a
        by (auto split: if_splits)
    qed
  qed
qed

end
