(* ===== verification/Discovery_Resources.thy ===== *)
theory Discovery_Resources
  imports Discovery
begin

text \<open>
  What announcing and locating do to panels and sockets: on every path that returns each panel is
  released, and the sockets that stay open are accounted for. The last section runs the code on
  systems where it goes wrong.
\<close>

section \<open>Panels and sockets of the locating side\<close>

interpretation join_all: panel_operation "\<lambda>hs. join_all os hs ds" for os ds
proof -
  show "panel_operation (\<lambda>hs. join_all os hs ds)"
    by (induction ds)
      (simp_all add: panel_operation_return panel_operation_check join.panel_operation_axioms)
qed

interpretation setup_hs: panel_operation "\<lambda>hs. setup_hs os opt i hs" for os opt i
  unfolding setup_hs_def
  by (intro panel_operation_check bind.panel_operation_axioms dest.panel_operation_axioms
      join.panel_operation_axioms sendif.panel_operation_axioms loopback.panel_operation_axioms)

interpretation setup_locate_hs: panel_operation "\<lambda>hs. setup_locate_hs os opt ifd hs" for os opt ifd
  unfolding setup_locate_hs_def
  by (intro panel_operation_check bind.panel_operation_axioms dest.panel_operation_axioms
      join_all.panel_operation_axioms loopback.panel_operation_axioms)

lemma stepsM_dbg_dest [steps_intros]: "stepsM p (dbg_dest os q)"
  unfolding dbg_dest_def by (auto intro!: steps_intros split: outcome.split)

lemma stepsM_buf_bytes [steps_intros]: "stepsM p (buf_bytes buf off n)"
  unfolding buf_bytes_def by (auto intro!: steps_intros simp: Let_def)

lemma stepsM_locate_step [steps_intros]: "stepsM cs (locate_step os hs cs tv m)"
  unfolding locate_step_def by (auto intro!: steps_intros simp: Let_def split: prod.split)

lemma locate_step_connected:
  assumes "locate_step os hs cs tv m h = Ok (Loc_Connected s, h')"
  shows "s = sint (socket_at h' cs)"
proof -
  from assms obtain c h1 rc h2 where "load cs h1 = Ok (c, h1)"
    and 2: "syscall (os_connect os (sp_socket c) (sp_dest c)) h1 = Ok (rc, h2)"
    and 3: "dbg_dest os cs h2 = Ok ((), h')" and s: "s = sint (sp_socket c)"
    by (auto simp: locate_step_def bindM_eq_Ok_conv returnM_def Let_def load_Ok_conv
        split: if_splits prod.splits)
  then have "socket_at h1 cs = sp_socket c" by (simp add: load_Ok_conv socket_at_def)
  moreover have "quiet h1 h'"
    using runsMD [OF quiet.runs_basic(5) 2] runsMD [OF quietM_dbg_dest 3] by (rule quiet_trans)
  ultimately show ?thesis using s by (simp add: quiet_def socket_at_def)
qed

lemma locate_loop_owned:
  assumes "owned P X h0 h" and "cs \<in> P" and "locate_loop os fuel hs cs tv m h = Ok (r, h')"
  shows "owned P X h0 h' \<and> (case r of Some s \<Rightarrow> s \<noteq> INVALID_SOCKET \<longrightarrow> s = sint (socket_at h' cs) | None \<Rightarrow> True)"
  using assms
proof (induction os fuel hs cs tv m arbitrary: h rule: locate_loop.induct)
  case (1 os hs cs tv m)
  then show ?case by (simp add: faultM_def)
next
  case (2 os fuel hs cs tv m)
  note prems = "2.prems"
  obtain x h1 where x: "locate_step os hs cs tv m h = Ok (x, h1)"
    and rest: "(case x of Loc_Err \<Rightarrow> returnM None | Loc_Timeout \<Rightarrow> returnM (Some INVALID_SOCKET)
       | Loc_Again tv' m' \<Rightarrow> locate_loop os fuel hs cs tv' m'
       | Loc_Connected s \<Rightarrow> if s = INVALID_SOCKET then locate_loop os fuel hs cs tv m else returnM (Some s)) h1 = Ok (r, h')"
    using prems(3) by (auto simp: bindM_eq_Ok_conv)
  have o: "owned P X h0 h1"
    using owned_stepsM [OF prems(1,2) stepsM_locate_step x] .
  show ?case
  proof (cases x)
    case (Loc_Connected s)
    then show ?thesis
      using rest o prems(2) x locate_step_connected "2.IH"(2) [OF refl, of h1]
      by (auto simp: returnM_def split: if_splits)
  next
    case (Loc_Again tv' m')
    then show ?thesis using rest "2.IH"(1) [OF o prems(2)] Loc_Again by simp
  qed (use rest o in \<open>auto simp: returnM_def\<close>)
qed

lemma locate_err_owned:
  assumes "owned P {#} h0 h" and "P = {hs, cs} - {NULL}" and "hs = NULL \<or> hs \<noteq> cs"
    and "locate_err os hs cs h = Ok (s, h')"
  shows "s = INVALID_SOCKET \<and> heap h' = heap h0 \<and> fds h' = fds h0 \<and> wf_host h'"
proof -
  obtain h1 where 1: "FreePanel os hs h = Ok ((), h1)" and 2: "FreePanel os cs h1 = Ok ((), h')"
    and s: "s = INVALID_SOCKET"
    using assms(4) by (auto simp: locate_err_def bindM_eq_Ok_conv returnM_def)
  have "owned (P - {hs}) {#} h0 h1"
    using owned_free [OF assms(1) _ 1] 1 assms(1,2) by (cases "hs = NULL") (auto simp: FreePanel_def returnM_def)
  moreover have "cs = NULL \<or> cs \<in> P - {hs}" using assms(2,3) by auto
  ultimately have "owned (P - {hs} - {cs}) {#} h0 h'"
    using owned_free [OF _ _ 2] 2 assms(2) by (cases "cs = NULL") (auto simp: FreePanel_def returnM_def)
  moreover have "P - {hs} - {cs} = {}" using assms(2) by auto
  ultimately show ?thesis using s owned_end [of "{#}" h0 h'] by simp
qed

text \<open>What \<^verbatim>\<open>locate\<close> leaves behind when it returns the socket \<open>s\<close>.\<close>

definition locate_leaves :: "i32 \<Rightarrow> 'w host \<Rightarrow> 'w host \<Rightarrow> bool" where
  "locate_leaves s h0 h \<longleftrightarrow> heap h = heap h0 \<and> wf_host h \<and>
     (if s = INVALID_SOCKET then fds h = fds h0 \<or> (\<exists>c. fds h = add_mset c (fds h0))
      else fds h = add_mset (word_of_int s) (fds h0))"

lemma locate_err_leaves:
  assumes "owned P {#} h0 h" and "P = {hs, cs} - {NULL}" and "hs = NULL \<or> hs \<noteq> cs"
    and "locate_err os hs cs h = Ok (s, h')"
  shows "locate_leaves s h0 h'"
  using locate_err_owned [OF assms] by (simp add: locate_leaves_def)

lemma locate_wait_leaves:
  assumes "owned {hs, cs} {#} h0 h" and "hs \<noteq> cs" and "locate_wait os fuel opt hs cs h = Ok (s, h')"
  shows "locate_leaves s h0 h'"
proof -
  have nn: "hs \<noteq> NULL" "cs \<noteq> NULL" using owned_live [OF assms(1)] by auto
  obtain r h1 where 1: "locate_loop os fuel hs cs (nat (timeout opt) * 1000000) (replicate 12 None) h = Ok (r, h1)"
    and 2: "(case r of None \<Rightarrow> locate_err os hs cs
      | Some s \<Rightarrow> bindM (FreePanel os hs) (\<lambda>_. bindM (DissociatePanel cs) (\<lambda>_. returnM s))) h1 = Ok (s, h')"
    using assms(3) by (auto simp: locate_wait_def bindM_eq_Ok_conv)
  have o: "owned {hs, cs} {#} h0 h1"
    and s1: "case r of Some s \<Rightarrow> s \<noteq> INVALID_SOCKET \<longrightarrow> s = sint (socket_at h1 cs) | None \<Rightarrow> True"
    using locate_loop_owned [OF assms(1) _ 1] by auto
  show ?thesis
  proof (cases r)
    case None
    then show ?thesis using 2 locate_err_leaves [OF o _ disjI2 [OF assms(2)]] nn by simp
  next
    case (Some t)
    then obtain h2 where 3: "FreePanel os hs h1 = Ok ((), h2)" and 4: "DissociatePanel cs h2 = Ok ((), h')" and t: "s = t"
      using 2 by (auto simp: bindM_eq_Ok_conv returnM_def)
    have o2: "owned {cs} {#} h0 h2" using owned_free [OF o _ 3] assms(2) by auto
    have "socket_at h2 cs = socket_at h1 cs"
      using 3 nn assms(2) by (auto simp: FreePanel_def monad_defs sys_defs socket_at_def split: if_splits option.splits)
    then show ?thesis
      using owned_end [of "{#socket_at h2 cs#}" h0 h'] owned_dissociate [OF o2 _ 4] s1 Some t
      by (auto simp: locate_leaves_def)
  qed
qed

lemma locate_open_leaves:
  assumes "owned {hs} {#} h0 h" and "locate_open os fuel opt ifd hs h = Ok (s, h')"
  shows "locate_leaves s h0 h'"
proof -
  have nn: "hs \<noteq> NULL" using owned_live [OF assms(1)] by auto
  obtain rc h1 where 1: "setup_locate_hs os opt ifd hs h = Ok (rc, h1)"
    and 2: "(if rc = SOCKET_ERROR then locate_err os hs NULL else
       bindM (CreateBoundPanel os ''0'' AF_INET SOCK_STREAM IPPROTO_TCP) (\<lambda>cs.
       if cs = NULL then locate_err os hs cs else locate_wait os fuel opt hs cs)) h1 = Ok (s, h')"
    using assms(2) by (auto simp: locate_open_def bindM_eq_Ok_conv)
  have o1: "owned {hs} {#} h0 h1" using owned_stepsM [OF assms(1) _ setup_locate_hs.steps 1] by simp
  have err: "locate_leaves s h0 h'" if "owned {hs} {#} h0 g" "locate_err os hs NULL g = Ok (s, h')" for g
    using locate_err_leaves [OF that(1) _ _ that(2)] nn by auto
  show ?thesis
  proof (cases "rc = SOCKET_ERROR")
    case True
    then show ?thesis using 2 err [OF o1] by simp
  next
    case False
    then obtain cs h2 where 3: "CreateBoundPanel os ''0'' AF_INET SOCK_STREAM IPPROTO_TCP h1 = Ok (cs, h2)"
      and 4: "(if cs = NULL then locate_err os hs cs else locate_wait os fuel opt hs cs) h2 = Ok (s, h')"
      using 2 by (auto simp: bindM_eq_Ok_conv)
    note c = owned_created [OF o1, of cs h2] CreateBoundPanel_created [OF owned_wf [OF o1] 3]
    show ?thesis
    proof (cases "cs = NULL")
      case True
      then show ?thesis using c 4 err [of h2] by simp
    next
      case False
      then have "owned {hs, cs} {#} h0 h2" "hs \<noteq> cs" using c by (auto simp: insert_commute)
      then show ?thesis using 4 False locate_wait_leaves by simp
    qed
  qed
qed

lemma locate_accounts:
  assumes "wf_host h" and "locate os fuel optrc h = Ok (s, h')"
  shows "locate_leaves s h h'"
proof -
  obtain h1 rc ifd n h2 where 1: "read_options os optrc h = Ok ((), h1)"
    and 2: "populateInterfaceData os MAX_IF_LENGTH h1 = Ok ((rc, ifd, n), h2)"
    and 3: "(if rc = SOCKET_ERROR then locate_err os NULL NULL else
       bindM (CreatePanel os AF_INET SOCK_DGRAM IPPROTO_UDP) (\<lambda>hs.
       if hs = NULL then locate_err os hs NULL
       else bindM (getM OPT) (\<lambda>opt. locate_open os fuel opt ifd hs))) h2 = Ok (s, h')"
    using assms(2) by (auto simp: locate_def bindM_eq_Ok_conv)
  have o2: "owned {} {#} h h2"
    using owned_quietM [OF owned_quietM [OF owned_start [OF assms(1)] quietM_read_options 1] quietM_populate 2] .
  show ?thesis
  proof (cases "rc = SOCKET_ERROR")
    case True
    then show ?thesis using 3 locate_err_leaves [OF o2, of NULL NULL] by simp
  next
    case False
    then obtain hs h3 where 4: "CreatePanel os AF_INET SOCK_DGRAM IPPROTO_UDP h2 = Ok (hs, h3)"
      and 5: "(if hs = NULL then locate_err os hs NULL
        else bindM (getM OPT) (\<lambda>opt. locate_open os fuel opt ifd hs)) h3 = Ok (s, h')"
      using 3 by (auto simp: bindM_eq_Ok_conv)
    note c = owned_created [OF o2, of hs h3] CreatePanel_created [OF owned_wf [OF o2] 4]
    show ?thesis
      using c 5 locate_err_leaves [of "{}" h h3 NULL NULL] locate_open_leaves [of hs h h3]
      by (cases "hs = NULL") (auto simp: bindM_def getM_def)
  qed
qed

section \<open>Panels and sockets of the announcing side\<close>

lemma populateInterfaceData_length:
  assumes "populateInterfaceData os m h = Ok ((rc, ifd, n), h')" and "rc \<noteq> SOCKET_ERROR"
  shows "n = length ifd \<and> n \<le> m"
proof -
  obtain rc0 ifas h1 early rc1 ifd1 n1 h2 where
    s: "scan_interfaces os m ifas rc0 [] 0 h1 = Ok ((early, rc1, ifd1, n1), h2)"
    and r: "(if early then returnM (rc1, ifd1, m)
       else if n1 > m then bindM (set_error ENOMEM) (\<lambda>_. returnM (SOCKET_ERROR, ifd1, n1))
       else returnM (rc1, ifd1, n1)) h2 = Ok ((rc, ifd, n), h')"
    using assms by (auto simp: populateInterfaceData_def bindM_eq_Ok_conv returnM_def [of "(_, [], _)"] split: if_splits)
  show ?thesis
    using scan_interfaces_result [OF s] r assms(2)
    by (cases early) (auto simp: monad_defs set_error_def split: if_splits)
qed

text \<open>The panels in an array of pairs, in order.\<close>

definition plist :: "IF_PANEL list \<Rightarrow> ptr list" where
  "plist ifp = filter (\<lambda>p. p \<noteq> NULL) (concat (map (\<lambda>(hs, cs). [hs, cs]) ifp))"

lemma plist_Nil [simp]: "plist [] = []"
  by (simp add: plist_def)

lemma plist_append [simp]: "plist (xs @ ys) = plist xs @ plist ys"
  by (simp add: plist_def)

lemma plist_Cons: "plist ((hs, cs) # ps) = (if hs = NULL then [] else [hs]) @ (if cs = NULL then [] else [cs]) @ plist ps"
  by (simp add: plist_def)

lemma plist_replicate [simp]: "plist (replicate k (NULL, NULL)) = []"
  by (induction k) (simp_all add: plist_Cons)

text \<open>The account after a step that adds the panels of the pair \<open>(hs, cs)\<close>.\<close>

definition pair_added :: "ptr set \<Rightarrow> u32 multiset \<Rightarrow> 'w host \<Rightarrow> i32 \<Rightarrow> IF_PANEL \<Rightarrow> 'w host \<Rightarrow> bool" where
  "pair_added P X h0 rc pr h' \<longleftrightarrow> distinct (plist [pr]) \<and> set (plist [pr]) \<inter> P = {} \<and>
     owned (P \<union> set (plist [pr])) X h0 h' \<and> (rc \<noteq> SOCKET_ERROR \<longrightarrow> fst pr \<noteq> NULL \<and> snd pr \<noteq> NULL)"

lemma build_cs_owned:
  assumes "owned (insert hs P) X h0 h" and "hs \<notin> P" and "build_cs os opt d hs h = Ok ((rc, pr), h')"
  shows "pair_added P X h0 rc pr h'"
proof -
  have nn: "hs \<noteq> NULL" using owned_live [OF assms(1)] by blast
  obtain q h1 where 1: "CreatePanel os AF_INET SOCK_STREAM IPPROTO_TCP h = Ok (q, h1)"
    and r: "(if q = NULL then returnM (SOCKET_ERROR, (hs, q))
      else bindM (BindPanel os q (Some (if_addr d)) (tcpport opt) 1) (\<lambda>rc.
        if rc = SOCKET_ERROR then returnM (rc, (hs, q)) else returnM (0, (hs, q)))) h1 = Ok ((rc, pr), h')"
    using assms(3) unfolding build_cs_def bindM_eq_Ok_conv by blast
  note c = owned_created [OF assms(1), of q h1] CreatePanel_created [OF owned_wf [OF assms(1)] 1]
  show ?thesis
  proof (cases "q = NULL")
    case True
    then show ?thesis using r c assms(2) nn by (auto simp: returnM_def pair_added_def plist_Cons)
  next
    case q: False
    with c have o: "owned (insert q (insert hs P)) X h0 h1" "q \<notin> insert hs P" by auto
    obtain rc2 where b: "BindPanel os q (Some (if_addr d)) (tcpport opt) 1 h1 = Ok (rc2, h')" and pr: "pr = (hs, q)"
      using r q by (auto simp: bindM_eq_Ok_conv returnM_def split: if_splits)
    have "owned (insert q (insert hs P)) X h0 h'" using owned_stepsM [OF o(1) _ bind.steps b] by simp
    then show ?thesis using pr o(2) q nn assms(2) by (auto simp: pair_added_def plist_Cons insert_commute)
  qed
qed

lemma buildIfPanel_owned:
  assumes "owned P X h0 h" and "buildIfPanel os (NULL, NULL) d h = Ok ((rc, pr), h')"
  shows "pair_added P X h0 rc pr h'"
proof -
  obtain p h1 where 1: "CreatePanel os AF_INET SOCK_DGRAM IPPROTO_UDP h = Ok (p, h1)"
    and r: "(if p = NULL then returnM (SOCKET_ERROR, (p, snd (NULL, NULL)))
      else bindM (getM OPT) (\<lambda>opt. bindM (setup_hs os opt d p) (\<lambda>rc.
        if rc = SOCKET_ERROR then returnM (rc, (p, snd (NULL, NULL))) else build_cs os opt d p))) h1 = Ok ((rc, pr), h')"
    using assms(2) unfolding buildIfPanel_def bindM_eq_Ok_conv by blast
  note c = owned_created [OF assms(1), of p h1] CreatePanel_created [OF owned_wf [OF assms(1)] 1]
  show ?thesis
  proof (cases "p = NULL")
    case True
    then show ?thesis using r c by (auto simp: returnM_def pair_added_def plist_Cons)
  next
    case p: False
    with c have o1: "owned (insert p P) X h0 h1" "p \<notin> P" by auto
    obtain rc1 h2 where 2: "setup_hs os (OPT h1) d p h1 = Ok (rc1, h2)"
      and r2: "(if rc1 = SOCKET_ERROR then returnM (rc1, (p, snd (NULL, NULL))) else build_cs os (OPT h1) d p) h2 = Ok ((rc, pr), h')"
      using r p by (simp add: bindM_eq_Ok_conv getM_def) blast
    have o2: "owned (insert p P) X h0 h2" using owned_stepsM [OF o1(1) _ setup_hs.steps 2] by simp
    show ?thesis
    proof (cases "rc1 = SOCKET_ERROR")
      case True
      then show ?thesis using r2 o2 o1(2) p by (auto simp: returnM_def pair_added_def plist_Cons)
    next
      case False
      then show ?thesis using r2 build_cs_owned [OF o2 o1(2)] by simp
    qed
  qed
qed

text \<open>The array while it is filled: \<open>done\<close> pairs of panels, then pairs of null pointers.\<close>

lemma build_panels_owned:
  assumes "owned (set (plist pre)) X h0 h" and "distinct (plist pre)"
    and "\<forall>p \<in> set pre. fst p \<noteq> NULL \<and> snd p \<noteq> NULL" and "length ds \<le> k"
    and "build_panels os (pre @ replicate k (NULL, NULL)) (length pre) ds h = Ok ((rc, ifp), h')"
  shows "owned (set (plist ifp)) X h0 h' \<and> distinct (plist ifp) \<and> length ifp = length pre + k \<and>
    (rc \<noteq> SOCKET_ERROR \<longrightarrow> (\<exists>post. ifp = post @ replicate (k - length ds) (NULL, NULL) \<and>
       length post = length pre + length ds \<and> (\<forall>p \<in> set post. fst p \<noteq> NULL \<and> snd p \<noteq> NULL)))"
  using assms
proof (induction ds arbitrary: pre k h)
  case Nil
  then show ?case by (auto simp: returnM_def)
next
  case (Cons d ds)
  then obtain k' where k: "k = Suc k'" by (cases k) auto
  have at: "(pre @ replicate k (NULL, NULL)) ! length pre = (NULL, NULL)" by (simp add: k)
  have upd: "(pre @ replicate k (NULL, NULL))[length pre := p] = (pre @ [p]) @ replicate k' (NULL, NULL)" for p
    by (simp add: k)
  obtain r h1 where b1: "buildIfPanel os (NULL, NULL) d h = Ok (r, h1)"
    and b2: "(case r of (rc, p) \<Rightarrow>
       if rc = SOCKET_ERROR then returnM (rc, (pre @ [p]) @ replicate k' (NULL, NULL))
       else build_panels os ((pre @ [p]) @ replicate k' (NULL, NULL)) (Suc (length pre)) ds) h1 = Ok ((rc, ifp), h')"
    using Cons.prems(5) unfolding build_panels.simps at upd bindM_eq_Ok_conv by blast
  obtain rc1 hs cs where r: "r = (rc1, hs, cs)" by (cases r)
  note 1 = b1 [unfolded r] and 2 = b2 [unfolded r prod.case]
  note b = buildIfPanel_owned [OF Cons.prems(1) 1]
  have o: "owned (set (plist (pre @ [(hs, cs)]))) X h0 h1" "distinct (plist (pre @ [(hs, cs)]))"
    using b Cons.prems(2) by (auto simp: pair_added_def)
  show ?case
  proof (cases "rc1 = SOCKET_ERROR")
    case True
    then show ?thesis using 2 o by (auto simp: returnM_def k plist_Cons)
  next
    case False
    then have nn: "\<forall>p \<in> set (pre @ [(hs, cs)]). fst p \<noteq> NULL \<and> snd p \<noteq> NULL"
      using b Cons.prems(3) False by (auto simp: pair_added_def)
    show ?thesis
      using Cons.IH [OF o nn, of k'] 2 False Cons.prems(4) by (auto simp: k)
  qed
qed

lemma NULL_notin_plist: "NULL \<notin> set (plist ps)"
  by (simp add: plist_def)

lemma owned_free_ptr:
  assumes "owned P X h0 h" and "p = NULL \<or> p \<in> P" and "FreePanel os p h = Ok (u, h')"
  shows "owned (P - {p}) X h0 h'"
proof (cases "p = NULL")
  case True
  then show ?thesis using assms by (simp add: FreePanel_def returnM_def owned_def)
next
  case False
  then show ?thesis using assms owned_free by blast
qed

lemma free_pairs_owned:
  assumes "owned (set (plist ifp)) X h0 h" and "distinct (plist ifp)" and "free_pairs os ifp h = Ok (u, h')"
  shows "owned {} X h0 h'"
  using assms
proof (induction os ifp arbitrary: h rule: free_pairs.induct)
  case (1 os)
  then show ?case by (simp add: returnM_def)
next
  case (2 os hs cs ps)
  obtain h1 h2 where 1: "FreePanel os hs h = Ok ((), h1)" and 2: "FreePanel os cs h1 = Ok ((), h2)"
    and 3: "free_pairs os ps h2 = Ok (u, h')"
    using "2.prems"(3) by (auto simp: bindM_eq_Ok_conv)
  let ?P = "set (plist ((hs, cs) # ps))"
  have "owned (?P - {hs}) X h0 h1"
    using owned_free_ptr [OF "2.prems"(1) _ 1] by (auto simp: plist_Cons)
  then have "owned (?P - {hs} - {cs}) X h0 h2"
    by (rule owned_free_ptr [OF _ _ 2]) (use "2.prems"(2) in \<open>auto simp: plist_Cons split: if_splits\<close>)
  moreover have "?P - {hs} - {cs} = set (plist ps)"
    using "2.prems"(2) NULL_notin_plist by (auto simp: plist_Cons split: if_splits)
  ultimately show ?case using "2.IH" "2.prems"(2) 3 by (simp add: plist_Cons)
qed

lemma FreePanel_live: "FreePanel os p h = Ok (u, h') \<Longrightarrow> (p = NULL \<or> heap h p \<noteq> None) \<and> (heap h q = None \<longrightarrow> heap h' q = None)"
  by (auto simp: FreePanel_def monad_defs sys_defs split: if_splits option.splits)

lemma free_pairs_live:
  "free_pairs os ifp h = Ok (u, h') \<Longrightarrow> p \<in> set (plist ifp) \<Longrightarrow> heap h p \<noteq> None"
proof (induction os ifp arbitrary: h rule: free_pairs.induct)
  case (2 os hs cs ps)
  obtain h1 h2 where 1: "FreePanel os hs h = Ok ((), h1)" and 2: "FreePanel os cs h1 = Ok ((), h2)"
    and 3: "free_pairs os ps h2 = Ok (u, h')"
    using "2.prems"(1) by (auto simp: bindM_eq_Ok_conv)
  show ?case
    using "2.IH" [OF 3] "2.prems"(2) FreePanel_live [OF 1, of p] FreePanel_live [OF 1, of cs] FreePanel_live [OF 2, of p] FreePanel_live [OF 2, of cs]
    by (auto simp: plist_Cons split: if_splits)
qed simp

text \<open>The descriptors that may stay open when the socket \<open>s\<close> is handed out: none for the invalid socket.\<close>

definition only :: "i32 \<Rightarrow> u32 multiset \<Rightarrow> bool" where
  "only s X \<longleftrightarrow> set_mset X \<subseteq> {word_of_int s} \<and> (s = INVALID_SOCKET \<longrightarrow> X = {#})"

lemma sys_accept_owned:
  assumes "owned P {#} h0 h" and "sys_accept os fd h = Ok ((s, a), h')"
  shows "\<exists>X. owned P X h0 h' \<and> only s X"
proof -
  have "heap h' = heap h" "brk h' = brk h"
    and "fds h' = (if word_of_int s = (word_of_int INVALID_SOCKET :: u32) then fds h else add_mset (word_of_int s) (fds h))"
    using assms(2) by (auto simp: monad_defs sys_defs split: prod.splits if_splits)
  from owned_opened [OF assms(1) this] show ?thesis
    by (auto simp: only_def split: if_splits)
qed

lemma accept_first_owned:
  assumes "owned P {#} h0 h" and "\<forall>p \<in> set ps. snd p \<in> P" and "accept_first os ready ps h = Ok (s, h')"
  shows "\<exists>X. owned P X h0 h' \<and> only s X"
  using assms
proof (induction os ready ps rule: accept_first.induct)
  case (1 os ready)
  then show ?case by (auto simp: returnM_def only_def)
next
  case (2 os ready hs cs ps)
  obtain v where v: "load cs h = Ok (v, h)"
    and r: "(if sp_socket v \<in> set ready then
       bindM (sys_accept os (sp_socket v)) (\<lambda>(s, a).
       bindM (if s < 0 then returnM () else update_panel cs (\<lambda>v. v\<lparr>sp_dest := a\<rparr>)) (\<lambda>_.
       bindM (dbg_dest os cs) (\<lambda>_. returnM s))) else accept_first os ready ps) h = Ok (s, h')"
    using "2.prems"(3) by (auto simp: bindM_eq_Ok_conv load_Ok_conv)
  show ?case
  proof (cases "sp_socket v \<in> set ready")
    case True
    then obtain a h1 where a: "sys_accept os (sp_socket v) h = Ok ((s, a), h1)"
      and rest: "bindM (if s < 0 then returnM () else update_panel cs (\<lambda>v. v\<lparr>sp_dest := a\<rparr>)) (\<lambda>_.
       bindM (dbg_dest os cs) (\<lambda>_. returnM s)) h1 = Ok (s, h')"
      using r by (auto simp: bindM_eq_Ok_conv returnM_def)
    obtain X where X: "owned P X h0 h1" "only s X" using sys_accept_owned [OF "2.prems"(1) a] by blast
    have "stepsM cs (bindM (if s < 0 then returnM () else update_panel cs (\<lambda>v. v\<lparr>sp_dest := a\<rparr>)) (\<lambda>_.
       bindM (dbg_dest os cs) (\<lambda>_. returnM s)))"
      by (auto intro!: steps_intros)
    from runsMD [OF this rest] show ?thesis
      using owned_step [OF X(1)] X(2) "2.prems"(2) by auto
  next
    case False
    then show ?thesis using "2.IH" v r "2.prems" by auto
  qed
qed

lemma quietM_announce_and_wait [quiet_intros]: "quietM (announce_and_wait os ifp n)"
proof -
  have "quietM (\<lambda>h. bindO (atoi (tcpport opt)) (\<lambda>port. Ok (port, h)))" for opt
    by (auto simp: runsM_def bindO_eq_Ok_conv)
  then show ?thesis
    unfolding announce_and_wait_def by (auto intro!: quiet_intros split: prod.split)
qed

lemma announce_round_owned:
  assumes "owned P {#} h0 h" and "\<forall>p \<in> set (take n ifp). snd p \<in> P"
    and "announce_round os ifp n h = Ok (r, h')"
  shows "\<exists>X. owned P X h0 h' \<and> (case r of Ann_Done s \<Rightarrow> only s X | _ \<Rightarrow> X = {#})"
proof -
  obtain x h1 where 1: "announce_and_wait os ifp n h = Ok (x, h1)"
    and r: "(case x of None \<Rightarrow> returnM Ann_Err
     | Some (rc, ready) \<Rightarrow>
         if rc = 0 then returnM Ann_Next
         else bindM (accept_first os ready (take n ifp)) (\<lambda>s.
           returnM (if s \<noteq> INVALID_SOCKET then Ann_Done s else Ann_Next))) h1 = Ok (r, h')"
    using assms(3) unfolding announce_round_def bindM_eq_Ok_conv by blast
  have o1: "owned P {#} h0 h1" using owned_quietM [OF assms(1) quietM_announce_and_wait 1] .
  show ?thesis
  proof (cases "\<exists>rc ready. x = Some (rc, ready) \<and> rc \<noteq> 0")
    case True
    then obtain ready s where "accept_first os ready (take n ifp) h1 = Ok (s, h')"
      and rs: "r = (if s \<noteq> INVALID_SOCKET then Ann_Done s else Ann_Next)"
      using r by (auto simp: bindM_eq_Ok_conv returnM_def)
    from accept_first_owned [OF o1 assms(2) this(1)] show ?thesis
      unfolding rs by (auto simp: only_def)
  next
    case False
    then show ?thesis using r o1 by (auto simp: returnM_def split: option.splits prod.splits)
  qed
qed

lemma announce_loop_owned:
  assumes "owned P {#} h0 h" and "\<forall>p \<in> set (take n ifp). snd p \<in> P"
    and "announce_loop os fuel np cnt ifp n h = Ok (r, h')"
  shows "\<exists>X. owned P X h0 h' \<and> (case r of None \<Rightarrow> X = {#} | Some s \<Rightarrow> only s X)"
  using assms(1,3)
proof (induction fuel arbitrary: cnt h)
  case 0
  then show ?case
    by (subst (asm) announce_loop.simps) (auto simp: returnM_def faultM_def only_def split: if_splits)
next
  case (Suc fuel)
  show ?case
  proof (cases "np = 0 \<or> cnt < np")
    case False
    then show ?thesis using Suc.prems
      by (subst (asm) announce_loop.simps) (auto simp: returnM_def only_def)
  next
    case True
    then obtain x h1 where 1: "announce_round os ifp n h = Ok (x, h1)"
      and r: "(case x of Ann_Err \<Rightarrow> returnM None | Ann_Next \<Rightarrow> announce_loop os fuel np (cnt + 1) ifp n
          | Ann_Done s \<Rightarrow> returnM (Some s)) h1 = Ok (r, h')"
      using Suc.prems(2) by (subst (asm) announce_loop.simps) (auto simp: bindM_eq_Ok_conv)
    from announce_round_owned [OF Suc.prems(1) assms(2) 1]
    show ?thesis using r Suc.IH by (cases x) (auto simp: returnM_def)
  qed
qed

lemma cleanup_owned:
  assumes "owned (set (plist ps)) X h0 h" and "distinct (plist ps)"
    and "\<forall>p \<in> set ps. fst p \<noteq> NULL \<and> snd p \<noteq> NULL" and "only s X" and "cleanup os s ps h = Ok (ok, h')"
  shows "if ok then \<exists>X. owned {} X h0 h' \<and> only s X else \<exists>p \<in> set (plist ps). heap h' p = None"
  using assms
proof (induction os s ps arbitrary: X h rule: cleanup.induct)
  case (1 os s)
  then show ?case by (auto simp: returnM_def)
next
  case (2 os s hs cs ps)
  let ?P = "set (plist ((hs, cs) # ps))"
  have nn: "hs \<noteq> NULL" "cs \<noteq> NULL" using "2.prems"(3) by auto
  then have P: "?P = insert hs (insert cs (set (plist ps)))"
    and d: "hs \<noteq> cs" "hs \<notin> set (plist ps)" "cs \<notin> set (plist ps)" "distinct (plist ps)"
    using "2.prems"(2) by (auto simp: plist_Cons)
  obtain v h1 rc h2 where v: "heap h cs = Some v"
    and 1: "(if word_of_int s = sp_socket v then DissociatePanel cs else FreePanel os cs) h = Ok ((), h1)"
    and 2: "LeaveMulticastGroup os hs None h1 = Ok (rc, h2)"
    and 3: "(if rc = SOCKET_ERROR then returnM False else bindM (FreePanel os hs) (\<lambda>_. cleanup os s ps)) h2 = Ok (ok, h')"
    using "2.prems"(5) by (auto simp: bindM_eq_Ok_conv load_Ok_conv)
  obtain X1 where o1: "owned (?P - {cs}) X1 h0 h1" and X1: "only s X1"
  proof (cases "word_of_int s = sp_socket v")
    case True
    have "sp_socket v \<in># fds h"
      using "2.prems"(1) v by (auto simp: owned_def socket_at_def P)
    then have "s \<noteq> INVALID_SOCKET" using True owned_wf [OF "2.prems"(1)] by (auto simp: wf_host_def)
    then have "only s (add_mset (socket_at h cs) X)"
      using "2.prems"(4) True v by (auto simp: only_def socket_at_def)
    moreover have "DissociatePanel cs h = Ok ((), h1)" using 1 True by simp
    then have "owned (?P - {cs}) (add_mset (socket_at h cs) X) h0 h1"
      by (rule owned_dissociate [OF "2.prems"(1), rotated]) (simp add: P)
    ultimately show ?thesis using that by blast
  next
    case False
    then have "FreePanel os cs h = Ok ((), h1)" using 1 by simp
    then have "owned (?P - {cs}) X h0 h1"
      by (rule owned_free [OF "2.prems"(1), rotated]) (simp add: P)
    then show ?thesis using that "2.prems"(4) by blast
  qed
  have o2: "owned (?P - {cs}) X1 h0 h2" using owned_stepsM [OF o1 _ leave.steps 2] d by (auto simp: P)
  show ?case
  proof (cases "rc = SOCKET_ERROR")
    case True
    have "heap h2 cs = None" using o2 "2.prems"(1) by (auto simp: owned_def P)
    then show ?thesis using 3 True by (auto simp: returnM_def P)
  next
    case False
    then obtain h3 where 4: "FreePanel os hs h2 = Ok ((), h3)" and 5: "cleanup os s ps h3 = Ok (ok, h')"
      using 3 by (auto simp: bindM_eq_Ok_conv)
    have "?P - {cs} - {hs} = set (plist ps)" using d P by auto
    then have "owned (set (plist ps)) X1 h0 h3" using owned_free [OF o2 _ 4] d by (auto simp: P)
    from "2.IH" [OF False this d(4) _ X1 5] "2.prems"(3) show ?thesis by (auto simp: P split: if_splits)
  qed
qed

text \<open>What \<^verbatim>\<open>announce\<close> leaves behind when it returns the socket \<open>s\<close>.\<close>

definition announce_leaves :: "i32 \<Rightarrow> 'w host \<Rightarrow> 'w host \<Rightarrow> bool" where
  "announce_leaves s h0 h \<longleftrightarrow> heap h = heap h0 \<and> wf_host h \<and> (\<exists>X. fds h = fds h0 + X \<and> only s X)"

lemma announce_err_leaves:
  assumes "owned (set (plist ifp)) {#} h0 h" and "distinct (plist ifp)" and "announce_err os ifp n h = Ok (s, h')"
  shows "announce_leaves s h0 h'"
proof -
  obtain h1 where 1: "free_pairs os ifp h = Ok ((), h1)" and s: "s = INVALID_SOCKET" "h' = h1"
    using assms(3) by (auto simp: announce_err_def bindM_eq_Ok_conv returnM_def faultM_def split: if_splits)
  show ?thesis
    using owned_end [OF free_pairs_owned [OF assms(1,2) 1]] s by (auto simp: announce_leaves_def only_def)
qed

lemma announce_finish_leaves:
  assumes "owned (set (plist ifp)) X h0 h" and "distinct (plist ifp)"
    and "case r of None \<Rightarrow> X = {#} | Some s \<Rightarrow> only s X"
    and ifp: "ifp = post @ replicate k (NULL, NULL)" "length post = n"
    and nn: "\<forall>p \<in> set post. fst p \<noteq> NULL \<and> snd p \<noteq> NULL"
    and "announce_finish os ifp n r h = Ok (s, h')"
  shows "announce_leaves s h0 h'"
proof (cases r)
  case None
  with assms(3,7) have "X = {#}" and "announce_err os ifp n h = Ok (s, h')" by (auto simp: announce_finish_def)
  then show ?thesis using announce_err_leaves [OF _ assms(2)] assms(1) by blast
next
  case (Some t)
  have take: "take n ifp = post" and pl: "plist ifp = plist post" using ifp by simp_all
  obtain ok h1 where c: "cleanup os t post h = Ok (ok, h1)"
    and rest: "(if ok then returnM t else announce_err os ifp n) h1 = Ok (s, h')"
    using assms(7) Some by (auto simp: announce_finish_def take bindM_eq_Ok_conv)
  note cl = cleanup_owned [OF assms(1,2) [unfolded pl] nn _ c]
  show ?thesis
  proof (cases ok)
    case True
    then show ?thesis
      using cl rest assms(3) Some owned_end by (fastforce simp: returnM_def announce_leaves_def)
  next
    case False
    then obtain p where "p \<in> set (plist ifp)" "heap h1 p = None" using cl assms(3) Some pl by auto
    moreover obtain h2 where "free_pairs os ifp h1 = Ok ((), h2)"
      using rest False by (auto simp: announce_err_def bindM_eq_Ok_conv)
    ultimately show ?thesis using free_pairs_live by blast
  qed
qed

lemma announce_serve_leaves:
  assumes "owned (set (plist ifp)) {#} h0 h" and "distinct (plist ifp)"
    and ifp: "ifp = post @ replicate k (NULL, NULL)" "length post = n"
    and nn: "\<forall>p \<in> set post. fst p \<noteq> NULL \<and> snd p \<noteq> NULL"
    and "announce_serve os fuel ifp n h = Ok (s, h')"
  shows "announce_leaves s h0 h'"
proof -
  obtain rc h1 where 1: "listen_all os (take n ifp) h = Ok (rc, h1)"
    and r: "(if rc = SOCKET_ERROR then announce_err os ifp n
     else
       bindM (getM OPT) (\<lambda>opt.
       if \<not> in_int_range (timeout opt * PACKETS_PER_SEC) then faultM Int_Overflow
       else bindM (announce_loop os fuel (timeout opt * PACKETS_PER_SEC) 0 ifp n) (announce_finish os ifp n))) h1 = Ok (s, h')"
    using assms(6) unfolding announce_serve_def bindM_eq_Ok_conv by blast
  have o1: "owned (set (plist ifp)) {#} h0 h1" using owned_quietM [OF assms(1) quietM_listen_all 1] .
  show ?thesis
  proof (cases "rc = SOCKET_ERROR")
    case True
    then show ?thesis using r announce_err_leaves [OF o1 assms(2)] by simp
  next
    case False
    then obtain np x h2 where 2: "announce_loop os fuel np 0 ifp n h1 = Ok (x, h2)"
      and 3: "announce_finish os ifp n x h2 = Ok (s, h')"
      using r by (auto simp: bindM_eq_Ok_conv getM_def faultM_def split: if_splits)
    have "\<forall>p \<in> set (take n ifp). snd p \<in> set (plist ifp)"
      using ifp nn by (force simp: plist_def)
    from announce_loop_owned [OF o1 this 2] obtain X where
      "owned (set (plist ifp)) X h0 h2" "case x of None \<Rightarrow> X = {#} | Some s \<Rightarrow> only s X" by blast
    from announce_finish_leaves [OF this(1) assms(2) this(2) ifp nn 3] show ?thesis .
  qed
qed

lemma announce_accounts:
  assumes "wf_host h" and "announce os fuel optrc h = Ok (s, h')"
  shows "announce_leaves s h h'"
proof -
  let ?ifp = "replicate MAX_IF_LENGTH (NULL, NULL)"
  obtain h1 rc ifd n h2 where 1: "read_options os optrc h = Ok ((), h1)"
    and 2: "populateInterfaceData os MAX_IF_LENGTH h1 = Ok ((rc, ifd, n), h2)"
    and 3: "(if rc = SOCKET_ERROR then announce_err os ?ifp n
     else
       bindM (build_panels os ?ifp 0 ifd) (\<lambda>(rc, ifp).
       if rc = SOCKET_ERROR then announce_err os ifp n else announce_serve os fuel ifp n)) h2 = Ok (s, h')"
    using assms(2) unfolding announce_def Let_def by (auto simp: bindM_eq_Ok_conv)
  have o2: "owned {} {#} h h2"
    using owned_quietM [OF owned_quietM [OF owned_start [OF assms(1)] quietM_read_options 1] quietM_populate 2] .
  show ?thesis
  proof (cases "rc = SOCKET_ERROR")
    case True
    then show ?thesis using 3 announce_err_leaves [of ?ifp h h2] o2 by simp
  next
    case False
    then have n: "n = length ifd" "n \<le> MAX_IF_LENGTH" using populateInterfaceData_length [OF 2] by auto
    obtain rc1 ifp h3 where b: "build_panels os ?ifp 0 ifd h2 = Ok ((rc1, ifp), h3)"
      and 4: "(if rc1 = SOCKET_ERROR then announce_err os ifp n else announce_serve os fuel ifp n) h3 = Ok (s, h')"
      using 3 False by (auto simp: bindM_eq_Ok_conv)
    note bp = build_panels_owned [of "[]" "{#}" h h2 ifd MAX_IF_LENGTH os rc1 ifp h3]
    have B: "owned (set (plist ifp)) {#} h h3 \<and> distinct (plist ifp) \<and> (rc1 \<noteq> SOCKET_ERROR \<longrightarrow>
      (\<exists>post. ifp = post @ replicate (MAX_IF_LENGTH - length ifd) (NULL, NULL) \<and>
         length post = n \<and> (\<forall>p \<in> set post. fst p \<noteq> NULL \<and> snd p \<noteq> NULL)))"
      using bp o2 n b by simp
    show ?thesis
    proof (cases "rc1 = SOCKET_ERROR")
      case True
      then show ?thesis using 4 B announce_err_leaves by auto
    next
      case False
      then obtain post where post: "ifp = post @ replicate (MAX_IF_LENGTH - length ifd) (NULL, NULL)"
        "length post = n" "\<forall>p \<in> set post. fst p \<noteq> NULL \<and> snd p \<noteq> NULL" using B by blast
      then show ?thesis using announce_serve_leaves [OF _ _ post] 4 B False by auto
    qed
  qed
qed

section \<open>Properties\<close>

text \<open>The definitions that a concrete run unfolds.\<close>

lemma replicate_32: "replicate 32 x = x # replicate 31 x"
  by (simp add: numeral_eq_Suc)

lemma atoi_9752: "atoi ''9752'' = Ok 9752"
  by code_simp

lemmas host_evals = bindM_run returnM_def faultM_def getM_def modifyM_def checkM_def sys_defs panel_ops flag_defs
  CreatePanel_def CreateEmptyPanel_def CreateBoundPanel_def FreePanel_def DissociatePanel_def
  JoinMulticastGroup_def LeaveMulticastGroup_def zero_panel_def zero_sockaddr_def
  FormatAddr_def dbg_dest_def getnameinfo_def populateInterfaceData_def read_options_def
  ReadOptions_def loop_os_def loop_host_def OPT_init_def Let_def

lemmas locate_evals = host_evals locate_def locate_open_def locate_wait_def locate_step_def
  setup_locate_hs_def buf_bytes_def overlay_def announce_msg_def

lemmas announce_evals = host_evals announce_def announce_serve_def announce_finish_def announce_round_def
  announce_and_wait_def announce_err_def buildIfPanel_def build_cs_def setup_hs_def announce_loop.simps
  announce_msg_def replicate_32 atoi_9752 in_int_range_def


lemma wf_loop_host: "wf_host loop_host"
  by (simp add: wf_host_def loop_host_def)


text \<open>
  C10: Whenever \<^verbatim>\<open>locate\<close> returns, all panels it created are released. A valid socket it returns is the only
  one it leaves open; with the invalid socket at most one socket is left open.
\<close>

theorem locate_releases_panels:
  assumes "wf_host h" and "locate os fuel optrc h = Ok (s, h')"
  shows "heap h' = heap h \<and> wf_host h' \<and>
    (if s = INVALID_SOCKET then fds h' = fds h \<or> (\<exists>c. fds h' = add_mset c (fds h))
     else fds h' = add_mset (word_of_int s) (fds h))"
  using locate_accounts [OF assms] by (simp add: locate_leaves_def)

text \<open>The concrete system with an announcement waiting.\<close>

definition announced_host :: "lworld host" where
  "announced_host = loop_host\<lparr>world := \<lparr>next_fd = 3, pipe = announce_msg 0xe1000 0x0100007F 9752\<rparr>\<rparr>"

theorem locate_releases_panels_witness:
  "\<exists>h'. locate loop_os (Suc 0) None announced_host = Ok (4, h') \<and> heap h' = Map.empty \<and> fds h' = {#4#}"
proof -
  have wf: "wf_host announced_host" by (simp add: wf_host_def loop_host_def announced_host_def)
  obtain h' where r: "locate loop_os (Suc 0) None announced_host = Ok (4, h')"
    by (atomize_elim, simp add: locate_evals announced_host_def cong: bindM_freeze)
  show ?thesis
    using locate_releases_panels [OF wf r] r by (auto simp: loop_host_def announced_host_def)
qed



lemma length_announce_msg [simp]: "length (announce_msg magic addr port) = 12"
  by (simp add: announce_msg_def)

lemma announce_msg_fields:
  "take 4 (announce_msg magic addr port) = le_bytes 4 (htonl magic)"
  "take 4 (drop 4 (announce_msg magic addr port)) = le_bytes 4 addr"
  "take 2 (drop 8 (announce_msg magic addr port)) = le_bytes 2 (htons port)"
  by (simp_all add: announce_msg_def)

text \<open>After the magic number has been stored back, the other fields are still those of the datagram.\<close>

lemma announce_buf:
  fixes magic addr :: u32 and port :: u16
  defines "m2 \<equiv> overlay (le_bytes 4 magic) (map Some (announce_msg magic addr port))"
  shows "buf_bytes m2 4 4 = returnM (le_bytes 4 addr)" "buf_bytes m2 8 2 = returnM (le_bytes 2 (htons port))"
    "length m2 = 12"
proof -
  have "take 4 (drop 4 (le_bytes 4 magic @ drop 4 (announce_msg magic addr port))) = le_bytes 4 addr"
    using announce_msg_fields(2) by simp
  moreover have "take 2 (drop 8 (le_bytes 4 magic @ drop 4 (announce_msg magic addr port))) = le_bytes 2 (htons port)"
    using announce_msg_fields(3) by (simp add: drop_drop)
  ultimately show "buf_bytes m2 4 4 = returnM (le_bytes 4 addr)" "buf_bytes m2 8 2 = returnM (le_bytes 2 (htons port))"
    "length m2 = 12"
    by (simp_all add: m2_def overlay_Some buf_bytes_Some del: map_append)
qed

text \<open>
  C22: A round of \<^verbatim>\<open>locate\<close> that receives an announcement with the agreed magic number connects to exactly
  the address and port that the announcer put into it, and hands out that socket; an announcement with
  another magic number is dropped without a connection, and the loop goes on.
\<close>

theorem locate_connects_to_announcer:
  assumes "hs \<noteq> NULL" and "cs \<noteq> NULL" and "hs \<noteq> cs" and "heap h hs = Some v" and "heap h cs = Some c"
    and "os_select os [sp_socket v] (if timeout (OPT h) > 0 then Some tv else None) (world h) = (rc, e, (ready, tv'), w)"
    and "rc > 0"
    and "os_recvfrom os (sp_socket v) 12 w = (12, e', (announce_msg magic addr port, src), w')"
    and "sa_family src = 2" and "\<And>a. os_inet_ntop os 2 a \<noteq> None"
    and "os_connect os (sp_socket c) (src\<lparr>sin_addr := addr, sin_port := htons port\<rparr>) w' = (0, e'', w'')"
    and "length m = 12"
  shows "if magic = magicnum (OPT h)
    then \<exists>h'. locate_step os hs cs tv m h = Ok (Loc_Connected (sint (sp_socket c)), h') \<and> world h' = w'' \<and>
           heap h' = (heap h)(cs \<mapsto> c\<lparr>sp_dest := src\<lparr>sin_addr := addr, sin_port := htons port\<rparr>\<rparr>)
    else \<exists>m' h'. locate_step os hs cs tv m h = Ok (Loc_Again tv' m', h') \<and> world h' = w' \<and> length m' = 12"
proof -
  have m1: "overlay (announce_msg mg addr port) m = map Some (announce_msg mg addr port)" for mg
    using assms(12) by (simp add: overlay_def)
  obtain t where t: "os_inet_ntop os 2 (sin_addr src) = Some t" using assms(10) by blast
  obtain u where u: "os_inet_ntop os 2 addr = Some u" using assms(10) by blast
  have "rc \<noteq> 0" "\<not> rc < 0" using assms(7) by auto
  then show ?thesis
    using assms(1-6,8,9,11) t u
    by (simp add: locate_step_def bindM_run returnM_def getM_def sys_defs modifyM_def m1 buf_bytes_Some
        announce_msg_fields announce_buf [unfolded returnM_def] dbg_dest_def FormatAddr_def Let_def
        cong: bindM_freeze)
qed

theorem locate_connects_to_announcer_witness:
  "\<exists>h'. locate_step loop_os 1 2 0 (replicate 12 None)
      (announced_host\<lparr>heap := [1 \<mapsto> zero_panel\<lparr>sp_socket := 3\<rparr>, 2 \<mapsto> zero_panel\<lparr>sp_socket := 4\<rparr>]\<rparr>) =
      Ok (Loc_Connected 4, h')"
proof -
  define h where "h = announced_host\<lparr>heap := [1 \<mapsto> zero_panel\<lparr>sp_socket := 3\<rparr>, 2 \<mapsto> zero_panel\<lparr>sp_socket := 4\<rparr>]\<rparr>"
  have "\<exists>h'. locate_step loop_os 1 2 0 (replicate 12 None) h = Ok (Loc_Connected (sint (4 :: u32)), h')"
    using locate_connects_to_announcer [of 1 2 h "zero_panel\<lparr>sp_socket := 3\<rparr>" "zero_panel\<lparr>sp_socket := 4\<rparr>"
        loop_os 0 1 0 "[3]" 0 "world h" 0 "0xe1000" "0x0100007F" 9752 loopback_addr "(world h)\<lparr>pipe := []\<rparr>" 0
        "(world h)\<lparr>pipe := []\<rparr>" "replicate 12 None"]
    by (auto simp: h_def announced_host_def loop_host_def loop_os_def OPT_init_def)
  then show ?thesis by (simp add: h_def)
qed

section \<open>Paths on which the code goes wrong\<close>

text \<open>When nobody announces before the timeout, \<^verbatim>\<open>locate\<close> returns the invalid socket and leaves a socket open.\<close>

lemma locate_timeout_leaks:
  "\<exists>h'. locate (loop_os\<lparr>os_select := \<lambda>_ _ w. (0, 0, ([], 0), w)\<rparr>) (Suc 0) None loop_host = Ok (INVALID_SOCKET, h') \<and>
     fds h' = {#4#}"
  by (simp add: locate_evals cong: bindM_freeze)

text \<open>Without a usable interface \<^verbatim>\<open>announce\<close> prints the destination of a panel that does not exist.\<close>

lemma announce_no_interface:
  "announce (loop_os\<lparr>os_getifaddrs := \<lambda>w. (0, 0, [], w)\<rparr>) (Suc n) None loop_host = Fault Null_Deref"
  by (simp add: announce_evals cong: bindM_freeze)

text \<open>When leaving the group fails, the error exit of \<^verbatim>\<open>announce\<close> frees the connection panel a second time.\<close>

lemma announce_double_free:
  "announce (loop_os\<lparr>os_setsockopt := \<lambda>_ _ opt _ w. if opt = IP_DROP_MEMBERSHIP then (- 1, EINVAL, w) else (0, 0, w)\<rparr>)
     (Suc 0) None loop_host = Fault Use_After_Free"
  by (simp add: announce_evals cong: bindM_freeze)

text \<open>With more interfaces than the array holds, the error exit of \<^verbatim>\<open>announce\<close> runs past its end.\<close>

lemma free_pairs_null: "free_pairs os (replicate k (NULL, NULL)) = returnM ()"
  by (induction k) (simp_all add: FreePanel_def)

lemma announce_err_too_many:
  "n > MAX_IF_LENGTH \<Longrightarrow> announce_err os (replicate MAX_IF_LENGTH (NULL, NULL)) n h = Fault Out_Of_Bounds"
  by (simp add: announce_err_def free_pairs_null faultM_def)

end
