(* ===== verification/Discovery_Ends.thy ===== *)
theory Discovery_Ends
  imports Discovery_Resources
begin

text \<open>With a timeout set, announcing ends within the number of rounds that the timeout allows.\<close>

section \<open>The announcing loop ends when there is a timeout\<close>

text \<open>Computations that never run out of rounds.\<close>

definition endsM :: "('w, 'a) M \<Rightarrow> bool" where
  "endsM m \<longleftrightarrow> (\<forall>h. m h \<noteq> Fault No_Return)"

named_theorems ends_intros \<open>introduction rules for computations that end\<close>

lemma endsM_bindM [ends_intros]: "endsM m \<Longrightarrow> (\<And>x. endsM (f x)) \<Longrightarrow> endsM (bindM m f)"
  by (auto simp: endsM_def bindM_def bindO_eq_Fault_conv)

lemma endsM_basic [ends_intros]:
  "endsM (returnM x)" "e \<noteq> No_Return \<Longrightarrow> endsM (faultM e)" "endsM (getM g)" "endsM (modifyM k)"
  "endsM (syscall f)" "endsM (syscall_out f')" "endsM (load p)" "endsM (free_panel p)" "endsM (malloc_panel os v)"
  by (auto simp: endsM_def returnM_def faultM_def getM_def modifyM_def syscall_def syscall_out_def load_def
      free_panel_def malloc_panel_def split: prod.splits option.splits)

lemma endsM_checkM [ends_intros]: "endsM m \<Longrightarrow> endsM k \<Longrightarrow> endsM (checkM m k)"
  unfolding checkM_def by (intro ends_intros) (auto intro: ends_intros)

lemma endsM_sys [ends_intros]:
  "endsM (set_error n)" "endsM (update_panel p f)" "endsM (close_fd os fd)" "endsM (opened s)"
  "endsM (sys_socket os a b c)" "endsM (sys_accept os fd)"
  unfolding set_error_def update_panel_def close_fd_def opened_def sys_socket_def sys_accept_def
  by (auto intro!: ends_intros simp: opened_def)

lemma endsM_panel [ends_intros]:
  "endsM (FreePanel os p)" "endsM (DissociatePanel p)" "endsM (CreateEmptyPanel os)"
  "endsM (ResolveAddr os adr svc af type proto)" "endsM (copy_addr res)"
  unfolding FreePanel_def DissociatePanel_def CreateEmptyPanel_def copy_addr_def
  by (auto intro!: ends_intros) (auto simp: endsM_def ResolveAddr_def split: prod.splits)

lemma endsM_ops [ends_intros]:
  "endsM (CreatePanel os af type proto)" "endsM (BindPanel os p adr svc reuse)" "endsM (SetDestination os p adr svc)"
  "endsM (JoinMulticastGroup os p i)" "endsM (LeaveMulticastGroup os p i)" "endsM (SetMulticastSendInterface os p sa)"
  "endsM (SetMulticastLoopback os p n)"
  unfolding CreatePanel_def BindPanel_def SetDestination_def JoinMulticastGroup_def LeaveMulticastGroup_def
    membership_def SetMulticastSendInterface_def SetMulticastLoopback_def Let_def
  by (auto intro!: ends_intros split: option.split)

lemma endsM_scan [ends_intros]: "endsM (scan_interfaces os m ifas rc ds n)"
proof -
  have "endsM (getnameinfo os a)" for a
    by (auto simp: endsM_def getnameinfo_def split: prod.splits)
  then show ?thesis
    by (induction ifas arbitrary: rc ds n) (auto intro!: ends_intros split: option.split)
qed

lemma endsM_build [ends_intros]: "endsM (build_panels os ifp i ds)"
proof (induction ds arbitrary: ifp i)
  case (Cons d ds)
  then show ?case
    unfolding build_panels.simps buildIfPanel_def build_cs_def setup_hs_def
    by (auto intro!: ends_intros split: prod.split)
qed (simp add: ends_intros)

lemma FormatAddr_ends: "FormatAddr os sa \<noteq> Fault No_Return"
  by (simp add: FormatAddr_def Let_def split: option.split)

lemma endsM_dbg_dest [ends_intros]: "endsM (dbg_dest os p)"
  unfolding dbg_dest_def using FormatAddr_ends by (fastforce intro!: ends_intros split: outcome.split)

lemma endsM_interfaces [ends_intros]:
  "endsM (listen_all os ps)" "endsM (send_announce os magic port ps)" "endsM (cs_sockets ps)"
  "endsM (cleanup os s ps)" "endsM (free_pairs os ps)" "endsM (accept_first os ready ps)"
  by (induction ps, auto intro!: ends_intros split: prod.split)+

lemma endsM_lift [ends_intros]: "r \<noteq> Fault No_Return \<Longrightarrow> endsM (\<lambda>h. bindO r (\<lambda>x. Ok (x, h)))"
  by (auto simp: endsM_def bindO_eq_Fault_conv)

lemma atoi_ends: "atoi s \<noteq> Fault No_Return"
  by (simp add: atoi_def)

lemma endsM_round [ends_intros]: "endsM (announce_round os ifp n)"
  unfolding announce_round_def announce_and_wait_def
  by (auto intro!: ends_intros atoi_ends split: prod.split option.split)

lemma announce_loop_ends:
  assumes "np \<noteq> 0" and "nat (np - cnt) \<le> fuel"
  shows "endsM (announce_loop os fuel np cnt ifp n)"
  using assms(2)
proof (induction fuel arbitrary: cnt)
  case 0
  then show ?case using assms(1) by (subst announce_loop.simps) (auto intro!: ends_intros)
next
  case (Suc fuel)
  then have "endsM (announce_loop os fuel np (cnt + 1) ifp n)" by (intro Suc.IH) simp
  then show ?case
    by (subst announce_loop.simps) (auto intro!: ends_intros split: announce_result.split)
qed

lemma endsM_finish [ends_intros]: "endsM (announce_finish os ifp n r)" "endsM (announce_err os ifp n)"
  unfolding announce_finish_def announce_err_def by (auto intro!: ends_intros split: option.split)

lemma option_line_ends: "option_line word opt \<noteq> Fault No_Return"
  by (auto simp: option_line_def assign_option_def strcpy_def atoi_def bindO_eq_Fault_conv split: option.split prod.split)

lemma read_loop_ends: "read_loop inp opt \<noteq> Fault No_Return"
proof (induction inp opt rule: read_loop.induct)
  case (1 inp opt)
  show ?case
    using 1 by (subst read_loop.simps) (auto simp: option_line_ends bindO_eq_Fault_conv split: prod.split option.split)
qed

lemma ReadOptions_ends: "ReadOptions fopen name opt \<noteq> Fault No_Return"
  by (simp add: ReadOptions_def Let_def read_loop_ends split: option.split)

lemma optM_populate [opt_intros]: "optM (populateInterfaceData os m)"
proof -
  have g: "optM (getnameinfo os a)" for a
    by (auto simp: runsM_def same_opt_def getnameinfo_def split: prod.splits)
  have "optM (scan_interfaces os m ifas rc ds n)" for ifas rc ds n
    by (induction ifas arbitrary: rc ds n) (auto intro!: opt_intros g split: option.split)
  then show ?thesis
    unfolding populateInterfaceData_def by (auto intro!: opt_intros split: prod.split)
qed

lemma optM_build_panels [opt_intros]: "optM (build_panels os ifp i ds)"
proof (induction ds arbitrary: ifp i)
  case (Cons d ds)
  then show ?case
    unfolding build_panels.simps buildIfPanel_def build_cs_def
    by (auto intro!: opt_intros optM_steps [OF setup_hs.steps] optM_steps [OF bind.steps] split: prod.split)
qed (simp add: opt_intros)

lemma optM_listen_all [opt_intros]: "optM (listen_all os ps)"
  by (induction ps rule: listen_all.induct) (auto intro!: opt_intros)

lemma announce_serve_ends:
  assumes "timeout (OPT h) \<noteq> 0" and "nat (timeout (OPT h) * PACKETS_PER_SEC) \<le> fuel"
  shows "announce_serve os fuel ifp n h \<noteq> Fault No_Return"
proof -
  have "endsM (announce_loop os fuel (timeout (OPT h) * PACKETS_PER_SEC) 0 ifp n)"
    using assms by (intro announce_loop_ends) auto
  moreover have "OPT h1 = OPT h" if "listen_all os (take n ifp) h = Ok (rc, h1)" for rc h1
    using runsMD [OF optM_listen_all that] by (simp add: same_opt_def)
  ultimately show ?thesis
    using endsM_finish [of os ifp n] endsM_interfaces(1) [of os "take n ifp"]
    by (auto simp: announce_serve_def bindM_def bindO_eq_Fault_conv getM_def faultM_def endsM_def split: if_splits)
qed

text \<open>
  C25: When the options set a timeout, \<^verbatim>\<open>announce\<close> does not wait forever: ten rounds for each second of
  the timeout are enough for it to come to an end, whatever the system answers.
\<close>

theorem announce_ends:
  assumes "\<And>opt. ReadOptions (\<lambda>name. os_fopen os name (world h)) optrc (OPT h) = Ok opt \<Longrightarrow>
    timeout opt \<noteq> 0 \<and> nat (timeout opt * PACKETS_PER_SEC) \<le> fuel"
  shows "announce os fuel optrc h \<noteq> Fault No_Return"
proof
  let ?ifp = "replicate MAX_IF_LENGTH (NULL, NULL)"
  assume "announce os fuel optrc h = Fault No_Return"
  then consider "read_options os optrc h = Fault No_Return"
    | h1 where "read_options os optrc h = Ok ((), h1)" "populateInterfaceData os MAX_IF_LENGTH h1 = Fault No_Return"
    | h1 rc ifd n h2 where "read_options os optrc h = Ok ((), h1)"
      "populateInterfaceData os MAX_IF_LENGTH h1 = Ok ((rc, ifd, n), h2)"
      "(if rc = SOCKET_ERROR then announce_err os ?ifp n
        else bindM (build_panels os ?ifp 0 ifd) (\<lambda>(rc, ifp).
          if rc = SOCKET_ERROR then announce_err os ifp n else announce_serve os fuel ifp n)) h2 = Fault No_Return"
    unfolding announce_def Let_def by (auto simp: bindM_def bindO_eq_Fault_conv)
  then show False
  proof cases
    case 1
    then show ?thesis by (auto simp: read_options_def bindO_eq_Fault_conv ReadOptions_ends)
  next
    case 2
    have "endsM (populateInterfaceData os MAX_IF_LENGTH)"
      unfolding populateInterfaceData_def by (auto intro!: ends_intros split: prod.split)
    then show ?thesis using 2 by (simp add: endsM_def)
  next
    case (3 h1 rc ifd n h2)
    have o1: "timeout (OPT h1) \<noteq> 0 \<and> nat (timeout (OPT h1) * PACKETS_PER_SEC) \<le> fuel"
      using 3(1) assms by (auto simp: read_options_def bindO_eq_Ok_conv)
    have o2: "OPT h2 = OPT h1" using runsMD [OF optM_populate 3(2)] by (simp add: same_opt_def)
    show ?thesis
    proof (cases "rc = SOCKET_ERROR")
      case True
      then show ?thesis using 3(3) endsM_finish(2) [of os ?ifp n] by (simp add: endsM_def)
    next
      case False
      then obtain rc1 ifp h3 where b: "build_panels os ?ifp 0 ifd h2 = Ok ((rc1, ifp), h3)"
        and r: "(if rc1 = SOCKET_ERROR then announce_err os ifp n else announce_serve os fuel ifp n) h3 = Fault No_Return"
        using 3(3) endsM_build [of os ?ifp 0 ifd] by (auto simp: bindM_def bindO_eq_Fault_conv endsM_def)
      have "OPT h3 = OPT h1" using runsMD [OF optM_build_panels b] o2 by (simp add: same_opt_def)
      then show ?thesis
        using r o1 announce_serve_ends [of h3] endsM_finish(2) [of os ifp n] by (auto simp: endsM_def split: if_splits)
    qed
  qed
qed

theorem announce_ends_witness:
  "announce loop_os 20 None (loop_host\<lparr>OPT := OPT_init\<lparr>timeout := 2\<rparr>\<rparr>) \<noteq> Fault No_Return"
  by (rule announce_ends) (simp add: ReadOptions_def loop_os_def OPT_init_def)

end
