(* ===== verification/E1000_HW.thy ===== *)
theory E1000_HW
  imports VF_Prelude
begin

text \<open>
  The hardware interface of the network device (\<^verbatim>\<open>hw/e1000_hw.h\<close>): register numbers, register bits, and
  the descriptors that driver and device exchange in guest memory, with their layout. A register is
  its index in \<^verbatim>\<open>mac_reg\<close>, that is its byte offset divided by four (\<^verbatim>\<open>defreg\<close> of \<^verbatim>\<open>e1000.c\<close>). Fields of
  descriptors are little-endian, which is also the byte order of the host.
\<close>

section \<open>Registers\<close>

abbreviation (input) CTRL :: nat where "CTRL \<equiv> 0"
abbreviation (input) STATUS :: nat where "STATUS \<equiv> 2"
abbreviation (input) EECD :: nat where "EECD \<equiv> 4"
abbreviation (input) EERD :: nat where "EERD \<equiv> 5"
abbreviation (input) MDIC :: nat where "MDIC \<equiv> 8"
abbreviation (input) VET :: nat where "VET \<equiv> 0xe"
abbreviation (input) ICR :: nat where "ICR \<equiv> 0x30"
abbreviation (input) ICS :: nat where "ICS \<equiv> 0x32"
abbreviation (input) IMS :: nat where "IMS \<equiv> 0x34"
abbreviation (input) IMC :: nat where "IMC \<equiv> 0x36"
abbreviation (input) RCTL :: nat where "RCTL \<equiv> 0x40"
abbreviation (input) TCTL :: nat where "TCTL \<equiv> 0x100"
abbreviation (input) LEDCTL :: nat where "LEDCTL \<equiv> 0x380"
abbreviation (input) PBA :: nat where "PBA \<equiv> 0x400"
abbreviation (input) RDBAL :: nat where "RDBAL \<equiv> 0xa00"
abbreviation (input) RDBAH :: nat where "RDBAH \<equiv> 0xa01"
abbreviation (input) RDLEN :: nat where "RDLEN \<equiv> 0xa02"
abbreviation (input) RDH :: nat where "RDH \<equiv> 0xa04"
abbreviation (input) RDT :: nat where "RDT \<equiv> 0xa06"
abbreviation (input) TDBAL :: nat where "TDBAL \<equiv> 0xe00"
abbreviation (input) TDBAH :: nat where "TDBAH \<equiv> 0xe01"
abbreviation (input) TDLEN :: nat where "TDLEN \<equiv> 0xe02"
abbreviation (input) TDH :: nat where "TDH \<equiv> 0xe04"
abbreviation (input) TDT :: nat where "TDT \<equiv> 0xe06"
abbreviation (input) TXDCTL :: nat where "TXDCTL \<equiv> 0xe0a"
abbreviation (input) CRCERRS :: nat where "CRCERRS \<equiv> 0x1000"
abbreviation (input) MPC :: nat where "MPC \<equiv> 0x1004"
abbreviation (input) GPRC :: nat where "GPRC \<equiv> 0x101d"
abbreviation (input) GPTC :: nat where "GPTC \<equiv> 0x1020"
abbreviation (input) TORL :: nat where "TORL \<equiv> 0x1030"
abbreviation (input) TORH :: nat where "TORH \<equiv> 0x1031"
abbreviation (input) TOTL :: nat where "TOTL \<equiv> 0x1032"
abbreviation (input) TOTH :: nat where "TOTH \<equiv> 0x1033"
abbreviation (input) TPR :: nat where "TPR \<equiv> 0x1034"
abbreviation (input) TPT :: nat where "TPT \<equiv> 0x1035"
abbreviation (input) MTA :: nat where "MTA \<equiv> 0x1480"
abbreviation (input) RA :: nat where "RA \<equiv> 0x1500"
abbreviation (input) VFTA :: nat where "VFTA \<equiv> 0x1580"
abbreviation (input) WUFC :: nat where "WUFC \<equiv> 0x1602"
abbreviation (input) MANC :: nat where "MANC \<equiv> 0x1608"
abbreviation (input) SWSM :: nat where "SWSM \<equiv> 0x16d4"
abbreviation (input) PF_ATQBAH :: nat where "PF_ATQBAH \<equiv> 0x1800"
abbreviation (input) PF_ATQBAL :: nat where "PF_ATQBAL \<equiv> 0x1801"
abbreviation (input) PF_ATQH :: nat where "PF_ATQH \<equiv> 0x1802"
abbreviation (input) PF_ATQLEN :: nat where "PF_ATQLEN \<equiv> 0x1803"
abbreviation (input) PF_ATQT :: nat where "PF_ATQT \<equiv> 0x1804"

section \<open>Register and descriptor bits\<close>

abbreviation (input) E1000_ICR_TXDW :: u32 where "E1000_ICR_TXDW \<equiv> 0x00000001"
abbreviation (input) E1000_ICR_TXQE :: u32 where "E1000_ICR_TXQE \<equiv> 0x00000002"
abbreviation (input) E1000_ICR_LSC :: u32 where "E1000_ICR_LSC \<equiv> 0x00000004"
abbreviation (input) E1000_ICR_RXDMT0 :: u32 where "E1000_ICR_RXDMT0 \<equiv> 0x00000010"
abbreviation (input) E1000_ICR_RXO :: u32 where "E1000_ICR_RXO \<equiv> 0x00000040"
abbreviation (input) E1000_ICR_RXT0 :: u32 where "E1000_ICR_RXT0 \<equiv> 0x00000080"
abbreviation (input) E1000_ICR_MDAC :: u32 where "E1000_ICR_MDAC \<equiv> 0x00000200"
abbreviation (input) E1000_ICR_INT_ASSERTED :: u32 where "E1000_ICR_INT_ASSERTED \<equiv> 0x80000000"
abbreviation (input) E1000_RCTL_EN :: u32 where "E1000_RCTL_EN \<equiv> 0x00000002"
abbreviation (input) E1000_RCTL_UPE :: u32 where "E1000_RCTL_UPE \<equiv> 0x00000008"
abbreviation (input) E1000_RCTL_MPE :: u32 where "E1000_RCTL_MPE \<equiv> 0x00000010"
abbreviation (input) E1000_RCTL_RDMTS_QUAT :: u32 where "E1000_RCTL_RDMTS_QUAT \<equiv> 0x00000100"
abbreviation (input) E1000_RCTL_BAM :: u32 where "E1000_RCTL_BAM \<equiv> 0x00008000"
abbreviation (input) E1000_RCTL_SZ_2048 :: u32 where "E1000_RCTL_SZ_2048 \<equiv> 0x00000000"
abbreviation (input) E1000_RCTL_SZ_1024 :: u32 where "E1000_RCTL_SZ_1024 \<equiv> 0x00010000"
abbreviation (input) E1000_RCTL_SZ_512 :: u32 where "E1000_RCTL_SZ_512 \<equiv> 0x00020000"
abbreviation (input) E1000_RCTL_SZ_256 :: u32 where "E1000_RCTL_SZ_256 \<equiv> 0x00030000"
abbreviation (input) E1000_RCTL_SZ_16384 :: u32 where "E1000_RCTL_SZ_16384 \<equiv> 0x00010000"
abbreviation (input) E1000_RCTL_SZ_8192 :: u32 where "E1000_RCTL_SZ_8192 \<equiv> 0x00020000"
abbreviation (input) E1000_RCTL_SZ_4096 :: u32 where "E1000_RCTL_SZ_4096 \<equiv> 0x00030000"
abbreviation (input) E1000_RCTL_VFE :: u32 where "E1000_RCTL_VFE \<equiv> 0x00040000"
abbreviation (input) E1000_RCTL_BSEX :: u32 where "E1000_RCTL_BSEX \<equiv> 0x02000000"
abbreviation (input) E1000_RCTL_SECRC :: u32 where "E1000_RCTL_SECRC \<equiv> 0x04000000"
abbreviation (input) E1000_EEPROM_RW_REG_DONE :: u32 where "E1000_EEPROM_RW_REG_DONE \<equiv> 0x10"
abbreviation (input) E1000_EEPROM_RW_REG_START :: u32 where "E1000_EEPROM_RW_REG_START \<equiv> 1"
abbreviation (input) E1000_CTRL_SLU :: u32 where "E1000_CTRL_SLU \<equiv> 0x00000040"
abbreviation (input) E1000_CTRL_SPD_1000 :: u32 where "E1000_CTRL_SPD_1000 \<equiv> 0x00000200"
abbreviation (input) E1000_CTRL_SWDPIN0 :: u32 where "E1000_CTRL_SWDPIN0 \<equiv> 0x00040000"
abbreviation (input) E1000_CTRL_SWDPIN2 :: u32 where "E1000_CTRL_SWDPIN2 \<equiv> 0x00100000"
abbreviation (input) E1000_CTRL_RST :: u32 where "E1000_CTRL_RST \<equiv> 0x04000000"
abbreviation (input) E1000_CTRL_VME :: u32 where "E1000_CTRL_VME \<equiv> 0x40000000"
abbreviation (input) E1000_STATUS_FD :: u32 where "E1000_STATUS_FD \<equiv> 0x00000001"
abbreviation (input) E1000_STATUS_LU :: u32 where "E1000_STATUS_LU \<equiv> 0x00000002"
abbreviation (input) E1000_STATUS_SPEED_1000 :: u32 where "E1000_STATUS_SPEED_1000 \<equiv> 0x00000080"
abbreviation (input) E1000_STATUS_ASDV :: u32 where "E1000_STATUS_ASDV \<equiv> 0x00000300"
abbreviation (input) E1000_STATUS_GIO_MASTER_ENABLE :: u32 where "E1000_STATUS_GIO_MASTER_ENABLE \<equiv> 0x00080000"
abbreviation (input) E1000_STATUS_MTXCKOK :: u32 where "E1000_STATUS_MTXCKOK \<equiv> 0x00000400"
abbreviation (input) E1000_EECD_SK :: u32 where "E1000_EECD_SK \<equiv> 0x00000001"
abbreviation (input) E1000_EECD_CS :: u32 where "E1000_EECD_CS \<equiv> 0x00000002"
abbreviation (input) E1000_EECD_DI :: u32 where "E1000_EECD_DI \<equiv> 0x00000004"
abbreviation (input) E1000_EECD_DO :: u32 where "E1000_EECD_DO \<equiv> 0x00000008"
abbreviation (input) E1000_EECD_FWE_MASK :: u32 where "E1000_EECD_FWE_MASK \<equiv> 0x00000030"
abbreviation (input) E1000_EECD_REQ :: u32 where "E1000_EECD_REQ \<equiv> 0x00000040"
abbreviation (input) E1000_EECD_GNT :: u32 where "E1000_EECD_GNT \<equiv> 0x00000080"
abbreviation (input) E1000_EECD_PRES :: u32 where "E1000_EECD_PRES \<equiv> 0x00000100"
abbreviation (input) E1000_MDIC_DATA_MASK :: u32 where "E1000_MDIC_DATA_MASK \<equiv> 0x0000FFFF"
abbreviation (input) E1000_MDIC_REG_MASK :: u32 where "E1000_MDIC_REG_MASK \<equiv> 0x001F0000"
abbreviation (input) E1000_MDIC_PHY_MASK :: u32 where "E1000_MDIC_PHY_MASK \<equiv> 0x03E00000"
abbreviation (input) E1000_MDIC_OP_WRITE :: u32 where "E1000_MDIC_OP_WRITE \<equiv> 0x04000000"
abbreviation (input) E1000_MDIC_OP_READ :: u32 where "E1000_MDIC_OP_READ \<equiv> 0x08000000"
abbreviation (input) E1000_MDIC_READY :: u32 where "E1000_MDIC_READY \<equiv> 0x10000000"
abbreviation (input) E1000_MDIC_ERROR :: u32 where "E1000_MDIC_ERROR \<equiv> 0x40000000"
abbreviation (input) E1000_TXD_DTYP_D :: u32 where "E1000_TXD_DTYP_D \<equiv> 0x00100000"
abbreviation (input) E1000_TXD_CMD_EOP :: u32 where "E1000_TXD_CMD_EOP \<equiv> 0x01000000"
abbreviation (input) E1000_TXD_CMD_RS :: u32 where "E1000_TXD_CMD_RS \<equiv> 0x08000000"
abbreviation (input) E1000_TXD_CMD_RPS :: u32 where "E1000_TXD_CMD_RPS \<equiv> 0x10000000"
abbreviation (input) E1000_TXD_CMD_DEXT :: u32 where "E1000_TXD_CMD_DEXT \<equiv> 0x20000000"
abbreviation (input) E1000_TXD_CMD_VLE :: u32 where "E1000_TXD_CMD_VLE \<equiv> 0x40000000"
abbreviation (input) E1000_TXD_STAT_DD :: u32 where "E1000_TXD_STAT_DD \<equiv> 0x00000001"
abbreviation (input) E1000_TXD_STAT_EC :: u32 where "E1000_TXD_STAT_EC \<equiv> 0x00000002"
abbreviation (input) E1000_TXD_STAT_LC :: u32 where "E1000_TXD_STAT_LC \<equiv> 0x00000004"
abbreviation (input) E1000_TXD_STAT_TU :: u32 where "E1000_TXD_STAT_TU \<equiv> 0x00000008"
abbreviation (input) E1000_TXD_CMD_TCP :: u32 where "E1000_TXD_CMD_TCP \<equiv> 0x01000000"
abbreviation (input) E1000_TXD_CMD_IP :: u32 where "E1000_TXD_CMD_IP \<equiv> 0x02000000"
abbreviation (input) E1000_TXD_CMD_TSE :: u32 where "E1000_TXD_CMD_TSE \<equiv> 0x04000000"
abbreviation (input) E1000_TCTL_EN :: u32 where "E1000_TCTL_EN \<equiv> 0x00000002"
abbreviation (input) E1000_RAH_AV :: u32 where "E1000_RAH_AV \<equiv> 0x80000000"
abbreviation (input) E1000_MANC_RMCP_EN :: u32 where "E1000_MANC_RMCP_EN \<equiv> 0x00000100"
abbreviation (input) E1000_MANC_0298_EN :: u32 where "E1000_MANC_0298_EN \<equiv> 0x00000200"
abbreviation (input) E1000_MANC_ARP_EN :: u32 where "E1000_MANC_ARP_EN \<equiv> 0x00002000"
abbreviation (input) E1000_MANC_RCV_TCO_EN :: u32 where "E1000_MANC_RCV_TCO_EN \<equiv> 0x00020000"
abbreviation (input) E1000_MANC_EN_MNG2HOST :: u32 where "E1000_MANC_EN_MNG2HOST \<equiv> 0x00200000"
abbreviation (input) E1000_RCTL_MO_SHIFT :: nat where "E1000_RCTL_MO_SHIFT \<equiv> 12"
abbreviation (input) E1000_EEPROM_RW_REG_DATA :: nat where "E1000_EEPROM_RW_REG_DATA \<equiv> 16"
abbreviation (input) E1000_EEPROM_RW_ADDR_SHIFT :: nat where "E1000_EEPROM_RW_ADDR_SHIFT \<equiv> 8"
abbreviation (input) E1000_MDIC_REG_SHIFT :: nat where "E1000_MDIC_REG_SHIFT \<equiv> 16"
abbreviation (input) E1000_MDIC_PHY_SHIFT :: nat where "E1000_MDIC_PHY_SHIFT \<equiv> 21"
abbreviation (input) E1000_TXD_POPTS_IXSM :: u8 where "E1000_TXD_POPTS_IXSM \<equiv> 0x01"
abbreviation (input) E1000_TXD_POPTS_TXSM :: u8 where "E1000_TXD_POPTS_TXSM \<equiv> 0x02"
abbreviation (input) E1000_RXD_STAT_DD :: u8 where "E1000_RXD_STAT_DD \<equiv> 0x01"
abbreviation (input) E1000_RXD_STAT_EOP :: u8 where "E1000_RXD_STAT_EOP \<equiv> 0x02"
abbreviation (input) E1000_RXD_STAT_IXSM :: u8 where "E1000_RXD_STAT_IXSM \<equiv> 0x04"
abbreviation (input) E1000_RXD_STAT_VP :: u8 where "E1000_RXD_STAT_VP \<equiv> 0x08"
abbreviation (input) PHY_CTRL :: nat where "PHY_CTRL \<equiv> 0x00"
abbreviation (input) PHY_STATUS :: nat where "PHY_STATUS \<equiv> 0x01"
abbreviation (input) PHY_ID1 :: nat where "PHY_ID1 \<equiv> 0x02"
abbreviation (input) PHY_ID2 :: nat where "PHY_ID2 \<equiv> 0x03"
abbreviation (input) PHY_AUTONEG_ADV :: nat where "PHY_AUTONEG_ADV \<equiv> 0x04"
abbreviation (input) PHY_LP_ABILITY :: nat where "PHY_LP_ABILITY \<equiv> 0x05"
abbreviation (input) PHY_1000T_CTRL :: nat where "PHY_1000T_CTRL \<equiv> 0x09"
abbreviation (input) PHY_1000T_STATUS :: nat where "PHY_1000T_STATUS \<equiv> 0x0A"
abbreviation (input) M88E1000_PHY_SPEC_CTRL :: nat where "M88E1000_PHY_SPEC_CTRL \<equiv> 0x10"
abbreviation (input) M88E1000_PHY_SPEC_STATUS :: nat where "M88E1000_PHY_SPEC_STATUS \<equiv> 0x11"
abbreviation (input) M88E1000_EXT_PHY_SPEC_CTRL :: nat where "M88E1000_EXT_PHY_SPEC_CTRL \<equiv> 0x14"
abbreviation (input) M88E1000_RX_ERR_CNTR :: nat where "M88E1000_RX_ERR_CNTR \<equiv> 0x15"
abbreviation (input) EEPROM_CHECKSUM_REG :: nat where "EEPROM_CHECKSUM_REG \<equiv> 0x003F"
abbreviation (input) EEPROM_READ_OPCODE_MICROWIRE :: u32 where "EEPROM_READ_OPCODE_MICROWIRE \<equiv> 0x6"
abbreviation (input) EEPROM_SUM :: u16 where "EEPROM_SUM \<equiv> 0xBABA"
abbreviation (input) E1000_DEV_ID_82540EM :: u16 where "E1000_DEV_ID_82540EM \<equiv> 0x100E"

abbreviation (input) E1000_ICS_TXQE :: u32 where "E1000_ICS_TXQE \<equiv> E1000_ICR_TXQE"
abbreviation (input) E1000_ICS_RXDMT0 :: u32 where "E1000_ICS_RXDMT0 \<equiv> E1000_ICR_RXDMT0"
abbreviation (input) E1000_ICS_RXO :: u32 where "E1000_ICS_RXO \<equiv> E1000_ICR_RXO"
abbreviation (input) E1000_ICS_RXT0 :: u32 where "E1000_ICS_RXT0 \<equiv> E1000_ICR_RXT0"
abbreviation (input) E1000_PF_ATQLEN_ATQENABLE_MASK :: u32 where "E1000_PF_ATQLEN_ATQENABLE_MASK \<equiv> 0x80000000"
abbreviation (input) E1000_AQ_FLAG_DD :: u16 where "E1000_AQ_FLAG_DD \<equiv> 0x1"
abbreviation (input) E1000_AQ_FLAG_ERR :: u16 where "E1000_AQ_FLAG_ERR \<equiv> 0x4"
abbreviation (input) e1000_aqc_get_version :: u16 where "e1000_aqc_get_version \<equiv> 1"
abbreviation (input) e1000_aqc_driver_heartbeat :: u16 where "e1000_aqc_driver_heartbeat \<equiv> 2"
abbreviation (input) e1000_aqc_echo :: u16 where "e1000_aqc_echo \<equiv> 3"
abbreviation (input) E1000_AQ_RC_ENOSYS :: u16 where "E1000_AQ_RC_ENOSYS \<equiv> 1"

section \<open>Descriptors\<close>

record e1000_tx_desc =
  td_buffer_addr :: u64
  td_lower :: u32
  td_upper :: u32

definition decode_tx_desc :: "u8 list \<Rightarrow> e1000_tx_desc" where
  "decode_tx_desc bs = \<lparr>td_buffer_addr = le_word (take 8 bs), td_lower = le_word (take 4 (drop 8 bs)),
     td_upper = le_word (take 4 (drop 12 bs))\<rparr>"

definition encode_tx_desc :: "e1000_tx_desc \<Rightarrow> u8 list" where
  "encode_tx_desc d = le_bytes 8 (td_buffer_addr d) @ le_bytes 4 (td_lower d) @ le_bytes 4 (td_upper d)"

record e1000_rx_desc =
  rd_buffer_addr :: u64
  rd_length :: u16
  rd_csum :: u16
  rd_status :: u8
  rd_errors :: u8
  rd_special :: u16

definition decode_rx_desc :: "u8 list \<Rightarrow> e1000_rx_desc" where
  "decode_rx_desc bs = \<lparr>rd_buffer_addr = le_word (take 8 bs), rd_length = le_word (take 2 (drop 8 bs)),
     rd_csum = le_word (take 2 (drop 10 bs)), rd_status = le_word (take 1 (drop 12 bs)),
     rd_errors = le_word (take 1 (drop 13 bs)), rd_special = le_word (take 2 (drop 14 bs))\<rparr>"

definition encode_rx_desc :: "e1000_rx_desc \<Rightarrow> u8 list" where
  "encode_rx_desc d = le_bytes 8 (rd_buffer_addr d) @ le_bytes 2 (rd_length d) @ le_bytes 2 (rd_csum d) @
     le_bytes 1 (rd_status d) @ le_bytes 1 (rd_errors d) @ le_bytes 2 (rd_special d)"

text \<open>The context descriptor is a view of the same sixteen bytes as a transmit descriptor.\<close>

record e1000_context_desc =
  cd_ipcss :: u8
  cd_ipcso :: u8
  cd_ipcse :: u16
  cd_tucss :: u8
  cd_tucso :: u8
  cd_tucse :: u16
  cd_cmd_and_length :: u32
  cd_status :: u8
  cd_hdr_len :: u8
  cd_mss :: u16

definition decode_context_desc :: "u8 list \<Rightarrow> e1000_context_desc" where
  "decode_context_desc bs = \<lparr>cd_ipcss = le_word (take 1 bs), cd_ipcso = le_word (take 1 (drop 1 bs)),
     cd_ipcse = le_word (take 2 (drop 2 bs)), cd_tucss = le_word (take 1 (drop 4 bs)),
     cd_tucso = le_word (take 1 (drop 5 bs)), cd_tucse = le_word (take 2 (drop 6 bs)),
     cd_cmd_and_length = le_word (take 4 (drop 8 bs)), cd_status = le_word (take 1 (drop 12 bs)),
     cd_hdr_len = le_word (take 1 (drop 13 bs)), cd_mss = le_word (take 2 (drop 14 bs))\<rparr>"

record e1000_aq_desc =
  aq_flags :: u16
  aq_opcode :: u16
  aq_datalen :: u16
  aq_retval :: u16
  aq_cookie_high :: u32
  aq_cookie_low :: u32
  aq_param0 :: u32
  aq_param1 :: u32
  aq_addr_high :: u32
  aq_addr_low :: u32

definition decode_aq_desc :: "u8 list \<Rightarrow> e1000_aq_desc" where
  "decode_aq_desc bs = \<lparr>aq_flags = le_word (take 2 bs), aq_opcode = le_word (take 2 (drop 2 bs)),
     aq_datalen = le_word (take 2 (drop 4 bs)), aq_retval = le_word (take 2 (drop 6 bs)),
     aq_cookie_high = le_word (take 4 (drop 8 bs)), aq_cookie_low = le_word (take 4 (drop 12 bs)),
     aq_param0 = le_word (take 4 (drop 16 bs)), aq_param1 = le_word (take 4 (drop 20 bs)),
     aq_addr_high = le_word (take 4 (drop 24 bs)), aq_addr_low = le_word (take 4 (drop 28 bs))\<rparr>"

definition encode_aq_desc :: "e1000_aq_desc \<Rightarrow> u8 list" where
  "encode_aq_desc d = le_bytes 2 (aq_flags d) @ le_bytes 2 (aq_opcode d) @ le_bytes 2 (aq_datalen d) @
     le_bytes 2 (aq_retval d) @ le_bytes 4 (aq_cookie_high d) @ le_bytes 4 (aq_cookie_low d) @
     le_bytes 4 (aq_param0 d) @ le_bytes 4 (aq_param1 d) @ le_bytes 4 (aq_addr_high d) @ le_bytes 4 (aq_addr_low d)"

abbreviation (input) aq_desc_size :: nat where "aq_desc_size \<equiv> 32"

section \<open>Layout round trips\<close>

lemma length_encode [simp]:
  "length (encode_tx_desc t) = 16" "length (encode_rx_desc r) = 16" "length (encode_aq_desc a) = 32"
  by (simp_all add: encode_tx_desc_def encode_rx_desc_def encode_aq_desc_def)

lemma decode_encode_desc [simp]:
  "decode_tx_desc (encode_tx_desc t) = t" "decode_rx_desc (encode_rx_desc r) = r" "decode_aq_desc (encode_aq_desc a) = a"
  by (simp_all add: decode_tx_desc_def encode_tx_desc_def decode_rx_desc_def encode_rx_desc_def
      decode_aq_desc_def encode_aq_desc_def)

lemma take_drop_append: "take m (drop n xs) @ drop (n + m) xs = drop n xs"
  by (metis append_take_drop_id drop_drop add.commute)

lemma encode_decode_tx [simp]: "length bs = 16 \<Longrightarrow> encode_tx_desc (decode_tx_desc bs) = bs"
  using take_drop_append [of 4 8 bs] append_take_drop_id [of 8 bs]
  by (simp add: decode_tx_desc_def encode_tx_desc_def)

end
