(* ===== verification/E1000_Regs.thy ===== *)
theory E1000_Regs
  imports E1000_HW
begin

text \<open>
  The state of the network device and the register operations of \<^verbatim>\<open>hw/e1000.c\<close> that touch nothing but
  this state: interrupt causes, device and receive control, the PHY behind \<^verbatim>\<open>MDIC\<close>, the EEPROM behind
  \<^verbatim>\<open>EECD\<close> and \<^verbatim>\<open>EERD\<close>, the statistics counters and the link status.

  \<^verbatim>\<open>mac_reg\<close>, \<^verbatim>\<open>phy_reg\<close> and \<^verbatim>\<open>eeprom_data\<close> are functions of the index; the model never applies them outside
  the array, which has \<open>0x8000\<close>, \<open>0x20\<close> and \<open>64\<close> entries. \<open>irq\<close> is the level last given to
  \<^verbatim>\<open>qemu_set_irq\<close> for \<^verbatim>\<open>dev.irq[0]\<close>. Debug output (\<^verbatim>\<open>DBGOUT\<close>) has no effect on the device and is left out.
\<close>

named_theorems reg_defs \<open>definitions of the register operations\<close>

section \<open>State\<close>

record eecd_st =
  val_in :: u32
  bitnum_in :: u16
  bitnum_out :: u16
  reading :: u16
  old_eecd :: u32

record e1000_tx =
  header :: "nat \<Rightarrow> u8"
  vlan_header :: "u8 list"
  vlan :: "u8 list"
  data :: "nat \<Rightarrow> u8"
  tx_size :: u16
  sum_needed :: u8
  vlan_needed :: bool
  ipcss :: u8
  ipcso :: u8
  ipcse :: u16
  tucss :: u8
  tucso :: u8
  tucse :: u16
  hdr_len :: u8
  mss :: u16
  paylen :: u32
  tso_frames :: u16
  tse :: bool
  ip :: bool
  tcp :: bool
  cptse :: bool

record E1000State =
  mac_reg :: "nat \<Rightarrow> u32"
  phy_reg :: "nat \<Rightarrow> u16"
  eeprom_data :: "nat \<Rightarrow> u16"
  rxbuf_size :: u32
  rxbuf_min_shift :: u32
  check_rxov :: bool
  tx :: e1000_tx
  fs :: u32
  eecd_state :: eecd_st
  irq :: bool

definition put_reg :: "nat \<Rightarrow> u32 \<Rightarrow> E1000State \<Rightarrow> E1000State" where
  "put_reg i v s = s\<lparr>mac_reg := (mac_reg s)(i := v)\<rparr>"

section \<open>Interrupts\<close>

definition set_interrupt_cause :: "E1000State \<Rightarrow> nat \<Rightarrow> u32 \<Rightarrow> E1000State" where
  "set_interrupt_cause s index val =
    (let val = (if val \<noteq> 0 then val OR E1000_ICR_INT_ASSERTED else val);
         s = put_reg ICS val (put_reg ICR val s)
     in s\<lparr>irq := (mac_reg s IMS AND mac_reg s ICR) \<noteq> 0\<rparr>)"

definition set_ics :: "E1000State \<Rightarrow> nat \<Rightarrow> u32 \<Rightarrow> E1000State" where
  "set_ics s index val = set_interrupt_cause s 0 (val OR mac_reg s ICR)"

definition set_icr :: "E1000State \<Rightarrow> nat \<Rightarrow> u32 \<Rightarrow> E1000State" where
  "set_icr s index val = set_interrupt_cause s 0 (mac_reg s ICR AND NOT val)"

definition set_imc :: "E1000State \<Rightarrow> nat \<Rightarrow> u32 \<Rightarrow> E1000State" where
  "set_imc s index val = set_ics (put_reg IMS (mac_reg s IMS AND NOT val) s) 0 0"

definition set_ims :: "E1000State \<Rightarrow> nat \<Rightarrow> u32 \<Rightarrow> E1000State" where
  "set_ims s index val = set_ics (put_reg IMS (mac_reg s IMS OR val) s) 0 0"

definition mac_icr_read :: "E1000State \<Rightarrow> nat \<Rightarrow> u32 \<times> E1000State" where
  "mac_icr_read s index = (mac_reg s ICR, set_interrupt_cause s 0 0)"

section \<open>Device and receive control\<close>

definition rxbufsize :: "u32 \<Rightarrow> u32" where
  "rxbufsize v =
    (let v = v AND (E1000_RCTL_BSEX OR E1000_RCTL_SZ_16384 OR E1000_RCTL_SZ_8192 OR E1000_RCTL_SZ_4096 OR
                    E1000_RCTL_SZ_2048 OR E1000_RCTL_SZ_1024 OR E1000_RCTL_SZ_512 OR E1000_RCTL_SZ_256)
     in if v = E1000_RCTL_BSEX OR E1000_RCTL_SZ_16384 then 16384
        else if v = E1000_RCTL_BSEX OR E1000_RCTL_SZ_8192 then 8192
        else if v = E1000_RCTL_BSEX OR E1000_RCTL_SZ_4096 then 4096
        else if v = E1000_RCTL_SZ_1024 then 1024
        else if v = E1000_RCTL_SZ_512 then 512
        else if v = E1000_RCTL_SZ_256 then 256
        else 2048)"

definition set_ctrl :: "E1000State \<Rightarrow> nat \<Rightarrow> u32 \<Rightarrow> E1000State" where
  "set_ctrl s index val = put_reg CTRL (val AND NOT E1000_CTRL_RST) s"

definition set_rx_control :: "E1000State \<Rightarrow> nat \<Rightarrow> u32 \<Rightarrow> E1000State" where
  "set_rx_control s index val =
    (put_reg RCTL val s)\<lparr>rxbuf_size := rxbufsize val,
       rxbuf_min_shift := ((val div E1000_RCTL_RDMTS_QUAT) AND 3) + 1\<rparr>"

definition e1000_set_link_status :: "bool \<Rightarrow> E1000State \<Rightarrow> E1000State" where
  "e1000_set_link_status link_down s =
    (let old_status = mac_reg s STATUS;
         s = (if link_down then put_reg STATUS (mac_reg s STATUS AND NOT E1000_STATUS_LU) s
              else put_reg STATUS (mac_reg s STATUS OR E1000_STATUS_LU) s)
     in if mac_reg s STATUS \<noteq> old_status then set_ics s 0 E1000_ICR_LSC else s)"

definition e1000_can_receive :: "E1000State \<Rightarrow> bool" where
  "e1000_can_receive s \<longleftrightarrow> mac_reg s RCTL AND E1000_RCTL_EN \<noteq> 0"

section \<open>The PHY\<close>

abbreviation (input) PHY_R :: nat where "PHY_R \<equiv> 1"
abbreviation (input) PHY_W :: nat where "PHY_W \<equiv> 2"
abbreviation (input) PHY_RW :: nat where "PHY_RW \<equiv> 3"

definition phy_regcap :: "nat \<Rightarrow> nat" where
  "phy_regcap = (\<lambda>_. 0)(
     PHY_STATUS := PHY_R,      M88E1000_EXT_PHY_SPEC_CTRL := PHY_RW,
     PHY_ID1 := PHY_R,         M88E1000_PHY_SPEC_CTRL := PHY_RW,
     PHY_CTRL := PHY_RW,       PHY_1000T_CTRL := PHY_RW,
     PHY_LP_ABILITY := PHY_R,  PHY_1000T_STATUS := PHY_R,
     PHY_AUTONEG_ADV := PHY_RW, M88E1000_RX_ERR_CNTR := PHY_R,
     PHY_ID2 := PHY_R,         M88E1000_PHY_SPEC_STATUS := PHY_R)"

definition set_mdic :: "E1000State \<Rightarrow> nat \<Rightarrow> u32 \<Rightarrow> E1000State" where
  "set_mdic s index val =
    (let dat = val AND E1000_MDIC_DATA_MASK;
         addr = unat (drop_bit E1000_MDIC_REG_SHIFT (val AND E1000_MDIC_REG_MASK));
         (val, s) =
           (if drop_bit E1000_MDIC_PHY_SHIFT (val AND E1000_MDIC_PHY_MASK) \<noteq> 1
            then (mac_reg s MDIC OR E1000_MDIC_ERROR, s)
            else if val AND E1000_MDIC_OP_READ \<noteq> 0
            then if phy_regcap addr AND PHY_R = 0 then (val OR E1000_MDIC_ERROR, s)
                 else ((val XOR dat) OR ucast (phy_reg s addr), s)
            else if val AND E1000_MDIC_OP_WRITE \<noteq> 0
            then if phy_regcap addr AND PHY_W = 0 then (val OR E1000_MDIC_ERROR, s)
                 else (val, s\<lparr>phy_reg := (phy_reg s)(addr := ucast dat)\<rparr>)
            else (val, s))
     in set_ics (put_reg MDIC (val OR E1000_MDIC_READY) s) 0 E1000_ICR_MDAC)"

section \<open>The EEPROM\<close>

definition get_eecd :: "E1000State \<Rightarrow> nat \<Rightarrow> u32" where
  "get_eecd s index =
    (let e = eecd_state s;
         ret = E1000_EECD_PRES OR E1000_EECD_GNT OR old_eecd e
     in if reading e = 0 \<or>
           drop_bit (unat ((bitnum_out e AND 0xf) XOR 0xf))
             (eeprom_data s (unat (drop_bit 4 (bitnum_out e) AND 0x3f))) AND 1 \<noteq> 0
        then ret OR E1000_EECD_DO else ret)"

definition set_eecd :: "E1000State \<Rightarrow> nat \<Rightarrow> u32 \<Rightarrow> E1000State" where
  "set_eecd s index val =
    (let oldval = old_eecd (eecd_state s);
         e = (eecd_state s)\<lparr>old_eecd := val AND (E1000_EECD_SK OR E1000_EECD_CS OR E1000_EECD_DI OR
               E1000_EECD_FWE_MASK OR E1000_EECD_REQ)\<rparr>
     in if E1000_EECD_CS AND val = 0 then s\<lparr>eecd_state := e\<rparr>
        else
          let e = (if E1000_EECD_CS AND (val XOR oldval) \<noteq> 0
                   then e\<lparr>val_in := 0, bitnum_in := 0, bitnum_out := 0, reading := 0\<rparr> else e)
          in if E1000_EECD_SK AND (val XOR oldval) = 0 then s\<lparr>eecd_state := e\<rparr>
             else if E1000_EECD_SK AND val = 0
             then s\<lparr>eecd_state := e\<lparr>bitnum_out := bitnum_out e + 1\<rparr>\<rparr>
             else
               let e = e\<lparr>val_in := push_bit 1 (val_in e)\<rparr>;
                   e = (if val AND E1000_EECD_DI \<noteq> 0 then e\<lparr>val_in := val_in e OR 1\<rparr> else e);
                   e = e\<lparr>bitnum_in := bitnum_in e + 1\<rparr>
               in if bitnum_in e = 9 \<and> reading e = 0
                  then s\<lparr>eecd_state := e\<lparr>bitnum_out := ucast (push_bit 4 (val_in e AND 0x3f) - 1),
                        reading := (if drop_bit 6 (val_in e) AND 7 = EEPROM_READ_OPCODE_MICROWIRE then 1 else 0)\<rparr>\<rparr>
                  else s\<lparr>eecd_state := e\<rparr>)"

definition flash_eerd_read :: "E1000State \<Rightarrow> nat \<Rightarrow> u32" where
  "flash_eerd_read s x =
    (let r = mac_reg s EERD AND NOT E1000_EEPROM_RW_REG_START
     in if mac_reg s EERD AND E1000_EEPROM_RW_REG_START = 0 then mac_reg s EERD
        else let index = unat (drop_bit E1000_EEPROM_RW_ADDR_SHIFT r)
             in if index > EEPROM_CHECKSUM_REG then E1000_EEPROM_RW_REG_DONE OR r
                else push_bit E1000_EEPROM_RW_REG_DATA (ucast (eeprom_data s index)) OR E1000_EEPROM_RW_REG_DONE OR r)"

section \<open>Plain registers and counters\<close>

definition mac_readreg :: "E1000State \<Rightarrow> nat \<Rightarrow> u32" where
  "mac_readreg s index = mac_reg s index"

definition mac_read_clr4 :: "E1000State \<Rightarrow> nat \<Rightarrow> u32 \<times> E1000State" where
  "mac_read_clr4 s index = (mac_reg s index, put_reg index 0 s)"

definition mac_read_clr8 :: "E1000State \<Rightarrow> nat \<Rightarrow> u32 \<times> E1000State" where
  "mac_read_clr8 s index = (mac_reg s index, put_reg (index - 1) 0 (put_reg index 0 s))"

definition mac_writereg :: "E1000State \<Rightarrow> nat \<Rightarrow> u32 \<Rightarrow> E1000State" where
  "mac_writereg s index val = put_reg index val s"

definition set_rdt :: "E1000State \<Rightarrow> nat \<Rightarrow> u32 \<Rightarrow> E1000State" where
  "set_rdt s index val = put_reg index (val AND 0xffff) (s\<lparr>check_rxov := False\<rparr>)"

definition set_16bit :: "E1000State \<Rightarrow> nat \<Rightarrow> u32 \<Rightarrow> E1000State" where
  "set_16bit s index val = put_reg index (val AND 0xffff) s"

definition set_dlen :: "E1000State \<Rightarrow> nat \<Rightarrow> u32 \<Rightarrow> E1000State" where
  "set_dlen s index val = put_reg index (val AND 0xfff80) s"

lemmas [reg_defs] = set_interrupt_cause_def set_ics_def set_icr_def set_imc_def set_ims_def mac_icr_read_def
  set_ctrl_def set_rx_control_def e1000_set_link_status_def set_mdic_def set_eecd_def mac_read_clr4_def
  mac_read_clr8_def mac_writereg_def set_rdt_def set_16bit_def set_dlen_def

section \<open>Frame facts\<close>

lemma put_reg_sel [simp]:
  "mac_reg (put_reg i v s) j = (if j = i then v else mac_reg s j)"
  "phy_reg (put_reg i v s) = phy_reg s" "eeprom_data (put_reg i v s) = eeprom_data s"
  "rxbuf_size (put_reg i v s) = rxbuf_size s" "rxbuf_min_shift (put_reg i v s) = rxbuf_min_shift s"
  "check_rxov (put_reg i v s) = check_rxov s" "tx (put_reg i v s) = tx s" "fs (put_reg i v s) = fs s"
  "eecd_state (put_reg i v s) = eecd_state s" "irq (put_reg i v s) = irq s"
  by (simp_all add: put_reg_def)

definition asserted :: "u32 \<Rightarrow> u32" where
  "asserted v = (if v = 0 then 0 else v OR E1000_ICR_INT_ASSERTED)"

lemma set_interrupt_cause_sel [simp]:
  "mac_reg (set_interrupt_cause s i v) j =
     (if j = ICR \<or> j = ICS then asserted v else mac_reg s j)"
  "irq (set_interrupt_cause s i v) = (mac_reg s IMS AND asserted v \<noteq> 0)"
  "phy_reg (set_interrupt_cause s i v) = phy_reg s" "eeprom_data (set_interrupt_cause s i v) = eeprom_data s"
  "rxbuf_size (set_interrupt_cause s i v) = rxbuf_size s"
  "rxbuf_min_shift (set_interrupt_cause s i v) = rxbuf_min_shift s"
  "check_rxov (set_interrupt_cause s i v) = check_rxov s" "tx (set_interrupt_cause s i v) = tx s"
  "fs (set_interrupt_cause s i v) = fs s" "eecd_state (set_interrupt_cause s i v) = eecd_state s"
  by (simp_all add: set_interrupt_cause_def asserted_def Let_def)

lemma set_ics_sel [simp]:
  "mac_reg (set_ics s i v) j = (if j = ICR \<or> j = ICS then asserted (v OR mac_reg s ICR) else mac_reg s j)"
  "irq (set_ics s i v) = (mac_reg s IMS AND asserted (v OR mac_reg s ICR) \<noteq> 0)"
  "phy_reg (set_ics s i v) = phy_reg s" "eeprom_data (set_ics s i v) = eeprom_data s"
  "rxbuf_size (set_ics s i v) = rxbuf_size s"
  "rxbuf_min_shift (set_ics s i v) = rxbuf_min_shift s"
  "check_rxov (set_ics s i v) = check_rxov s" "tx (set_ics s i v) = tx s"
  "fs (set_ics s i v) = fs s" "eecd_state (set_ics s i v) = eecd_state s"
  by (simp_all add: set_ics_def)

section \<open>The interrupt line\<close>

text \<open>
  The level of the interrupt line is the one the registers ask for, \<^verbatim>\<open>ICS\<close> mirrors \<^verbatim>\<open>ICR\<close>, and a cause
  register that is not clear has the asserted bit.
\<close>

definition irq_ok :: "E1000State \<Rightarrow> bool" where
  "irq_ok s \<longleftrightarrow> irq s = (mac_reg s IMS AND mac_reg s ICR \<noteq> 0) \<and> mac_reg s ICS = mac_reg s ICR \<and>
     (mac_reg s ICR \<noteq> 0 \<longrightarrow> mac_reg s ICR AND E1000_ICR_INT_ASSERTED \<noteq> 0)"

lemma asserted_bit: "asserted v \<noteq> 0 \<Longrightarrow> asserted v AND E1000_ICR_INT_ASSERTED \<noteq> 0"
  by (auto simp: asserted_def word_bw_comms bit_eq_iff bit_simps split: if_splits intro: exI [of _ 31])

lemma asserted_keeps: "bit v n \<Longrightarrow> bit (asserted v) n"
  by (auto simp: asserted_def bit_or_iff)

section \<open>Invariants of the device\<close>

text \<open>
  A predicate on the device that survives each kind of update the operations make survives the
  operations. A register is free when no invariant below speaks about it; the ring registers take
  16-bit values and the ring lengths are multiples of 128 below one megabyte.
\<close>

abbreviation ring_regs :: "nat set" where "ring_regs \<equiv> {TDH, TDT, RDH, RDT}"
abbreviation length_regs :: "nat set" where "length_regs \<equiv> {TDLEN, RDLEN}"

definition free_reg :: "nat \<Rightarrow> bool" where
  "free_reg i \<longleftrightarrow> i \<notin> {ICR, ICS, IMS} \<union> ring_regs \<union> length_regs"

locale device_invariant =
  fixes I :: "E1000State \<Rightarrow> bool"
  assumes cause: "I s \<Longrightarrow> I (set_interrupt_cause s i v)"
    and mask: "I s \<Longrightarrow> I (set_interrupt_cause (put_reg IMS w s) i v)"
    and free: "I s \<Longrightarrow> free_reg i \<Longrightarrow> I (put_reg i v s)"
    and ring: "I s \<Longrightarrow> i \<in> ring_regs \<Longrightarrow> v \<le> 0xffff \<Longrightarrow> I (put_reg i v s)"
    and len: "I s \<Longrightarrow> i \<in> length_regs \<Longrightarrow> I (put_reg i (v AND 0xfff80) s)"
    and rxbuf: "I s \<Longrightarrow> I (s\<lparr>rxbuf_size := rxbufsize v,
       rxbuf_min_shift := ((v div E1000_RCTL_RDMTS_QUAT) AND 3) + 1\<rparr>)"
    and other: "I s \<Longrightarrow> I (s\<lparr>phy_reg := p\<rparr>)" "I s \<Longrightarrow> I (s\<lparr>check_rxov := c\<rparr>)" "I s \<Longrightarrow> I (s\<lparr>tx := t\<rparr>)"
      "I s \<Longrightarrow> I (s\<lparr>fs := f\<rparr>)" "I s \<Longrightarrow> I (s\<lparr>eecd_state := e\<rparr>)"
begin

lemma inv_ics: "I s \<Longrightarrow> I (set_ics s i v)"
  by (simp add: set_ics_def cause)

lemma inv_interrupts:
  assumes "I s"
  shows "I (set_icr s i v)" "I (set_imc s i v)" "I (set_ims s i v)" "I (snd (mac_icr_read s i))"
  using assms by (simp_all add: set_icr_def set_imc_def set_ims_def set_ics_def mac_icr_read_def cause mask)

lemma inv_control:
  assumes "I s"
  shows "I (set_ctrl s i v)" "I (set_rx_control s i v)" "I (e1000_set_link_status d s)"
  using assms rxbuf [of "put_reg RCTL v s" v]
  by (simp_all add: set_ctrl_def set_rx_control_def e1000_set_link_status_def Let_def free free_reg_def inv_ics)

lemma inv_mdic: "I s \<Longrightarrow> I (set_mdic s i v)"
  by (simp add: set_mdic_def Let_def free free_reg_def inv_ics other)

lemma inv_eecd: "I s \<Longrightarrow> I (set_eecd s i v)"
  by (simp add: set_eecd_def Let_def other)

lemma inv_plain:
  assumes "I s"
  shows "free_reg i \<Longrightarrow> I (mac_writereg s i v)" "free_reg i \<Longrightarrow> I (snd (mac_read_clr4 s i))"
    "free_reg i \<Longrightarrow> free_reg (i - 1) \<Longrightarrow> I (snd (mac_read_clr8 s i))"
    "i \<in> ring_regs \<Longrightarrow> I (set_16bit s i v)" "i \<in> ring_regs \<Longrightarrow> I (set_rdt s i v)"
    "i \<in> length_regs \<Longrightarrow> I (set_dlen s i v)"
  using assms
  by (simp_all add: mac_writereg_def mac_read_clr4_def mac_read_clr8_def set_16bit_def set_rdt_def set_dlen_def
      free other ring len word_and_le1)

end

text \<open>The level of the interrupt line follows the registers.\<close>

interpretation irqs: device_invariant irq_ok
proof unfold_locales
  show "irq_ok s \<Longrightarrow> irq_ok (set_interrupt_cause s i v)" for s i v
    using asserted_bit [of v] by (simp add: irq_ok_def)
  show "irq_ok s \<Longrightarrow> irq_ok (set_interrupt_cause (put_reg IMS w s) i v)" for s i w v
    using asserted_bit [of v] by (simp add: irq_ok_def)
  show "irq_ok s \<Longrightarrow> i \<in> ring_regs \<Longrightarrow> v \<le> 0xffff \<Longrightarrow> irq_ok (put_reg i v s)" for s i v
    by (auto simp: irq_ok_def)
qed (auto simp: irq_ok_def free_reg_def)

text \<open>Nothing but the set-up of the device writes its EEPROM.\<close>

interpretation rom: device_invariant "\<lambda>s. eeprom_data s = rom"
  by unfold_locales (simp_all)

text \<open>
  The ring registers are in range: heads and tails have 16 bits, ring lengths are whole cache lines
  below one megabyte, the receive buffer size is one that \<^verbatim>\<open>RCTL\<close> can select (or 0, before the first
  write to it).
\<close>

definition ring_ok :: "E1000State \<Rightarrow> bool" where
  "ring_ok s \<longleftrightarrow> mac_reg s TDH \<le> 0xffff \<and> mac_reg s TDT \<le> 0xffff \<and> mac_reg s RDH \<le> 0xffff \<and> mac_reg s RDT \<le> 0xffff \<and>
     mac_reg s TDLEN AND NOT 0xfff80 = 0 \<and> mac_reg s RDLEN AND NOT 0xfff80 = 0 \<and>
     rxbuf_size s \<in> {0, 256, 512, 1024, 2048, 4096, 8192, 16384} \<and> rxbuf_min_shift s \<in> {1, 2, 3, 4}"

lemma rxbufsize_in: "rxbufsize v \<in> {0, 256, 512, 1024, 2048, 4096, 8192, 16384}"
  by (simp add: rxbufsize_def Let_def)

lemma and_3_cases: "(w :: u32) AND 3 \<in> {0, 1, 2, 3}"
proof -
  have "w AND 3 = take_bit 2 w" by (simp add: take_bit_eq_mask mask_eq_exp_minus_1)
  then have "unat (w AND 3) < 4"
    using take_bit_nat_less_exp [of 2 "unat w"] by (simp only: unsigned_take_bit_eq) simp
  then have "unat (w AND 3) \<in> {0, 1, 2, 3}" by auto
  then show ?thesis by (auto simp: word_unat_eq_iff)
qed

interpretation rings: device_invariant ring_ok
proof unfold_locales
  show "ring_ok s \<Longrightarrow> ring_ok (s\<lparr>rxbuf_size := rxbufsize v,
    rxbuf_min_shift := ((v div E1000_RCTL_RDMTS_QUAT) AND 3) + 1\<rparr>)" for s v
    using rxbufsize_in [of v] and_3_cases [of "v div E1000_RCTL_RDMTS_QUAT"]
    by (auto simp: ring_ok_def)
  show "ring_ok s \<Longrightarrow> i \<in> ring_regs \<Longrightarrow> v \<le> 0xffff \<Longrightarrow> ring_ok (put_reg i v s)" for s i v
    by (auto simp: ring_ok_def)
  show "ring_ok s \<Longrightarrow> i \<in> length_regs \<Longrightarrow> ring_ok (put_reg i (v AND 0xfff80) s)" for s i v
    by (auto simp: ring_ok_def word_bw_assocs)
qed (auto simp: ring_ok_def free_reg_def)

section \<open>Receive buffer size\<close>

lemma rctl_size_bits:
  "(v :: u32) AND 0x2030000 = (if bit v 25 then 0x2000000 else 0) OR push_bit 16 (drop_bit 16 v AND 3)"
proof -
  have "v AND 0x2030000 = v AND (2 ^ 25 OR push_bit 16 3)" by simp
  also have "\<dots> = (v AND 2 ^ 25) OR (v AND push_bit 16 3)" by (rule bit.conj_disj_distrib)
  also have "v AND push_bit 16 3 = push_bit 16 (drop_bit 16 v AND 3)" by (rule and_push_bit)
  finally show ?thesis using and_exp [of v 25] by simp
qed

text \<open>
  C30: The receive buffer size that \<^verbatim>\<open>rxbufsize\<close> decodes from \<^verbatim>\<open>RCTL\<close>: with size field \<open>sz\<close> (bits 16 and 17)
  it is 2048 divided by \<open>2 ^ sz\<close>, and with the extension bit (bit 25) sixteen times that; the reserved
  combination of the extension bit with a zero field gives 2048. It is a power of two between 256 and
  16384 for every value of the register.
\<close>

theorem rxbufsize_decodes:
  "rxbufsize v = (let sz = unat (drop_bit 16 v AND 3) in
     if bit v 25 \<and> sz \<noteq> 0 then 32768 div 2 ^ sz else 2048 div 2 ^ sz)"
proof -
  define f where "f = drop_bit 16 v AND 3"
  have m: "v AND 0x2030000 = (if bit v 25 then 0x2000000 else 0) OR push_bit 16 f"
    by (simp only: rctl_size_bits f_def)
  have "f \<in> {0, 1, 2, 3}" unfolding f_def by (rule and_3_cases)
  then show ?thesis
    unfolding rxbufsize_def f_def [symmetric]
    by (cases "bit v 25") (auto simp: m)
qed

section \<open>The PHY behind MDIC\<close>

definition mdic_phy :: "u32 \<Rightarrow> u32" where
  "mdic_phy v = drop_bit E1000_MDIC_PHY_SHIFT (v AND E1000_MDIC_PHY_MASK)"

definition mdic_reg :: "u32 \<Rightarrow> nat" where
  "mdic_reg v = unat (drop_bit E1000_MDIC_REG_SHIFT (v AND E1000_MDIC_REG_MASK))"

lemma set_mdic_write:
  assumes "mdic_phy w = 1" and "w AND E1000_MDIC_OP_READ = 0" and "w AND E1000_MDIC_OP_WRITE \<noteq> 0"
    and "phy_regcap (mdic_reg w) AND PHY_W \<noteq> 0"
  shows "phy_reg (set_mdic s i w) = (phy_reg s)(mdic_reg w := ucast (w AND E1000_MDIC_DATA_MASK))"
  using assms by (simp add: set_mdic_def mdic_phy_def mdic_reg_def Let_def)

lemma set_mdic_read:
  assumes "mdic_phy r = 1" and "r AND E1000_MDIC_OP_READ \<noteq> 0"
    and "phy_regcap (mdic_reg r) AND PHY_R \<noteq> 0"
  shows "mac_reg (set_mdic s i r) MDIC =
    ((r XOR (r AND E1000_MDIC_DATA_MASK)) OR ucast (phy_reg s (mdic_reg r))) OR E1000_MDIC_READY"
  using assms by (simp add: set_mdic_def mdic_phy_def mdic_reg_def Let_def)

lemma set_mdic_cause: "mac_reg (set_mdic s i v) ICR AND E1000_ICR_MDAC \<noteq> 0"
proof -
  have "bit (asserted (E1000_ICR_MDAC OR c)) 9" for c
    by (rule asserted_keeps) (simp add: bit_or_iff)
  then have "asserted (E1000_ICR_MDAC OR c) AND E1000_ICR_MDAC = E1000_ICR_MDAC" for c
    using and_exp [of "asserted (E1000_ICR_MDAC OR c)" 9] by simp
  then show ?thesis unfolding set_mdic_def Let_def case_prod_unfold by simp
qed

lemma bit_ffff: "bit (0xffff :: u32) n \<longleftrightarrow> n < 16"
  using bit_mask_iff [where 'a = u32, of 16 n] by (auto simp: mask_eq_exp_minus_1)

lemma mdic_data_ucast: "(ucast (((r XOR (r AND 0xffff)) OR ucast d) OR E1000_MDIC_READY) :: u16) = d"
proof (rule bit_word_eqI)
  fix n
  assume "n < LENGTH(16)"
  then have n: "n < 16" by simp

  have "\<not> bit E1000_MDIC_READY n"
    using n bit_exp_iff [where 'a = u32, of 28 n] by simp
  with n show "bit (ucast (((r XOR (r AND 0xffff)) OR ucast d) OR E1000_MDIC_READY) :: u16) n = bit d n"
    by (simp only: bit_ucast_word bit_or_iff bit_xor_iff bit_and_iff bit_ffff) auto
qed

text \<open>
  C29: A value written to a PHY register reads back. A write command for a register of the PHY that is
  readable and writable, followed by a read command for the same register, leaves the written sixteen
  bits in the data field of \<^verbatim>\<open>MDIC\<close> with the ready bit set and an \<^verbatim>\<open>MDAC\<close> interrupt cause pending, and no
  other register of the PHY has changed.
\<close>

theorem mdic_write_read:
  assumes "mdic_phy w = 1" and "w AND E1000_MDIC_OP_READ = 0" and "w AND E1000_MDIC_OP_WRITE \<noteq> 0"
    and "mdic_phy r = 1" and "r AND E1000_MDIC_OP_READ \<noteq> 0"
    and "mdic_reg r = mdic_reg w" and "phy_regcap (mdic_reg w) = PHY_RW"
  shows "let s' = set_mdic (set_mdic s MDIC w) MDIC r in
    (ucast (mac_reg s' MDIC) :: u16) = ucast w \<and> mac_reg s' MDIC AND E1000_MDIC_READY \<noteq> 0 \<and>
    mac_reg s' ICR AND E1000_ICR_MDAC \<noteq> 0 \<and> (\<forall>a. a \<noteq> mdic_reg w \<longrightarrow> phy_reg s' a = phy_reg s a)"
proof -
  have d: "(ucast (w AND E1000_MDIC_DATA_MASK) :: u16) = ucast w"
    by (rule bit_word_eqI) (simp only: bit_ucast_word bit_and_iff bit_ffff, simp)
  let ?s = "set_mdic s MDIC w" and ?s' = "set_mdic (set_mdic s MDIC w) MDIC r"
  have 1: "phy_reg ?s = (phy_reg s)(mdic_reg w := ucast w)"
    using set_mdic_write [of w s MDIC] assms by (simp add: d)
  have 2: "mac_reg ?s' MDIC = ((r XOR (r AND E1000_MDIC_DATA_MASK)) OR ucast (phy_reg ?s (mdic_reg r))) OR E1000_MDIC_READY"
    using assms by (intro set_mdic_read) simp_all
  have "phy_reg ?s' = phy_reg ?s"
    using assms by (simp add: set_mdic_def mdic_phy_def mdic_reg_def Let_def)
  moreover have "mac_reg ?s' MDIC AND E1000_MDIC_READY \<noteq> 0"
    unfolding 2 by (simp add: bit.conj_disj_distrib2)
  ultimately show ?thesis
    using 1 2 assms set_mdic_cause [of ?s MDIC r] by (simp only: Let_def mdic_data_ucast) simp
qed

section \<open>Reading the EEPROM bit by bit\<close>

text \<open>
  A driver reads the EEPROM by driving chip select, clock and data of a Microwire device through
  \<^verbatim>\<open>EECD\<close>: it selects the chip, clocks in the opcode and the six address bits, most significant first,
  and then clocks out data bits, sampling \<^verbatim>\<open>DO\<close> while the clock is high.
\<close>

definition eecd_lines :: "bool \<Rightarrow> bool \<Rightarrow> u32" where
  "eecd_lines clk d = E1000_EECD_CS OR (if clk then E1000_EECD_SK else 0) OR (if d then E1000_EECD_DI else 0)"

definition mw_select :: "E1000State \<Rightarrow> E1000State" where
  "mw_select s = set_eecd (set_eecd s EECD 0) EECD (eecd_lines False False)"

definition mw_out :: "bool \<Rightarrow> E1000State \<Rightarrow> E1000State" where
  "mw_out b s = set_eecd (set_eecd s EECD (eecd_lines True b)) EECD (eecd_lines False b)"

fun mw_in :: "nat \<Rightarrow> E1000State \<Rightarrow> bool list" where
  "mw_in 0 s = []"
| "mw_in (Suc n) s = (let s' = set_eecd s EECD (eecd_lines True False)
     in (get_eecd s' EECD AND E1000_EECD_DO \<noteq> 0) # mw_in n (set_eecd s' EECD (eecd_lines False False)))"

definition mw_read_cmd :: "nat \<Rightarrow> bool list" where
  "mw_read_cmd a = [True, True, False] @ map (\<lambda>i. bit a (5 - i)) [0..<6]"

definition eeprom_bit :: "E1000State \<Rightarrow> nat \<Rightarrow> bool" where
  "eeprom_bit s k = bit (eeprom_data s (k div 16 mod 64)) (15 - k mod 16)"

lemma mw_select_state:
  "mw_select s = s\<lparr>eecd_state := \<lparr>val_in = 0, bitnum_in = 0, bitnum_out = 0, reading = 0, old_eecd = eecd_lines False False\<rparr>\<rparr>"
  by (simp add: mw_select_def set_eecd_def eecd_lines_def Let_def)

text \<open>The command phase: eight bits only shift, the ninth latches address and opcode.\<close>

definition shift_in :: "bool \<Rightarrow> u32 \<Rightarrow> u32" where
  "shift_in b v = (if b then push_bit 1 v OR 1 else push_bit 1 v)"

lemma set_eecd_fall:
  "set_eecd (s\<lparr>eecd_state := \<lparr>val_in = v, bitnum_in = i, bitnum_out = k, reading = r, old_eecd = eecd_lines True d\<rparr>\<rparr>)
     EECD (eecd_lines False d') =
   s\<lparr>eecd_state := \<lparr>val_in = v, bitnum_in = i, bitnum_out = k + 1, reading = r, old_eecd = eecd_lines False d'\<rparr>\<rparr>"
  by (cases d; cases d') (simp_all add: set_eecd_def eecd_lines_def)

lemma set_eecd_rise:
  "set_eecd (s\<lparr>eecd_state := \<lparr>val_in = v, bitnum_in = i, bitnum_out = k, reading = r, old_eecd = eecd_lines False d\<rparr>\<rparr>)
     EECD (eecd_lines True d') =
   s\<lparr>eecd_state := (if i + 1 = 9 \<and> r = 0
     then \<lparr>val_in = shift_in d' v, bitnum_in = i + 1, bitnum_out = ucast (push_bit 4 (shift_in d' v AND 0x3f) - 1),
            reading = (if drop_bit 6 (shift_in d' v) AND 7 = EEPROM_READ_OPCODE_MICROWIRE then 1 else 0),
            old_eecd = eecd_lines True d'\<rparr>
     else \<lparr>val_in = shift_in d' v, bitnum_in = i + 1, bitnum_out = k, reading = r, old_eecd = eecd_lines True d'\<rparr>)\<rparr>"
  by (cases d; cases d'; simp add: set_eecd_def shift_in_def eecd_lines_def; simp add: Let_def)

lemma mw_command_value:
  assumes "a < 64"
  shows "fold shift_in (mw_read_cmd a) 0 = 0x180 OR of_nat a"
proof -
  have "\<forall>a\<in>set [0..<64]. fold shift_in (mw_read_cmd a) 0 = 0x180 OR of_nat a"
    by code_simp
  with assms show ?thesis by simp
qed

lemma mw_command_latch:
  assumes "a < 64"
  shows "ucast (push_bit 4 ((0x180 OR of_nat a :: u32) AND 0x3f) - 1) + 1 = (of_nat (16 * a) :: u16)"
    and "drop_bit 6 (0x180 OR of_nat a :: u32) AND 7 = EEPROM_READ_OPCODE_MICROWIRE"
proof -
  have "\<forall>a\<in>set [0..<64]. ucast (push_bit 4 ((0x180 OR of_nat a :: u32) AND 0x3f) - 1) + 1 = (of_nat (16 * a) :: u16) \<and>
    drop_bit 6 (0x180 OR of_nat a :: u32) AND 7 = EEPROM_READ_OPCODE_MICROWIRE"
    by code_simp
  with assms show "ucast (push_bit 4 ((0x180 OR of_nat a :: u32) AND 0x3f) - 1) + 1 = (of_nat (16 * a) :: u16)"
    and "drop_bit 6 (0x180 OR of_nat a :: u32) AND 7 = EEPROM_READ_OPCODE_MICROWIRE" by simp_all
qed

lemma mw_command:
  assumes "a < 64"
  shows "fold mw_out (mw_read_cmd a) (mw_select s) =
    s\<lparr>eecd_state := \<lparr>val_in = 0x180 OR of_nat a, bitnum_in = 9, bitnum_out = of_nat (16 * a), reading = 1,
      old_eecd = eecd_lines False (bit a 0)\<rparr>\<rparr>"
  using mw_command_value [OF assms] mw_command_latch [OF assms]
  by (simp add: mw_read_cmd_def mw_select_state mw_out_def set_eecd_rise set_eecd_fall upt_rec)

text \<open>The data phase: each clock delivers one bit and advances by one, into the next word after sixteen.\<close>

lemma get_eecd_bit:
  assumes "eecd_state s = \<lparr>val_in = v, bitnum_in = i, bitnum_out = k, reading = 1, old_eecd = eecd_lines c d\<rparr>"
  shows "get_eecd s EECD AND E1000_EECD_DO \<noteq> 0 \<longleftrightarrow> eeprom_bit s (unat k)"
proof -
  have low: "unat (k AND 0xf) = unat k mod 16"
    by (simp add: unat_and_mask [of _ 4, simplified mask_eq_exp_minus_1, simplified])
  have "\<forall>m\<in>set [0..<16]. unat (of_nat m XOR 0xf :: u16) = 15 - m" by code_simp
  then have "unat (of_nat (unat k mod 16) XOR 0xf :: u16) = 15 - unat k mod 16"
    by simp
  moreover have "of_nat (unat k mod 16) = k AND 0xf"
    by (simp flip: low)
  ultimately have sh: "unat ((k AND 0xf) XOR 0xf) = 15 - unat k mod 16"
    by simp
  have "unat (drop_bit 4 k) = unat k div 16"
    by (simp only: drop_bit_eq_div unat_div) simp
  then have ix: "unat (drop_bit 4 k AND 0x3f) = unat k div 16 mod 64"
    by (simp add: unat_and_mask [of _ 6, simplified mask_eq_exp_minus_1, simplified])
  have b: "drop_bit n w AND 1 \<noteq> 0 \<longleftrightarrow> bit w n" for w :: u16 and n
    by (simp add: and_one_eq bit_iff_odd_drop_bit odd_iff_mod_2_eq_one)
  show ?thesis
    by (cases c; cases d) (simp_all add: assms get_eecd_def Let_def eeprom_bit_def b sh ix eecd_lines_def)
qed

lemma mw_in_step:
  assumes "s = t\<lparr>eecd_state := \<lparr>val_in = v, bitnum_in = i, bitnum_out = k, reading = 1, old_eecd = eecd_lines False d\<rparr>\<rparr>"
  shows "mw_in (Suc n) s = eeprom_bit t (unat k) # mw_in n (t\<lparr>eecd_state :=
    \<lparr>val_in = shift_in False v, bitnum_in = i + 1, bitnum_out = k + 1, reading = 1, old_eecd = eecd_lines False False\<rparr>\<rparr>)"
  by (simp add: assms set_eecd_rise set_eecd_fall get_eecd_bit Let_def) (simp add: eeprom_bit_def)

lemma eeprom_bit_wrap: "eeprom_bit t (unat (k + 1 :: u16) + i) = eeprom_bit t (unat k + Suc i)"
proof (cases "k + 1 = 0")
  case True
  then have "k = 0xffff" by (simp add: add_eq_0_iff2)
  then have "unat k = 65535" by simp
  moreover have "(65536 + i) div 16 mod 64 = i div 16 mod 64" "(65536 + i) mod 16 = i mod 16"
    using div_mult_self1 [of 16 i 4096] mod_mult_self1 [of "i div 16" 64 64] mod_mult_self1 [of i 4096 16]
    by (simp_all add: add.commute)
  ultimately show ?thesis using True by (simp add: eeprom_bit_def)
next
  case False
  then have "unat (k + 1) = Suc (unat k)" by (simp add: unatSuc add.commute)
  then show ?thesis by simp
qed

lemma mw_in_bits:
  "mw_in n (t\<lparr>eecd_state := \<lparr>val_in = v, bitnum_in = i, bitnum_out = k, reading = 1, old_eecd = eecd_lines False d\<rparr>\<rparr>)
    = map (\<lambda>j. eeprom_bit t (unat k + j)) [0..<n]"
proof (induction n arbitrary: d v i k)
  case 0
  show ?case by simp
next
  case (Suc n)
  show ?case
    unfolding mw_in_step [OF refl] Suc.IH
    by (simp only: eeprom_bit_wrap upt_conv_Cons map_Suc_upt [symmetric] map_map comp_def list.map add_0_right zero_less_Suc)
qed

text \<open>
  C28: Reading the EEPROM through \<^verbatim>\<open>EECD\<close>. From any state of the device, selecting the chip, clocking in
  the Microwire read command for word \<open>a\<close> and clocking out \<open>n\<close> bits delivers the bits of word \<open>a\<close>, most
  significant bit first, and continues with the words after it, wrapping from the last word to the
  first; whatever state an earlier, unfinished command left behind does not matter.
\<close>

theorem microwire_read:
  assumes "a < 64"
  shows "mw_in n (fold mw_out (mw_read_cmd a) (mw_select s)) =
    map (\<lambda>j. bit (eeprom_data s ((a + j div 16) mod 64)) (15 - j mod 16)) [0..<n]"
proof -
  have u: "unat (of_nat (16 * a) :: u16) = 16 * a"
    using assms by (simp only: unat_of_nat) simp
  have "mw_in n (fold mw_out (mw_read_cmd a) (mw_select s)) = map (\<lambda>j. eeprom_bit s (16 * a + j)) [0..<n]"
    using mw_command [OF assms, of s] by (auto simp only: mw_in_bits u)
  then show ?thesis
    by (simp add: eeprom_bit_def div_mult_self3)
qed


section \<open>Applications at concrete inputs\<close>

text \<open>A device whose state is all zero, as it is allocated.\<close>

definition tx0 :: e1000_tx where
  "tx0 = \<lparr>header = (\<lambda>_. 0), vlan_header = [0, 0, 0, 0], vlan = [0, 0, 0, 0], data = (\<lambda>_. 0), tx_size = 0,
     sum_needed = 0, vlan_needed = False, ipcss = 0, ipcso = 0, ipcse = 0, tucss = 0, tucso = 0, tucse = 0,
     hdr_len = 0, mss = 0, paylen = 0, tso_frames = 0, tse = False, ip = False, tcp = False, cptse = False\<rparr>"

definition dev0 :: E1000State where
  "dev0 = \<lparr>mac_reg = (\<lambda>_. 0), phy_reg = (\<lambda>_. 0), eeprom_data = (\<lambda>_. 0), rxbuf_size = 0, rxbuf_min_shift = 0,
     check_rxov = False, tx = tx0, fs = 0,
     eecd_state = \<lparr>val_in = 0, bitnum_in = 0, bitnum_out = 0, reading = 0, old_eecd = 0\<rparr>, irq = False\<rparr>"

theorem microwire_read_witness:
  "(3 :: nat) < 64 \<and> mw_in 4 (fold mw_out (mw_read_cmd 3) (mw_select (dev0\<lparr>eeprom_data := (\<lambda>i. 0xA000)\<rparr>))) =
    [True, False, True, False]"
  using microwire_read [of 3 4 "dev0\<lparr>eeprom_data := (\<lambda>i. 0xA000)\<rparr>"] by (simp add: upt_rec)

theorem mdic_write_read_witness:
  "phy_regcap (mdic_reg 0x04241234) = PHY_RW \<and>
   (ucast (mac_reg (set_mdic (set_mdic dev0 MDIC 0x04241234) MDIC 0x08240000) MDIC) :: u16) = 0x1234"
proof -
  have "mdic_reg 0x04241234 = 4" "mdic_reg 0x08240000 = 4" "mdic_phy 0x04241234 = 1" "mdic_phy 0x08240000 = 1"
    by (simp_all add: mdic_reg_def mdic_phy_def)
  moreover have "phy_regcap 4 = PHY_RW" by (simp add: phy_regcap_def)
  ultimately show ?thesis
    using mdic_write_read [of "0x04241234" "0x08240000" dev0] by (simp add: Let_def)
qed

end
