(* ===== verification/Net_Checksum.thy ===== *)
theory Net_Checksum
  imports VF_Prelude
begin

text \<open>
  The Internet checksum of \<^verbatim>\<open>net/checksum.c\<close>, which the device uses for checksum offload: the sum of the
  big-endian 16-bit words of a buffer, its folding to sixteen bits and complement, the TCP/UDP checksum
  with pseudo header, and the routine that fills the checksum into a frame. A buffer is the list of its
  bytes. The lemmas show that the sums do not wrap on buffers of up to 64 kilobytes, that folding keeps
  the sum modulo 65535 and ends, and that a checksum that has been filled in verifies.
\<close>

section \<open>Sums\<close>

primrec checksum_loop :: "nat \<Rightarrow> u8 list \<Rightarrow> u32 \<Rightarrow> u32" where
  "checksum_loop i [] sm = sm"
| "checksum_loop i (b # bs) sm =
     checksum_loop (i + 1) bs (if odd i then sm + ucast b else sm + push_bit 8 (ucast b))"

text \<open>\<open>len\<close> is an \<^verbatim>\<open>int\<close>: with a negative length the loop does not run.\<close>

definition net_checksum_add :: "int \<Rightarrow> u8 list \<Rightarrow> u32 outcome" where
  "net_checksum_add len buf =
    (if len > int (length buf) then Fault Out_Of_Bounds else Ok (checksum_loop 0 (take (nat len) buf) 0))"

function checksum_fold :: "u32 \<Rightarrow> u32" where
  "checksum_fold sm = (if drop_bit 16 sm \<noteq> 0 then checksum_fold ((sm AND 0xFFFF) + drop_bit 16 sm) else sm)"
  by auto

text \<open>Folding as arithmetic, and its termination: each turn makes the sum smaller.\<close>

lemma unat_drop_16: "unat (drop_bit 16 (w :: u32)) = unat w div 65536"
  by (simp only: drop_bit_eq_div unat_div) simp

lemma unat_and_ffff: "unat ((w :: u32) AND 0xFFFF) = unat w mod 65536"
  using unat_and_mask [of w 16] by (simp add: mask_eq_exp_minus_1)

lemma unat_fold_step: "unat ((w AND 0xFFFF) + drop_bit 16 w :: u32) = unat w mod 65536 + unat w div 65536"
proof -
  have "unat w < 2 ^ 32" using unsigned_less [of w] by simp
  then have "unat w mod 65536 + unat w div 65536 < 2 ^ 32"
    by (simp add: less_mult_imp_div_less add_less_le_mono [of _ 65536 _ "2 ^ 32 - 65536"])
  then show ?thesis
    by (simp add: unat_word_ariths unat_drop_16 unat_and_ffff)
qed

termination checksum_fold
proof (relation "measure unat")
  fix sm :: u32
  assume "drop_bit 16 sm \<noteq> 0"
  then have "0 < unat sm div 65536" by (simp add: unat_drop_16 [symmetric] unat_gt_0)
  then have "unat sm mod 65536 + unat sm div 65536 < unat sm"
    using div_mult_mod_eq [of "unat sm" 65536] by linarith
  then show "((sm AND 0xFFFF) + drop_bit 16 sm, sm) \<in> measure unat"
    by (simp add: unat_fold_step)
qed simp

declare checksum_fold.simps [simp del]

definition net_checksum_finish :: "u32 \<Rightarrow> u16" where
  "net_checksum_finish sm = ucast (NOT (checksum_fold sm))"

section \<open>TCP and UDP\<close>

definition net_checksum_tcpudp :: "u16 \<Rightarrow> u16 \<Rightarrow> u8 list \<Rightarrow> u8 list \<Rightarrow> u16 outcome" where
  "net_checksum_tcpudp len proto addrs buf =
    bindO (net_checksum_add (uint len) buf) (\<lambda>a.
    bindO (net_checksum_add 8 addrs) (\<lambda>b.
    Ok (net_checksum_finish (a + b + (ucast proto + ucast len)))))"

abbreviation (input) PROTO_TCP :: int where "PROTO_TCP \<equiv> 6"
abbreviation (input) PROTO_UDP :: int where "PROTO_UDP \<equiv> 17"

definition byte_at :: "u8 list \<Rightarrow> nat \<Rightarrow> u8 outcome" where
  "byte_at d i = (if i < length d then Ok (d ! i) else Fault Out_Of_Bounds)"

lemma byte_at_Ok: "byte_at d i = Ok b \<longleftrightarrow> i < length d \<and> b = d ! i"
  by (auto simp: byte_at_def)

definition put_byte :: "u8 list \<Rightarrow> nat \<Rightarrow> u8 \<Rightarrow> u8 list outcome" where
  "put_byte d i b = (if i < length d then Ok (d[i := b]) else Fault Buffer_Overflow)"

lemma put_byte_Ok: "put_byte d i b = Ok d' \<longleftrightarrow> i < length d \<and> d' = d[i := b]"
  by (auto simp: put_byte_def)

text \<open>
  \<^verbatim>\<open>net_checksum_calculate\<close> takes the length of the frame and never looks at it; \<open>d\<close> is the whole block
  that its pointer points into, and what is outside is an error.
\<close>

definition fill_checksum :: "u8 list \<Rightarrow> nat \<Rightarrow> int \<Rightarrow> u8 \<Rightarrow> nat \<Rightarrow> u8 list outcome" where
  "fill_checksum d hlen plen proto csum_offset =
    (let off = 14 + hlen + csum_offset in
     bindO (put_byte d off 0) (\<lambda>d.
     bindO (put_byte d (off + 1) 0) (\<lambda>d.
     bindO (net_checksum_tcpudp (word_of_int plen) (ucast proto) (drop 26 d) (drop (14 + hlen) d)) (\<lambda>csum.
     bindO (put_byte d off (ucast (drop_bit 8 csum))) (\<lambda>d.
     put_byte d (off + 1) (ucast (csum AND 0xff)))))))"

definition csum_offset_of :: "u8 \<Rightarrow> nat option" where
  "csum_offset_of proto =
    (if uint proto = PROTO_TCP then Some 16 else if uint proto = PROTO_UDP then Some 6 else None)"

definition net_checksum_calculate :: "u8 list \<Rightarrow> int \<Rightarrow> u8 list outcome" where
  "net_checksum_calculate d length' =
    bindO (byte_at d 14) (\<lambda>b14.
    if b14 AND 0xf0 \<noteq> 0x40 then Ok d
    else
      let hlen = unat (b14 AND 0x0f) * 4 in
      bindO (byte_at d 16) (\<lambda>b16. bindO (byte_at d 17) (\<lambda>b17. bindO (byte_at d 23) (\<lambda>proto.
      let plen = int (unat b16 * 256 + unat b17) - int hlen in
      case csum_offset_of proto of
        None \<Rightarrow> Ok d
      | Some csum_offset \<Rightarrow>
          if plen < int csum_offset + 2 then Ok d else fill_checksum d hlen plen proto csum_offset))))"

section \<open>The sum of a buffer\<close>

text \<open>The sum as a natural number: bytes at even offsets count 256 times.\<close>

primrec word_sum :: "bool \<Rightarrow> u8 list \<Rightarrow> nat" where
  "word_sum lo [] = 0"
| "word_sum lo (b # bs) = (if lo then unat b else 256 * unat b) + word_sum (\<not> lo) bs"

lemma word_sum_bound: "word_sum lo bs \<le> 65280 * length bs"
proof (induction bs arbitrary: lo)
  case (Cons b bs)
  have "unat b \<le> 255" using unsigned_less [where 'a = nat, of b] by simp
  then show ?case using Cons [of "\<not> lo"] by (cases lo) simp_all
qed simp

lemma word_sum_append: "word_sum lo (xs @ ys) = word_sum lo xs + word_sum (lo \<noteq> odd (length xs)) ys"
proof (induction xs arbitrary: lo)
  case (Cons x xs)
  then show ?case by (cases lo; cases "even (length xs)") simp_all
qed simp

lemma checksum_loop_sum:
  "checksum_loop i bs sm = sm + of_nat (word_sum (odd i) bs)"
proof (induction bs arbitrary: i sm)
  case (Cons b bs)
  have "push_bit 8 (ucast b :: u32) = 256 * ucast b"
    by (simp only: push_bit_eq_mult mult.commute) simp
  then have hi: "push_bit 8 (ucast b :: u32) = of_nat (256 * unat b)" by simp
  show ?case
    by (cases "odd i") (simp_all only: checksum_loop.simps word_sum.simps Cons.IH hi if_True if_False, simp_all)
qed simp

lemma checksum_loop_nat:
  assumes "length bs \<le> 65536"
  shows "unat (checksum_loop 0 bs 0) = word_sum False bs"
proof -
  have "word_sum False bs < 2 ^ 32"
    using word_sum_bound [of False bs] assms by simp
  then show ?thesis by (simp add: checksum_loop_sum unat_of_nat)
qed

section \<open>Folding is arithmetic modulo 65535\<close>

lemma checksum_fold_mod:
  "unat (checksum_fold w) mod 65535 = unat w mod 65535 \<and> unat (checksum_fold w) < 65536 \<and>
   (unat (checksum_fold w) = 0 \<longleftrightarrow> unat w = 0)"
proof (induction w rule: checksum_fold.induct)
  case (1 w)
  show ?case
  proof (cases "drop_bit 16 w = 0")
    case True
    then have "unat w div 65536 = 0" by (simp flip: unat_drop_16)
    then have "unat w < 65536" by simp
    with True show ?thesis by (simp add: checksum_fold.simps [of w])
  next
    case False
    let ?f = "(w AND 0xFFFF) + drop_bit 16 w"
    have "unat w = 65536 * (unat w div 65536) + unat w mod 65536" by simp
    then have "unat w mod 65535 = (65535 * (unat w div 65536) + unat ?f) mod 65535"
      by (simp add: unat_fold_step)
    then have "unat w mod 65535 = unat ?f mod 65535" by simp
    moreover have "0 < unat w div 65536" using False by (simp add: unat_drop_16 [symmetric] unat_gt_0)
    then have "unat ?f \<noteq> 0" "unat w \<noteq> 0" by (auto simp: unat_fold_step)
    ultimately show ?thesis using 1 False by (simp add: checksum_fold.simps [of w])
  qed
qed

lemma unat_finish: "unat (net_checksum_finish w) = 65535 - unat (checksum_fold w)"
proof -
  have "checksum_fold w < 2 ^ 16" using checksum_fold_mod [of w] by (simp add: word_less_nat_alt)
  then have "(ucast (NOT (checksum_fold w)) :: u16) = NOT (ucast (checksum_fold w))"
    by (intro bit_word_eqI) (simp add: bit_not_iff)
  moreover have "unat (ucast (checksum_fold w) :: u16) = unat (checksum_fold w)"
    using checksum_fold_mod [of w] by (simp add: unsigned_ucast_eq take_bit_nat_eq_self)
  moreover have "unat (NOT x) = 65535 - unat x" for x :: u16
  proof -
    have "NOT x = -1 - x" by (simp add: not_eq_complement)
    then show ?thesis using unat_sub [of x "-1"] by (simp add: word_order.extremum unsigned_minus_1_eq_mask mask_eq_exp_minus_1)
  qed
  ultimately show ?thesis
    by (simp add: net_checksum_finish_def)
qed

lemma finish_zero:
  assumes "0 < unat w" and "unat w mod 65535 = 0"
  shows "net_checksum_finish w = 0"
proof -
  have "unat (checksum_fold w) mod 65535 = 0" "0 < unat (checksum_fold w)" "unat (checksum_fold w) < 65536"
    using checksum_fold_mod [of w] assms by auto
  then have "unat (checksum_fold w) = 65535"
    by (cases "unat (checksum_fold w) < 65535") simp_all
  then show ?thesis using unat_finish [of w] by (simp add: unat_eq_0)
qed

text \<open>Complementing a sum makes the sum vanish, whichever way it has been folded.\<close>

lemma finish_cancels:
  "(unat w + unat (net_checksum_finish w)) mod 65535 = 0" "0 < unat w + unat (net_checksum_finish w)"
proof -
  let ?f = "unat (checksum_fold w)"
  have "?f < 65536" "unat w mod 65535 = ?f mod 65535" using checksum_fold_mod [of w] by auto
  then have "(unat w + (65535 - ?f)) mod 65535 = (?f + (65535 - ?f)) mod 65535"
    by (intro mod_add_cong refl)
  then show "(unat w + unat (net_checksum_finish w)) mod 65535 = 0"
    using \<open>?f < 65536\<close> by (simp add: unat_finish)
  show "0 < unat w + unat (net_checksum_finish w)"
    using checksum_fold_mod [of w] by (auto simp: unat_finish)
qed

section \<open>Filling a checksum in\<close>

lemma word_sum_update:
  assumes "even p" and "p + 1 < length xs"
  shows "word_sum False (xs[p := hi, p + 1 := lo]) + (256 * unat (xs ! p) + unat (xs ! (p + 1)))
    = word_sum False xs + (256 * unat hi + unat lo)"
proof -
  let ?a = "take p xs" and ?b = "drop (p + 2) xs"
  have xs: "xs = ?a @ xs ! p # xs ! (p + 1) # ?b"
    using assms(2) by (metis Cons_nth_drop_Suc Suc_eq_plus1 add_2_eq_Suc' append_take_drop_id Suc_lessD)
  have len: "length ?a = p" using assms(2) by simp
  have upd: "xs[p := hi, p + 1 := lo] = ?a @ hi # lo # ?b"
    using assms(2) by (subst xs) (simp add: list_update_append min_absorb2)
  have "word_sum False (?a @ x # y # ?b) = word_sum False ?a + (256 * unat x + unat y) + word_sum False ?b" for x y
    using assms(1) len by (simp add: word_sum_append)
  from this [of hi lo] this [of "xs ! p" "xs ! (p + 1)"] show ?thesis
    unfolding upd xs [symmetric] by simp
qed

lemma be16_split: "256 * unat (ucast (drop_bit 8 c) :: u8) + unat (ucast (c AND 0xff) :: u8) = unat (c :: u16)"
proof -
  have "unat (drop_bit 8 c) = unat c div 256" by (simp only: drop_bit_eq_div unat_div) simp
  moreover have "unat c div 256 < 256" using unsigned_less [where 'a = nat, of c] by (simp add: less_mult_imp_div_less)
  ultimately have "unat (ucast (drop_bit 8 c) :: u8) = unat c div 256"
    by (simp add: unsigned_ucast_eq take_bit_nat_eq_self)
  moreover have "unat (c AND 0xff) = unat c mod 256"
    using unat_and_mask [of c 8] by (simp add: mask_eq_exp_minus_1)
  then have "unat (ucast (c AND 0xff) :: u8) = unat c mod 256"
    by (simp add: unsigned_ucast_eq take_bit_nat_eq_self)
  ultimately show ?thesis by simp
qed

text \<open>The fields of a frame that the routine reads.\<close>

definition ip_hlen :: "u8 list \<Rightarrow> nat" where
  "ip_hlen d = unat (d ! 14 AND 0x0f) * 4"

definition ip_plen :: "u8 list \<Rightarrow> nat" where
  "ip_plen d = unat (d ! 16) * 256 + unat (d ! 17) - ip_hlen d"

definition l4_csum :: "u8 list \<Rightarrow> nat" where
  "l4_csum d = (if d ! 23 = 6 then 16 else 6)"

definition l4_frame :: "u8 list \<Rightarrow> bool" where
  "l4_frame d \<longleftrightarrow> d ! 14 AND 0xf0 = 0x40 \<and> 20 \<le> ip_hlen d \<and> d ! 23 \<in> {6, 17} \<and> l4_csum d + 2 \<le> ip_plen d"

text \<open>The sum of a TCP or UDP segment with its pseudo header.\<close>

definition l4_sum :: "nat \<Rightarrow> u8 \<Rightarrow> u8 list \<Rightarrow> u8 list \<Rightarrow> nat" where
  "l4_sum plen proto addrs seg = word_sum False (take plen seg) + word_sum False (take 8 addrs) + unat proto + plen"

lemma unat_add4:
  fixes a b c d :: u32
  assumes "unat a + unat b + unat c + unat d < 4294967296"
  shows "unat (a + b + (c + d)) = unat a + unat b + unat c + unat d"
  using assms by (simp add: unat_word_ariths)

lemma tcpudp_sum:
  assumes "plen \<le> length seg" and "8 \<le> length addrs" and "plen < 65536"
  shows "\<exists>w. net_checksum_tcpudp (of_nat plen) (ucast proto) addrs seg = Ok (net_checksum_finish w) \<and>
    unat w = l4_sum plen proto addrs seg"
proof -
  let ?a = "checksum_loop 0 (take plen seg) 0" and ?b = "checksum_loop 0 (take 8 addrs) 0"
  let ?w = "?a + ?b + (ucast (ucast proto :: u16) + ucast (of_nat plen :: u16))"
  have c: "unat (ucast x :: u32) = unat x" for x :: u16
    using unsigned_less [where 'a = nat, of x] by (simp add: unsigned_ucast_eq take_bit_nat_eq_self)
  have "unat (ucast proto :: u16) = unat proto"
    using unsigned_less [where 'a = nat, of proto] by (simp add: unsigned_ucast_eq take_bit_nat_eq_self)
  then have u: "uint (of_nat plen :: u16) = int plen" "unat (ucast (of_nat plen :: u16) :: u32) = plen"
    "unat (ucast (ucast proto :: u16) :: u32) = unat proto"
    using assms(3) by (simp_all only: c) (simp_all add: take_bit_nat_eq_self unat_of_nat uint_nat)
  have "unat proto < 256" using unsigned_less [where 'a = nat, of proto] by simp
  moreover have "unat ?a = word_sum False (take plen seg)" "unat ?b = word_sum False (take 8 addrs)"
    using assms by (simp_all add: checksum_loop_nat)
  moreover have "word_sum False (take plen seg) \<le> 65280 * 65535" "word_sum False (take 8 addrs) \<le> 65280 * 8"
    using word_sum_bound [of False "take plen seg"] word_sum_bound [of False "take 8 addrs"] assms
    by (auto intro: order_trans)
  ultimately have "unat ?w = l4_sum plen proto addrs seg"
    using assms(3) u(2,3) unfolding l4_sum_def by (subst unat_add4) linarith+
  moreover have "net_checksum_tcpudp (of_nat plen) (ucast proto) addrs seg = Ok (net_checksum_finish ?w)"
    using assms u(1) by (simp add: net_checksum_tcpudp_def net_checksum_add_def)
  ultimately show ?thesis by blast
qed

text \<open>What the routine does to a TCP or UDP frame: the two bytes of the field are cleared and then set.\<close>

definition put_field :: "u8 list \<Rightarrow> nat \<Rightarrow> u16 \<Rightarrow> u8 list" where
  "put_field d off c = d[off := ucast (drop_bit 8 c), off + 1 := ucast (c AND 0xff)]"

lemma length_put_field [simp]: "length (put_field d off c) = length d"
  by (simp add: put_field_def)

lemma calculate_OkE:
  assumes "net_checksum_calculate d n = Ok d'" and "l4_frame d"
  obtains csum d2 where "d2 = put_field d (14 + ip_hlen d + l4_csum d) 0"
    and "net_checksum_tcpudp (of_nat (ip_plen d)) (ucast (d ! 23)) (drop 26 d2) (drop (14 + ip_hlen d) d2) = Ok csum"
    and "d' = put_field d2 (14 + ip_hlen d + l4_csum d) csum"
    and "14 + ip_hlen d + l4_csum d + 1 < length d"
proof -
  let ?p = "int (unat (d ! 16) * 256 + unat (d ! 17)) - int (ip_hlen d)"
  have fr: "d ! 14 AND 0xf0 = 0x40" "d ! 23 = 6 \<or> d ! 23 = 17" "l4_csum d + 2 \<le> ip_plen d"
    using assms(2) by (auto simp: l4_frame_def)
  have p: "?p = int (ip_plen d)" using fr(3) by (auto simp: ip_plen_def)
  have sel: "csum_offset_of (d ! 23) = Some (l4_csum d)"
    using fr(2) by (auto simp: l4_csum_def csum_offset_of_def)
  have p': "uint (d ! 16) * 256 + uint (d ! 17) - int (ip_hlen d) = int (ip_plen d)"
    using p by simp
  from assms(1) fr(1,3) have "fill_checksum d (ip_hlen d) (int (ip_plen d)) (d ! 23) (l4_csum d) = Ok d'"
    unfolding net_checksum_calculate_def byte_at_Ok bindO_eq_Ok_conv
    by (auto simp: byte_at_Ok bindO_eq_Ok_conv sel p' ip_hlen_def [symmetric] Let_def)
  then show ?thesis
    by (auto simp: fill_checksum_def put_byte_Ok bindO_eq_Ok_conv put_field_def Let_def intro!: that)
qed

lemma l4_sum_put_field:
  assumes "even co" and "co + 1 < plen" and "plen \<le> length d - h" and "34 \<le> h"
  shows "l4_sum plen proto (drop 26 (put_field d (h + co) c)) (drop h (put_field d (h + co) c))
      + (256 * unat (d ! (h + co)) + unat (d ! (h + co + 1)))
    = l4_sum plen proto (drop 26 d) (drop h d) + unat c"
proof -
  have 1: "take 8 (drop 26 (put_field d (h + co) c)) = take 8 (drop 26 d)"
    using assms(4) by (simp add: put_field_def drop_update_swap)
  have 2: "take plen (drop h (put_field d (h + co) c))
    = (take plen (drop h d))[co := ucast (drop_bit 8 c), co + 1 := ucast (c AND 0xff)]"
    by (simp add: put_field_def drop_update_swap take_update_swap)
  have 3: "co + 1 < length (take plen (drop h d))" using assms(2,3) by simp
  have 4: "take plen (drop h d) ! co = d ! (h + co)" "take plen (drop h d) ! (co + 1) = d ! (h + co + 1)"
    using assms(2,3) by simp_all
  show ?thesis
    using word_sum_update [OF assms(1) 3, of "ucast (drop_bit 8 c)" "ucast (c AND 0xff)"]
    unfolding l4_sum_def 1 2 4 be16_split by simp
qed

lemma tcpudp_OkD:
  assumes "net_checksum_tcpudp (of_nat plen) proto addrs seg = Ok c" and "plen < 65536"
  shows "plen \<le> length seg \<and> 8 \<le> length addrs"
  using assms by (auto simp: net_checksum_tcpudp_def net_checksum_add_def bindO_eq_Ok_conv unat_of_nat uint_nat
      split: if_splits)

lemma ip_plen_bound: "ip_plen d < 65536"
  using unsigned_less [where 'a = nat, of "d ! 16"] unsigned_less [where 'a = nat, of "d ! 17"]
  by (simp add: ip_plen_def)

text \<open>
  C18: A checksum that has been filled in verifies. When \<^verbatim>\<open>net_checksum_calculate\<close> returns on an IPv4 frame
  with a TCP or UDP segment (and a header of at least five words), the receiver's check of the segment
  with its pseudo header gives 0, and nothing but the two bytes of the checksum field has changed.
\<close>

theorem net_checksum_calculate_verifies:
  assumes "net_checksum_calculate d n = Ok d'" and "l4_frame d"
  shows "net_checksum_tcpudp (of_nat (ip_plen d)) (ucast (d ! 23)) (drop 26 d') (drop (14 + ip_hlen d) d') = Ok 0 \<and>
    length d' = length d \<and>
    (\<forall>i. i \<notin> {14 + ip_hlen d + l4_csum d, 14 + ip_hlen d + l4_csum d + 1} \<longrightarrow> d' ! i = d ! i)"
proof -
  let ?h = "14 + ip_hlen d" and ?co = "l4_csum d" and ?p = "ip_plen d" and ?pr = "ucast (d ! 23) :: u16"
  obtain c d2 where d2: "d2 = put_field d (?h + ?co) 0"
    and c: "net_checksum_tcpudp (of_nat ?p) ?pr (drop 26 d2) (drop ?h d2) = Ok c"
    and d': "d' = put_field d2 (?h + ?co) c" and len: "?h + ?co + 1 < length d"
    using calculate_OkE [OF assms] by metis
  have fr: "even ?co" "?co + 1 < ?p" "34 \<le> ?h" "?p < 65536"
    using assms(2) ip_plen_bound by (auto simp: l4_frame_def l4_csum_def)
  have ln: "?p \<le> length (drop ?h d2)" "8 \<le> length (drop 26 d2)" using tcpudp_OkD [OF c fr(4)] by auto
  obtain w where w: "c = net_checksum_finish w" "unat w = l4_sum ?p (d ! 23) (drop 26 d2) (drop ?h d2)"
    using tcpudp_sum [OF ln fr(4), of "d ! 23"] c by auto
  have "?p \<le> length (drop ?h d')" "8 \<le> length (drop 26 d')" using ln d' by simp_all
  then obtain w' where w': "net_checksum_tcpudp (of_nat ?p) ?pr (drop 26 d') (drop ?h d') = Ok (net_checksum_finish w')"
      "unat w' = l4_sum ?p (d ! 23) (drop 26 d') (drop ?h d')"
    using tcpudp_sum [OF _ _ fr(4), of "drop ?h d'" "drop 26 d'" "d ! 23"] by auto
  have "d2 ! (?h + ?co) = 0" "d2 ! (?h + ?co + 1) = 0" using len d2 by (simp_all add: put_field_def)
  then have "unat w' = unat w + unat (net_checksum_finish w)"
    using l4_sum_put_field [OF fr(1,2) _ fr(3), of d2 "d ! 23" c] ln(1) w w'(2) d' by simp
  then have "net_checksum_finish w' = 0"
    using finish_cancels [of w] finish_zero [of w'] by simp
  then show ?thesis using w'(1) d' d2 by (auto simp: put_field_def)
qed

text \<open>A UDP datagram of eight bytes, and the same frame cut off after its IP header.\<close>

definition udp_frame :: "u8 list" where
  "udp_frame = replicate 14 0 @ [0x45, 0, 0, 28, 0, 0, 0, 0, 64, 17, 0, 0, 10, 0, 0, 1, 10, 0, 0, 2] @ [0, 1, 0, 2, 0, 8, 0, 0]"

lemma udp_frame_checksum: "net_checksum_calculate udp_frame 42 = Ok (put_field udp_frame 40 0xebd8)"
  by code_simp

theorem net_checksum_calculate_verifies_witness:
  "l4_frame udp_frame \<and> net_checksum_tcpudp 8 17 (drop 26 (put_field udp_frame 40 0xebd8))
     (drop 34 (put_field udp_frame 40 0xebd8)) = Ok 0"
proof -
  have f: "ip_plen udp_frame = 8" "ip_hlen udp_frame = 20" "udp_frame ! 23 = 17" "l4_frame udp_frame"
    by code_simp+
  show ?thesis
    using net_checksum_calculate_verifies [OF udp_frame_checksum f(4)] f by simp
qed

text \<open>The length argument does not protect the buffer: a short frame is written past its end.\<close>

lemma net_checksum_calculate_ignores_length:
  "net_checksum_calculate (take 34 udp_frame) 34 = Fault Buffer_Overflow"
  by code_simp

end
