(* ===== verification/E1000_Tx.thy ===== *)
theory E1000_Tx
  imports E1000_Regs Net_Checksum
begin

text \<open>
  The transmit side of the device (\<^verbatim>\<open>putsum\<close> to \<^verbatim>\<open>start_xmit\<close> of \<^verbatim>\<open>hw/e1000.c\<close>): checksum offload, TCP
  segmentation, the three kinds of transmit descriptors and the walk over the descriptor ring.

  \<open>nic\<close> is the device together with the guest memory it reaches and the list of packets it has handed to
  \<^verbatim>\<open>qemu_send_packet\<close>, oldest first. The transmit buffer \<^verbatim>\<open>tx.data\<close> has \<open>0x10000\<close> bytes; a copy from guest
  memory past its end is the fault \<open>Buffer_Overflow\<close>. The offsets at which headers and checksums are patched
  come from 8-bit fields and the length from a 16-bit field, so that these accesses stay inside the
  buffer. The two loops that a guest can keep running take fuel.
\<close>

record nic =
  dev :: E1000State
  ram :: gmem
  sent :: "u8 list list"

definition upd_tx :: "(e1000_tx \<Rightarrow> e1000_tx) \<Rightarrow> nic \<Rightarrow> nic" where
  "upd_tx f n = n\<lparr>dev := (dev n)\<lparr>tx := f (tx (dev n))\<rparr>\<rparr>"

abbreviation (input) DATA_SIZE :: nat where "DATA_SIZE \<equiv> 0x10000"

section \<open>Checksum offload and VLAN tags\<close>

definition putsum :: "(nat \<Rightarrow> u8) \<Rightarrow> u32 \<Rightarrow> u32 \<Rightarrow> u32 \<Rightarrow> u32 \<Rightarrow> nat \<Rightarrow> u8" where
  "putsum dat n sloc css cse =
    (let n = (if cse \<noteq> 0 \<and> cse < n then cse + 1 else n)
     in if sloc < n - 1
        then buf_put dat (unat sloc) (be_bytes 2 (net_checksum_finish
               (checksum_loop 0 (buf_get dat (unat css) (nat (sint (n - css)))) 0)))
        else dat)"

definition vlan_enabled :: "E1000State \<Rightarrow> bool" where
  "vlan_enabled s \<longleftrightarrow> mac_reg s CTRL AND E1000_CTRL_VME \<noteq> 0"

definition vlan_rx_filter_enabled :: "E1000State \<Rightarrow> bool" where
  "vlan_rx_filter_enabled s \<longleftrightarrow> mac_reg s RCTL AND E1000_RCTL_VFE \<noteq> 0"

text \<open>\<^verbatim>\<open>le16_to_cpup\<close> on the register reads its low sixteen bits.\<close>

definition is_vlan_packet :: "E1000State \<Rightarrow> u8 list \<Rightarrow> bool" where
  "is_vlan_packet s buf \<longleftrightarrow> (be_word (take 2 (drop 12 buf)) :: u16) = ucast (mac_reg s VET)"

definition is_vlan_txd :: "u32 \<Rightarrow> bool" where
  "is_vlan_txd txd_lower \<longleftrightarrow> txd_lower AND E1000_TXD_CMD_VLE \<noteq> 0"

definition fcs_len :: "E1000State \<Rightarrow> nat" where
  "fcs_len s = (if mac_reg s RCTL AND E1000_RCTL_SECRC \<noteq> 0 then 0 else 4)"

section \<open>Sending one segment\<close>

text \<open>The headers of a segment of a larger TCP packet: lengths, sequence number, flags, pseudo header.\<close>

definition seg_ip_header :: "e1000_tx \<Rightarrow> nat \<Rightarrow> u8" where
  "seg_ip_header tp =
    (let css = unat (ipcss tp); len = tx_size tp - ucast (ipcss tp) in
     if ip tp
     then let d = buf_put (data tp) (css + 2) (be_bytes 2 len)
          in buf_put d (css + 4) (be_bytes 2 (be_word (buf_get d (css + 4) 2) + tso_frames tp))
     else buf_put (data tp) (css + 4) (be_bytes 2 len))"

definition seg_l4_header :: "e1000_tx \<Rightarrow> (nat \<Rightarrow> u8) \<Rightarrow> nat \<Rightarrow> u8" where
  "seg_l4_header tp dat =
    (let css = unat (tucss tp); len = tx_size tp - ucast (tucss tp) in
     if tcp tp
     then let sofar = ucast (tso_frames tp) * ucast (mss tp) :: u32;
              d = buf_put dat (css + 4) (be_bytes 4 ((be_word (buf_get dat (css + 4) 4) :: u32) + sofar))
          in if paylen tp - sofar > ucast (mss tp) then d(css + 13 := d (css + 13) AND NOT 9) else d
     else buf_put dat (css + 4) (be_bytes 2 len))"

definition seg_pseudo_header :: "e1000_tx \<Rightarrow> (nat \<Rightarrow> u8) \<Rightarrow> nat \<Rightarrow> u8" where
  "seg_pseudo_header tp dat =
    (if sum_needed tp AND E1000_TXD_POPTS_TXSM \<noteq> 0
     then let len = tx_size tp - ucast (tucss tp);
              phsum = ucast (be_word (buf_get dat (unat (tucso tp)) 2) :: u16) + ucast len :: u32;
              phsum = drop_bit 16 phsum + (phsum AND 0xffff)
          in buf_put dat (unat (tucso tp)) (be_bytes 2 (ucast phsum :: u16))
     else dat)"

definition tso_headers :: "e1000_tx \<Rightarrow> e1000_tx" where
  "tso_headers tp = tp\<lparr>data := seg_pseudo_header tp (seg_l4_header tp (seg_ip_header tp)),
     tso_frames := tso_frames tp + 1\<rparr>"

definition tx_checksums :: "e1000_tx \<Rightarrow> e1000_tx" where
  "tx_checksums tp =
    (let d = (if sum_needed tp AND E1000_TXD_POPTS_TXSM \<noteq> 0
              then putsum (data tp) (ucast (tx_size tp)) (ucast (tucso tp)) (ucast (tucss tp)) (ucast (tucse tp))
              else data tp);
         d = (if sum_needed tp AND E1000_TXD_POPTS_IXSM \<noteq> 0
              then putsum d (ucast (tx_size tp)) (ucast (ipcso tp)) (ucast (ipcss tp)) (ucast (ipcse tp))
              else d)
     in tp\<lparr>data := d\<rparr>)"

text \<open>
  With a VLAN tag the addresses move four bytes down, over \<^verbatim>\<open>tx.vlan\<close>, which lies right below \<^verbatim>\<open>tx.data\<close>, and
  the packet starts there.
\<close>

definition tx_packet :: "e1000_tx \<Rightarrow> e1000_tx \<times> u8 list" where
  "tx_packet tp =
    (if vlan_needed tp
     then let v = buf_get (data tp) 0 4;
              d = buf_put (data tp) 0 (buf_get (data tp) 4 8);
              d = buf_put d 8 (vlan_header tp)
          in (tp\<lparr>vlan := v, data := d\<rparr>, v @ buf_get d 0 (unat (tx_size tp)))
     else (tp, buf_get (data tp) 0 (unat (tx_size tp))))"

definition tx_counters :: "u16 \<Rightarrow> E1000State \<Rightarrow> E1000State" where
  "tx_counters sz s =
    (let s = put_reg TPT (mac_reg s TPT + 1) s;
         s = put_reg GPTC (mac_reg s GPTC + 1) s;
         n = mac_reg s TOTL;
         s = put_reg TOTL (n + ucast sz) s
     in if mac_reg s TOTL < n then put_reg TOTH (mac_reg s TOTH + 1) s else s)"

definition xmit_seg :: "nic \<Rightarrow> nic" where
  "xmit_seg n =
    (let tp = tx (dev n);
         tp = (if tse tp \<and> cptse tp then tso_headers tp else tp);
         tp = tx_checksums tp;
         (tp, pkt) = tx_packet tp
     in n\<lparr>dev := tx_counters (tx_size tp) ((dev n)\<lparr>tx := tp\<rparr>), sent := sent n @ [pkt]\<rparr>)"

section \<open>Descriptors\<close>

definition context_desc :: "e1000_context_desc \<Rightarrow> e1000_tx \<Rightarrow> e1000_tx" where
  "context_desc xp tp =
    (let op = cd_cmd_and_length xp;
         tcp' = (op AND E1000_TXD_CMD_TCP \<noteq> 0)
     in tp\<lparr>ipcss := cd_ipcss xp, ipcso := cd_ipcso xp, ipcse := cd_ipcse xp, tucss := cd_tucss xp,
           tucso := (if cd_tucso xp = 0 then cd_tucss xp + (if tcp' then 16 else 6) else cd_tucso xp),
           tucse := cd_tucse xp, paylen := op AND 0xfffff, hdr_len := cd_hdr_len xp, mss := cd_mss xp,
           ip := (op AND E1000_TXD_CMD_IP \<noteq> 0), tcp := tcp', tse := (op AND E1000_TXD_CMD_TSE \<noteq> 0),
           tso_frames := 0\<rparr>)"

text \<open>
  \<^verbatim>\<open>cpu_physical_memory_read\<close> into the transmit buffer, behind what it already holds. Its length is an
  \<^verbatim>\<open>int\<close>; nothing is copied when it is not positive.
\<close>

definition dma_append :: "nic \<Rightarrow> u64 \<Rightarrow> u32 \<Rightarrow> nic outcome" where
  "dma_append n addr len =
    (let tp = tx (dev n) in
     if sint len \<le> 0 then Ok n
     else if unat (tx_size tp) + unat len > DATA_SIZE then Fault Buffer_Overflow
     else Ok (upd_tx (\<lambda>tp. tp\<lparr>data := buf_put (data tp) (unat (tx_size tp)) (mem_read (ram n) addr (unat len))\<rparr>) n))"

text \<open>One turn of the segmentation loop, and the loop.\<close>

definition tso_bytes :: "u32 \<Rightarrow> u16 \<Rightarrow> u32 \<Rightarrow> u32" where
  "tso_bytes msh sz split_size = (if ucast sz + split_size > msh then msh - ucast sz else split_size)"

definition tso_step :: "u32 \<Rightarrow> u32 \<Rightarrow> u64 \<Rightarrow> u32 \<Rightarrow> nic \<Rightarrow> nic outcome" where
  "tso_step hdr msh addr split_size n =
    (let sz0 = ucast (tx_size (tx (dev n)));
         bytes = tso_bytes msh (tx_size (tx (dev n))) split_size;
         sz = sz0 + bytes in
     bindO (dma_append n addr bytes) (\<lambda>n.
     let n = (if sz \<ge> hdr \<and> sz0 < hdr
              then upd_tx (\<lambda>tp. tp\<lparr>header := buf_put (header tp) 0 (buf_get (data tp) 0 (unat hdr))\<rparr>) n else n);
         n = upd_tx (\<lambda>tp. tp\<lparr>tx_size := ucast sz\<rparr>) n
     in Ok (if sz = msh
            then upd_tx (\<lambda>tp. tp\<lparr>data := buf_put (data tp) 0 (buf_get (header tp) 0 (unat hdr)), tx_size := ucast hdr\<rparr>)
                   (xmit_seg n)
            else n)))"

fun tso_loop :: "nat \<Rightarrow> u32 \<Rightarrow> u32 \<Rightarrow> u64 \<Rightarrow> u32 \<Rightarrow> nic \<Rightarrow> nic outcome" where
  "tso_loop 0 hdr msh addr split_size n = Fault No_Return"
| "tso_loop (Suc fuel) hdr msh addr split_size n =
    bindO (tso_step hdr msh addr split_size n) (\<lambda>n'.
    let bytes = tso_bytes msh (tx_size (tx (dev n))) split_size in
    if split_size - bytes = 0 then Ok n'
    else tso_loop fuel hdr msh (addr + ucast bytes) (split_size - bytes) n')"

definition vlan_tag :: "e1000_tx_desc \<Rightarrow> nic \<Rightarrow> nic" where
  "vlan_tag dp n =
    (let txd_lower = td_lower dp; s = dev n in
     if vlan_enabled s \<and> is_vlan_txd txd_lower \<and> (cptse (tx s) \<or> txd_lower AND E1000_TXD_CMD_EOP \<noteq> 0)
     then upd_tx (\<lambda>tp. tp\<lparr>vlan_needed := True,
            vlan_header := be_bytes 2 (ucast (mac_reg s VET) :: u16) @ be_bytes 2 (ucast (drop_bit 16 (td_upper dp)) :: u16)\<rparr>) n
     else n)"

definition end_of_packet :: "u32 \<Rightarrow> nic \<Rightarrow> nic" where
  "end_of_packet hdr n =
    (let tp = tx (dev n);
         n = (if \<not> (tse tp \<and> cptse tp \<and> ucast (tx_size tp) < hdr) then xmit_seg n else n)
     in upd_tx (\<lambda>tp. tp\<lparr>tso_frames := 0, sum_needed := 0, vlan_needed := False, tx_size := 0, cptse := False\<rparr>) n)"

definition data_desc :: "nat \<Rightarrow> e1000_tx_desc \<Rightarrow> nic \<Rightarrow> nic outcome" where
  "data_desc fuel dp n =
    (let txd_lower = td_lower dp;
         split_size = txd_lower AND 0xffff;
         addr = td_buffer_addr dp;
         n = vlan_tag dp n;
         tp = tx (dev n);
         hdr = (if tse tp \<and> cptse tp then ucast (hdr_len tp) else 0) in
     bindO (if tse tp \<and> cptse tp then tso_loop fuel hdr (hdr + ucast (mss tp)) addr split_size n
            else if \<not> tse tp \<and> cptse tp then Ok n
            else bindO (dma_append n addr split_size) (\<lambda>n.
                   Ok (upd_tx (\<lambda>tp. tp\<lparr>tx_size := tx_size tp + ucast split_size\<rparr>) n))) (\<lambda>n.
     if txd_lower AND E1000_TXD_CMD_EOP = 0 then Ok n else Ok (end_of_packet hdr n)))"

definition process_tx_desc :: "nat \<Rightarrow> u8 list \<Rightarrow> nic \<Rightarrow> nic outcome" where
  "process_tx_desc fuel bs n =
    (let dp = decode_tx_desc bs;
         txd_lower = td_lower dp;
         dtype = txd_lower AND (E1000_TXD_CMD_DEXT OR E1000_TXD_DTYP_D) in
     if dtype = E1000_TXD_CMD_DEXT then Ok (upd_tx (context_desc (decode_context_desc bs)) n)
     else if dtype = E1000_TXD_CMD_DEXT OR E1000_TXD_DTYP_D
     then data_desc fuel dp (upd_tx (\<lambda>tp. tp\<lparr>sum_needed := ucast (drop_bit 8 (td_upper dp)),
            cptse := (txd_lower AND E1000_TXD_CMD_TSE \<noteq> 0)\<rparr>) n)
     else data_desc fuel dp (upd_tx (\<lambda>tp. tp\<lparr>cptse := False\<rparr>) n))"

definition txdesc_writeback :: "u64 \<Rightarrow> u8 list \<Rightarrow> nic \<Rightarrow> u32 \<times> nic" where
  "txdesc_writeback base bs n =
    (let dp = decode_tx_desc bs in
     if td_lower dp AND (E1000_TXD_CMD_RS OR E1000_TXD_CMD_RPS) = 0 then (0, n)
     else let txd_upper = (td_upper dp OR E1000_TXD_STAT_DD) AND
                NOT (E1000_TXD_STAT_EC OR E1000_TXD_STAT_LC OR E1000_TXD_STAT_TU)
          in (E1000_ICR_TXDW, n\<lparr>ram := mem_write (ram n) (base + 12) (le_bytes 4 txd_upper)\<rparr>))"

section \<open>The transmit ring\<close>

definition ring_addr :: "u32 \<Rightarrow> u32 \<Rightarrow> u32 \<Rightarrow> u64" where
  "ring_addr bah bal i = push_bit 32 (ucast bah) + ucast bal + 16 * ucast i"

definition ring_next :: "u32 \<Rightarrow> u32 \<Rightarrow> u32" where
  "ring_next len i = (if unat (i + 1) * 16 \<ge> unat len then 0 else i + 1)"

definition xmit_one :: "nat \<Rightarrow> nic \<Rightarrow> (u32 \<times> nic) outcome" where
  "xmit_one fuel n =
    (let s = dev n;
         base = ring_addr (mac_reg s TDBAH) (mac_reg s TDBAL) (mac_reg s TDH);
         desc = mem_read (ram n) base 16 in
     bindO (process_tx_desc fuel desc n) (\<lambda>n.
     let (c, n) = txdesc_writeback base desc n
     in Ok (c, n\<lparr>dev := put_reg TDH (ring_next (mac_reg (dev n) TDLEN) (mac_reg (dev n) TDH)) (dev n)\<rparr>)))"

fun xmit_loop :: "nat \<Rightarrow> nat \<Rightarrow> u32 \<Rightarrow> u32 \<Rightarrow> nic \<Rightarrow> (u32 \<times> nic) outcome" where
  "xmit_loop 0 sfuel tdh_start cause n = Fault No_Return"
| "xmit_loop (Suc fuel) sfuel tdh_start cause n =
    (if mac_reg (dev n) TDH = mac_reg (dev n) TDT then Ok (cause, n)
     else bindO (xmit_one sfuel n) (\<lambda>(c, n).
       if mac_reg (dev n) TDH = tdh_start then Ok (cause OR c, n)
       else xmit_loop fuel sfuel tdh_start (cause OR c) n))"

definition start_xmit :: "nat \<Rightarrow> nic \<Rightarrow> nic outcome" where
  "start_xmit fuel n =
    (let s = dev n in
     if mac_reg s TCTL AND E1000_TCTL_EN = 0 then Ok n
     else bindO (xmit_loop fuel fuel (mac_reg s TDH) E1000_ICS_TXQE n) (\<lambda>(cause, n).
          Ok (n\<lparr>dev := set_ics (dev n) 0 cause\<rparr>)))"

definition set_tctl :: "nat \<Rightarrow> nic \<Rightarrow> nat \<Rightarrow> u32 \<Rightarrow> nic outcome" where
  "set_tctl fuel n index val =
    (let n = n\<lparr>dev := put_reg index val (dev n)\<rparr>;
         n = n\<lparr>dev := put_reg TDT (mac_reg (dev n) TDT AND 0xffff) (dev n)\<rparr>
     in start_xmit fuel n)"

section \<open>What transmission leaves alone\<close>

lemma upd_tx_sel [simp]:
  "tx (dev (upd_tx f n)) = f (tx (dev n))" "mac_reg (dev (upd_tx f n)) = mac_reg (dev n)"
  "ram (upd_tx f n) = ram n" "sent (upd_tx f n) = sent n"
  by (simp_all add: upd_tx_def)

text \<open>
  Processing descriptors changes the transmit state, the four transmit counters and the list of sent
  packets, which grows; it keeps every invariant of the device.
\<close>

definition tx_frame :: "nic \<Rightarrow> nic \<Rightarrow> bool" where
  "tx_frame n n' \<longleftrightarrow> ram n' = ram n \<and> (\<exists>ps. sent n' = sent n @ ps) \<and>
     (\<forall>r. r \<notin> {TPT, GPTC, TOTL, TOTH} \<longrightarrow> mac_reg (dev n') r = mac_reg (dev n) r) \<and>
     (\<forall>I. device_invariant I \<longrightarrow> I (dev n) \<longrightarrow> I (dev n'))"

lemma tx_frame_refl [simp, intro]: "tx_frame n n"
  by (simp add: tx_frame_def)

lemma tx_frame_trans [trans]: "tx_frame a b \<Longrightarrow> tx_frame b c \<Longrightarrow> tx_frame a c"
  by (auto simp: tx_frame_def)

lemma tx_frame_upd_tx [simp, intro]: "tx_frame n (upd_tx f n)"
  by (simp add: tx_frame_def) (simp add: upd_tx_def device_invariant.other)

lemma tx_counters_sel [simp]:
  "r \<notin> {TPT, GPTC, TOTL, TOTH} \<Longrightarrow> mac_reg (tx_counters sz s) r = mac_reg s r" "tx (tx_counters sz s) = tx s"
  by (simp_all add: tx_counters_def Let_def)

lemma tx_counters_inv: "device_invariant I \<Longrightarrow> I s \<Longrightarrow> I (tx_counters sz s)"
  by (simp add: tx_counters_def Let_def device_invariant.free free_reg_def)

lemma tx_frame_xmit_seg [simp, intro]: "tx_frame n (xmit_seg n)"
  by (simp add: tx_frame_def xmit_seg_def Let_def case_prod_unfold tx_counters_inv device_invariant.other)

lemma dma_append_frame: "dma_append n addr len = Ok n' \<Longrightarrow> tx_frame n n'"
  by (auto simp: dma_append_def Let_def split: if_splits)

lemma tso_step_frame: "tso_step hdr msh addr k n = Ok n' \<Longrightarrow> tx_frame n n'"
proof -
  assume "tso_step hdr msh addr k n = Ok n'"
  then obtain m where m: "dma_append n addr (tso_bytes msh (tx_size (tx (dev n))) k) = Ok m"
      and n': "\<exists>f g h. n' = upd_tx g (xmit_seg (upd_tx f m)) \<or> n' = upd_tx g (xmit_seg (upd_tx f (upd_tx h m)))
        \<or> n' = upd_tx f m \<or> n' = upd_tx f (upd_tx h m)"
    unfolding tso_step_def Let_def bindO_eq_Ok_conv by (auto split: if_splits)
  have "tx_frame m n'"
    using n' tx_frame_trans tx_frame_upd_tx tx_frame_xmit_seg by (elim exE disjE) metis+
  with dma_append_frame [OF m] show ?thesis by (rule tx_frame_trans)
qed

lemma tso_loop_frame: "tso_loop fuel hdr msh addr k n = Ok n' \<Longrightarrow> tx_frame n n'"
proof (induction fuel arbitrary: addr k n)
  case (Suc fuel)
  then obtain m where "tso_step hdr msh addr k n = Ok m" and "tx_frame m n'"
    by (auto simp: bindO_eq_Ok_conv Let_def split: if_splits)
  then show ?case using tso_step_frame tx_frame_trans by blast
qed simp

lemma end_of_packet_frame [simp, intro]: "tx_frame n (end_of_packet hdr n)"
  unfolding end_of_packet_def Let_def
  by (auto intro: tx_frame_trans [OF tx_frame_xmit_seg])

lemma vlan_tag_frame [simp, intro]: "tx_frame n (vlan_tag dp n)"
  by (simp add: vlan_tag_def Let_def)

lemma data_desc_frame:
  assumes "data_desc fuel dp n = Ok n'"
  shows "tx_frame n n'"
proof -
  obtain m where "tx_frame (vlan_tag dp n) m" and "n' = m \<or> (\<exists>h. n' = end_of_packet h m)"
    using assms unfolding data_desc_def Let_def bindO_eq_Ok_conv
    by (auto split: if_splits simp: bindO_eq_Ok_conv
        intro: tso_loop_frame tx_frame_trans [OF dma_append_frame tx_frame_upd_tx])
  then show ?thesis
    using tx_frame_trans [OF vlan_tag_frame] tx_frame_trans [OF _ end_of_packet_frame] by blast
qed

lemma process_tx_desc_frame:
  assumes "process_tx_desc fuel bs n = Ok n'"
  shows "tx_frame n n'"
  using assms data_desc_frame tx_frame_trans [OF tx_frame_upd_tx]
  unfolding process_tx_desc_def Let_def by (fastforce split: if_splits)

section \<open>Invariants on the transmit ring\<close>

lemma ring_next_16bit:
  assumes "unat len \<le> 0xfffff"
  shows "ring_next len i \<le> 0xffff"
  using assms by (auto simp: ring_next_def word_le_nat_alt)

lemma txdesc_writeback_sel [simp]:
  "dev (snd (txdesc_writeback base bs n)) = dev n" "sent (snd (txdesc_writeback base bs n)) = sent n"
  by (simp_all add: txdesc_writeback_def Let_def)

lemma xmit_one_OkE:
  assumes "xmit_one fuel n = Ok (c, n')"
  obtains m where "process_tx_desc fuel (mem_read (ram n) (ring_addr (mac_reg (dev n) TDBAH) (mac_reg (dev n) TDBAL)
      (mac_reg (dev n) TDH)) 16) n = Ok m"
    and "tx_frame n m" and "sent n' = sent m"
    and "dev n' = put_reg TDH (ring_next (mac_reg (dev n) TDLEN) (mac_reg (dev n) TDH)) (dev m)"
proof -
  let ?base = "ring_addr (mac_reg (dev n) TDBAH) (mac_reg (dev n) TDBAL) (mac_reg (dev n) TDH)"
  obtain m where m: "process_tx_desc fuel (mem_read (ram n) ?base 16) n = Ok m"
    and n': "n' = (snd (txdesc_writeback ?base (mem_read (ram n) ?base 16) m))\<lparr>dev := put_reg TDH
       (ring_next (mac_reg (dev m) TDLEN) (mac_reg (dev m) TDH)) (dev m)\<rparr>"
    using assms by (auto simp: xmit_one_def Let_def bindO_eq_Ok_conv case_prod_unfold)
  have f: "tx_frame n m" using process_tx_desc_frame [OF m] .
  then have "mac_reg (dev m) TDLEN = mac_reg (dev n) TDLEN" "mac_reg (dev m) TDH = mac_reg (dev n) TDH"
    by (simp_all add: tx_frame_def)
  with that [OF m f] n' show ?thesis by simp
qed

context device_invariant
begin

lemma inv_xmit_one:
  assumes "xmit_one fuel n = Ok (c, n')" and "unat (mac_reg (dev n) TDLEN) \<le> 0xfffff" and "I (dev n)"
  shows "I (dev n')"
  using assms(1)
proof (rule xmit_one_OkE)
  fix m
  assume "tx_frame n m" and
    n': "dev n' = put_reg TDH (ring_next (mac_reg (dev n) TDLEN) (mac_reg (dev n) TDH)) (dev m)"
  then have "I (dev m)" using assms(3) device_invariant_axioms by (auto simp: tx_frame_def)
  then show ?thesis
    unfolding n' using ring_next_16bit [OF assms(2)] by (intro ring) simp_all
qed

lemma inv_xmit_loop:
  assumes "xmit_loop fuel sfuel h c n = Ok (c', n')" and "unat (mac_reg (dev n) TDLEN) \<le> 0xfffff" and "I (dev n)"
  shows "I (dev n')"
  using assms
proof (induction fuel arbitrary: c n)
  case (Suc fuel)
  show ?case
  proof (cases "mac_reg (dev n) TDH = mac_reg (dev n) TDT")
    case False
    then obtain d m where m: "xmit_one sfuel n = Ok (d, m)"
      and r: "m = n' \<or> xmit_loop fuel sfuel h (c OR d) m = Ok (c', n')"
      using Suc.prems(1) by (auto simp: bindO_eq_Ok_conv split: if_splits)
    have "mac_reg (dev m) TDLEN = mac_reg (dev n) TDLEN"
      using m by (elim xmit_one_OkE) (simp add: tx_frame_def)
    with r show ?thesis using Suc.IH Suc.prems(2,3) inv_xmit_one [OF m] by auto
  qed (use Suc.prems in auto)
qed simp

lemma inv_start_xmit:
  assumes "start_xmit fuel n = Ok n'" and "unat (mac_reg (dev n) TDLEN) \<le> 0xfffff" and "I (dev n)"
  shows "I (dev n')"
  using assms by (auto simp: start_xmit_def Let_def bindO_eq_Ok_conv split: if_splits
      intro!: inv_ics elim: inv_xmit_loop)

lemma inv_set_tctl:
  assumes "set_tctl fuel n i v = Ok n'" and "i = TCTL \<or> i = TDT" and "unat (mac_reg (dev n) TDLEN) \<le> 0xfffff"
    and "I (dev n)"
  shows "I (dev n')"
proof -
  have *: "put_reg TDT a (put_reg TDT b s) = put_reg TDT a s" for a b s by (simp add: put_reg_def)
  have "I (put_reg TDT (mac_reg (put_reg i v (dev n)) TDT AND 0xffff) (put_reg i v (dev n)))"
    using assms(2,4) by (auto simp: * ring word_and_le1 free free_reg_def)
  then show ?thesis
    using assms(1,2,3) inv_start_xmit by (force simp: set_tctl_def Let_def)
qed

end

lemma length_reg_bound: "(w :: u32) AND NOT 0xfff80 = 0 \<Longrightarrow> w \<le> 0xfff80"
proof -
  assume "w AND NOT 0xfff80 = 0"
  then have "w = w AND 0xfff80" by (metis and.right_neutral bit.conj_disj_distrib bit.disj_cancel_right or.right_neutral)
  then show ?thesis by (metis word_and_le1)
qed

lemma ring_ok_bounds:
  assumes "ring_ok s"
  shows "unat (mac_reg s TDH) \<le> 0xffff" "unat (mac_reg s RDH) \<le> 0xffff"
    "unat (mac_reg s TDLEN) \<le> 0xfff80" "unat (mac_reg s RDLEN) \<le> 0xfff80"
  using assms length_reg_bound by (auto simp: ring_ok_def word_le_nat_alt)

section \<open>The walk over the ring ends\<close>

definition in_ring :: "u32 \<Rightarrow> u32 \<Rightarrow> bool" where
  "in_ring len i \<longleftrightarrow> i = 0 \<or> unat i * 16 < unat len"

lemma ring_next_cases:
  assumes "unat i \<le> 0xffff"
  obtains "ring_next len i = 0" | "ring_next len i = i + 1" "unat (i + 1) = unat i + 1" "(unat i + 1) * 16 < unat len"
proof -
  have "unat (i + 1) = unat i + 1" using assms by (simp add: unat_word_ariths)
  then show ?thesis using that by (cases "unat len \<le> unat (i + 1) * 16") (simp_all add: ring_next_def)
qed

text \<open>From every index the walk comes to index 0, and from there to every index of the ring.\<close>

lemma ring_reaches_0:
  assumes "unat i \<le> 0xffff" and "unat len \<le> 0xfff80"
  shows "\<exists>k. 1 \<le> k \<and> k \<le> 65529 \<and> (ring_next len ^^ k) i = 0"
proof -
  have "\<exists>k. 1 \<le> k \<and> k \<le> max 1 (65529 - unat i) \<and> (ring_next len ^^ k) i = 0"
    using assms
  proof (induction "65536 - unat i" arbitrary: i rule: less_induct)
    case less
    from less.prems(1) show ?case
    proof (cases rule: ring_next_cases [of i len])
      case 1
      then show ?thesis by (intro exI [of _ 1]) simp
    next
      case 2
      then have "65536 - unat (i + 1) < 65536 - unat i" "unat (i + 1) \<le> 0xffff" using less.prems by simp_all
      from less.hyps [OF this less.prems(2)]
      obtain k where "1 \<le> k" "k \<le> max 1 (65529 - unat (i + 1))" "(ring_next len ^^ k) (i + 1) = 0" by blast
      then show ?thesis
        using 2 less.prems(2) by (intro exI [of _ "Suc k"]) (auto simp: funpow_swap1)
    qed
  qed
  then show ?thesis using le_trans by fastforce
qed

lemma ring_from_0:
  assumes "in_ring len t" and "unat len \<le> 0xfff80" and "k \<le> unat t"
  shows "unat ((ring_next len ^^ k) 0) = k"
  using assms(3)
proof (induction k)
  case (Suc k)
  let ?i = "(ring_next len ^^ k) 0"
  have i: "unat ?i = k" and t: "(k + 1) * 16 < unat len"
    using Suc assms(1) by (auto simp: in_ring_def)
  then have "unat (?i + 1) = k + 1" using assms(2) by (simp add: unat_word_ariths)
  then show ?case using t by (simp add: ring_next_def [of _ ?i])
qed simp

lemma ring_reaches:
  assumes "unat i \<le> 0xffff" and "unat len \<le> 0xfff80" and "in_ring len t"
  shows "\<exists>k. 1 \<le> k \<and> k \<le> 131057 \<and> (ring_next len ^^ k) i = t"
proof -
  obtain k where k: "1 \<le> k" "k \<le> 65529" "(ring_next len ^^ k) i = 0"
    using ring_reaches_0 [OF assms(1,2)] by auto
  have "(ring_next len ^^ unat t) 0 = t"
    using ring_from_0 [OF assms(3,2) order_refl] by (simp add: word_unat_eq_iff)
  moreover have "unat t \<le> 65528" using assms(2,3) by (auto simp: in_ring_def)
  ultimately show ?thesis
    using k by (intro exI [of _ "unat t + k"]) (simp add: funpow_add)
qed

text \<open>Writing back the status of a descriptor leaves the command words of all descriptors alone.\<close>

definition slot :: "nic \<Rightarrow> u32 \<Rightarrow> u8 list" where
  "slot n i = mem_read (ram n) (ring_addr (mac_reg (dev n) TDBAH) (mac_reg (dev n) TDBAL) i) 16"

lemma status_word_apart:
  fixes z y :: u64
  assumes "y + of_nat d = 16 * z" and "0 < d" and "d \<le> 4"
  shows "4 \<le> unat y"
proof (rule ccontr)
  assume "\<not> 4 \<le> unat y"
  moreover have "unat (16 * z) mod 16 = 0"
    using mod_mod_cancel [of 16 "18446744073709551616 :: nat" "16 * unat z"] by (simp add: unat_word_ariths)
  moreover have "unat (y + of_nat d) = (unat y + d) mod 2 ^ 64"
    by (simp add: unat_word_ariths unat_of_nat mod_simps)
  ultimately show False using assms by simp
qed

lemma writeback_keeps_command:
  "td_lower (decode_tx_desc (mem_read (mem_write m (ring_addr h l i + 12) (le_bytes 4 w)) (ring_addr h l j) 16)) =
   td_lower (decode_tx_desc (mem_read m (ring_addr h l j) 16))"
proof -
  have "mem_write m (ring_addr h l i + 12) (le_bytes 4 w) (ring_addr h l j + of_nat (8 + p)) = m (ring_addr h l j + of_nat (8 + p))"
    if "p < 4" for p
  proof -
    let ?y = "ring_addr h l j + of_nat (8 + p) - (ring_addr h l i + 12)"
    have y: "?y + of_nat (4 - p) = 16 * (ucast j - ucast i)"
      using that by (simp add: ring_addr_def of_nat_diff algebra_simps)
    have "4 \<le> unat ?y" using that by (intro status_word_apart [OF y]) simp_all
    then show ?thesis by (simp add: mem_write_def)
  qed
  then have "take 4 (drop 8 (mem_read (mem_write m (ring_addr h l i + 12) (le_bytes 4 w)) (ring_addr h l j) 16))
    = take 4 (drop 8 (mem_read m (ring_addr h l j) 16))"
    by (intro nth_equalityI) simp_all
  then show ?thesis by (simp add: decode_tx_desc_def)
qed

lemma xmit_one_keeps_commands:
  assumes "xmit_one fuel n = Ok (c, n')"
  shows "td_lower (decode_tx_desc (slot n' j)) = td_lower (decode_tx_desc (slot n j))"
proof -
  let ?base = "ring_addr (mac_reg (dev n) TDBAH) (mac_reg (dev n) TDBAL) (mac_reg (dev n) TDH)"
  obtain m where m: "process_tx_desc fuel (mem_read (ram n) ?base 16) n = Ok m"
    and n': "n' = (snd (txdesc_writeback ?base (mem_read (ram n) ?base 16) m))\<lparr>dev := put_reg TDH
       (ring_next (mac_reg (dev m) TDLEN) (mac_reg (dev m) TDH)) (dev m)\<rparr>"
    using assms by (auto simp: xmit_one_def Let_def bindO_eq_Ok_conv case_prod_unfold)
  have f: "ram m = ram n" "mac_reg (dev m) TDBAH = mac_reg (dev n) TDBAH" "mac_reg (dev m) TDBAL = mac_reg (dev n) TDBAL"
    using process_tx_desc_frame [OF m] by (simp_all add: tx_frame_def)
  then show ?thesis
    by (simp add: n' slot_def txdesc_writeback_def Let_def writeback_keeps_command)
qed

text \<open>A ring without segmentation: no descriptor has the segmentation bit, and no context asks for it.\<close>

definition plain_ring :: "nic \<Rightarrow> bool" where
  "plain_ring n \<longleftrightarrow> \<not> tse (tx (dev n)) \<and> (\<forall>i. td_lower (decode_tx_desc (slot n i)) AND E1000_TXD_CMD_TSE = 0)"

lemma xmit_seg_tse [simp]: "tse (tx (dev (xmit_seg n))) = tse (tx (dev n))"
  by (simp add: xmit_seg_def Let_def case_prod_unfold tx_packet_def tx_checksums_def tso_headers_def)

lemma end_of_packet_tse [simp]: "tse (tx (dev (end_of_packet hdr n))) = tse (tx (dev n))"
  by (simp add: end_of_packet_def Let_def)

lemma vlan_tag_tse [simp]:
  "tse (tx (dev (vlan_tag dp n))) = tse (tx (dev n))" "cptse (tx (dev (vlan_tag dp n))) = cptse (tx (dev n))"
  by (simp_all add: vlan_tag_def Let_def)

lemma dma_append_tse: "dma_append n addr len = Ok n' \<Longrightarrow> tse (tx (dev n')) = tse (tx (dev n))"
  by (auto simp: dma_append_def Let_def split: if_splits)

lemma dma_append_faults: "dma_append n addr len = Fault e \<Longrightarrow> e = Buffer_Overflow"
  by (auto simp: dma_append_def Let_def split: if_splits)

lemma data_desc_plain:
  assumes "\<not> tse (tx (dev n))" and "\<not> cptse (tx (dev n))"
  shows "data_desc fuel dp n = Ok n' \<Longrightarrow> \<not> tse (tx (dev n'))"
    and "data_desc fuel dp n = Fault e \<Longrightarrow> e = Buffer_Overflow"
proof -
  assume "data_desc fuel dp n = Ok n'"
  then obtain k m where k: "dma_append (vlan_tag dp n) (td_buffer_addr dp) (td_lower dp AND 0xffff) = Ok k"
    and m: "m = upd_tx (\<lambda>tp. tp\<lparr>tx_size := tx_size tp + ucast (td_lower dp AND 0xffff)\<rparr>) k"
    and n': "n' = m \<or> n' = end_of_packet 0 m"
    using assms unfolding data_desc_def Let_def bindO_eq_Ok_conv by (auto simp: bindO_eq_Ok_conv split: if_splits)
  show "\<not> tse (tx (dev n'))" using n' m dma_append_tse [OF k] assms by auto
next
  assume "data_desc fuel dp n = Fault e"
  then show "e = Buffer_Overflow"
    using assms unfolding data_desc_def Let_def
    by (auto simp: bindO_eq_Fault_conv bindO_eq_Ok_conv dest: dma_append_faults split: if_splits)
qed

lemma process_tx_desc_plain:
  assumes "\<not> tse (tx (dev n))" and "td_lower (decode_tx_desc bs) AND E1000_TXD_CMD_TSE = 0"
  shows "process_tx_desc fuel bs n = Ok n' \<Longrightarrow> \<not> tse (tx (dev n'))"
    and "process_tx_desc fuel bs n = Fault e \<Longrightarrow> e = Buffer_Overflow"
proof -
  have "cd_cmd_and_length (decode_context_desc bs) = td_lower (decode_tx_desc bs)"
    by (simp add: decode_context_desc_def decode_tx_desc_def)
  then have ctx: "\<not> tse (context_desc (decode_context_desc bs) tp)" for tp
    using assms(2) by (simp add: context_desc_def Let_def)
  show "process_tx_desc fuel bs n = Ok n' \<Longrightarrow> \<not> tse (tx (dev n'))"
    using assms ctx unfolding process_tx_desc_def Let_def
    by (auto split: if_splits elim!: data_desc_plain(1) [rotated 2, THEN notE])
  show "process_tx_desc fuel bs n = Fault e \<Longrightarrow> e = Buffer_Overflow"
    using assms unfolding process_tx_desc_def Let_def
    by (auto split: if_splits elim!: data_desc_plain(2) [rotated 2])
qed

lemma xmit_one_plain:
  assumes "plain_ring n"
  shows "xmit_one fuel n = Ok (c, n') \<Longrightarrow> plain_ring n'"
    and "xmit_one fuel n = Fault e \<Longrightarrow> e = Buffer_Overflow"
proof -
  let ?bs = "slot n (mac_reg (dev n) TDH)"
  note pl = assms [unfolded plain_ring_def]
  have step: "\<not> tse (tx (dev n))" "td_lower (decode_tx_desc ?bs) AND E1000_TXD_CMD_TSE = 0" using pl by auto
  assume r: "xmit_one fuel n = Ok (c, n')"
  then show "plain_ring n'"
  proof (rule xmit_one_OkE)
    fix m
    assume "process_tx_desc fuel (mem_read (ram n) (ring_addr (mac_reg (dev n) TDBAH) (mac_reg (dev n) TDBAL)
        (mac_reg (dev n) TDH)) 16) n = Ok m"
      and "dev n' = put_reg TDH (ring_next (mac_reg (dev n) TDLEN) (mac_reg (dev n) TDH)) (dev m)"
    then show ?thesis
      using process_tx_desc_plain(1) [OF step] xmit_one_keeps_commands [OF r] pl
      by (simp add: plain_ring_def slot_def)
  qed
next
  let ?bs = "slot n (mac_reg (dev n) TDH)"
  assume "xmit_one fuel n = Fault e"
  then have "process_tx_desc fuel ?bs n = Fault e"
    by (auto simp: xmit_one_def Let_def slot_def bindO_eq_Fault_conv case_prod_unfold)
  then show "e = Buffer_Overflow"
    using assms process_tx_desc_plain(2) [of n ?bs] by (auto simp: plain_ring_def)
qed

lemma xmit_loop_steps:
  assumes "(ring_next (mac_reg (dev n) TDLEN) ^^ k) (mac_reg (dev n) TDH) = t"
    and "t = h \<or> t = mac_reg (dev n) TDT" and "1 \<le> k" and "k < fuel"
    and "xmit_loop fuel sfuel h c n = Fault e" and "plain_ring n"
  shows "e = Buffer_Overflow"
  using assms
proof (induction fuel arbitrary: c n k)
  case (Suc fuel)
  let ?s = "dev n"
  have ne: "mac_reg ?s TDH \<noteq> mac_reg ?s TDT" using Suc.prems(5) by auto
  show ?case
  proof (cases "xmit_one sfuel n")
    case (Ok r)
    obtain d m where r: "r = (d, m)" by (cases r)
    have s: "mac_reg (dev m) TDLEN = mac_reg ?s TDLEN" "mac_reg (dev m) TDT = mac_reg ?s TDT"
      "mac_reg (dev m) TDH = ring_next (mac_reg ?s TDLEN) (mac_reg ?s TDH)"
      using Ok unfolding r by (auto elim!: xmit_one_OkE simp: tx_frame_def)
    have nh: "mac_reg (dev m) TDH \<noteq> h" and l: "xmit_loop fuel sfuel h (c OR d) m = Fault e"
      using Suc.prems(5) ne Ok r by (auto split: if_splits)
    obtain j where j: "k = Suc j" using Suc.prems(3) by (cases k) auto
    have t: "(ring_next (mac_reg (dev m) TDLEN) ^^ j) (mac_reg (dev m) TDH) = t"
      using Suc.prems(1) by (simp add: j s funpow_swap1)
    have "j \<noteq> 0"
    proof
      assume "j = 0"
      with t nh Suc.prems(2) s(2) have "mac_reg (dev m) TDH = mac_reg (dev m) TDT" by simp
      with l Suc.prems(4) j show False by (cases fuel) auto
    qed
    then show ?thesis
      using Suc.IH [OF t _ _ _ l] Suc.prems(2,4) s(2) j xmit_one_plain(1) [OF Suc.prems(6)] Ok r by simp
  qed (use Suc.prems(5,6) ne xmit_one_plain(2) in auto)
qed simp


section \<open>A packet is the concatenation of its buffers\<close>

fun process_all :: "nat \<Rightarrow> e1000_tx_desc list \<Rightarrow> nic \<Rightarrow> nic outcome" where
  "process_all fuel [] n = Ok n"
| "process_all fuel (d # ds) n = bindO (process_tx_desc fuel (encode_tx_desc d) n) (process_all fuel ds)"

definition pending :: "nic \<Rightarrow> u8 list" where
  "pending n = buf_get (data (tx (dev n))) 0 (unat (tx_size (tx (dev n))))"

definition desc_len :: "e1000_tx_desc \<Rightarrow> nat" where
  "desc_len d = unat (td_lower d AND 0xffff)"

definition desc_bytes :: "gmem \<Rightarrow> e1000_tx_desc \<Rightarrow> u8 list" where
  "desc_bytes m d = mem_read m (td_buffer_addr d) (desc_len d)"

definition legacy :: "bool \<Rightarrow> e1000_tx_desc \<Rightarrow> bool" where
  "legacy eop d \<longleftrightarrow> td_lower d AND E1000_TXD_CMD_DEXT = 0 \<and> td_lower d AND E1000_TXD_CMD_VLE = 0 \<and>
     (td_lower d AND E1000_TXD_CMD_EOP \<noteq> 0 \<longleftrightarrow> eop)"

definition no_offload :: "nic \<Rightarrow> bool" where
  "no_offload n \<longleftrightarrow> sum_needed (tx (dev n)) = 0 \<and> \<not> vlan_needed (tx (dev n))"

lemma legacy_dtype:
  assumes "(w :: u32) AND E1000_TXD_CMD_DEXT = 0"
  shows "w AND (E1000_TXD_CMD_DEXT OR E1000_TXD_DTYP_D) \<noteq> E1000_TXD_CMD_DEXT"
    and "w AND (E1000_TXD_CMD_DEXT OR E1000_TXD_DTYP_D) \<noteq> E1000_TXD_CMD_DEXT OR E1000_TXD_DTYP_D"
proof -
  have "(w AND (E1000_TXD_CMD_DEXT OR E1000_TXD_DTYP_D)) AND E1000_TXD_CMD_DEXT = w AND E1000_TXD_CMD_DEXT"
    by (simp add: and.assoc)
  with assms show "w AND (E1000_TXD_CMD_DEXT OR E1000_TXD_DTYP_D) \<noteq> E1000_TXD_CMD_DEXT"
    and "w AND (E1000_TXD_CMD_DEXT OR E1000_TXD_DTYP_D) \<noteq> E1000_TXD_CMD_DEXT OR E1000_TXD_DTYP_D" by auto
qed

lemma desc_len_bound: "desc_len d < 65536"
  using unat_and_mask [of "td_lower d" 16] by (simp add: desc_len_def mask_eq_exp_minus_1)

lemma dma_append_pending:
  assumes "unat (tx_size (tx (dev n))) + unat len \<le> 0xffff"
  shows "\<exists>d. dma_append n addr len = Ok (upd_tx (\<lambda>tp. tp\<lparr>data := d\<rparr>) n) \<and>
    buf_get d 0 (unat (tx_size (tx (dev n))) + unat len) = pending n @ mem_read (ram n) addr (unat len)"
proof (cases "len = 0")
  case True
  then show ?thesis
    by (intro exI [of _ "data (tx (dev n))"]) (simp add: dma_append_def upd_tx_def pending_def mem_read_def)
next
  case False
  have "sint len = int (unat len)"
    using assms by (intro sint_small) simp
  moreover have "0 < unat len" using False by (simp add: unat_gt_0)
  ultimately have "0 < sint len" by linarith
  then show ?thesis
    using assms buf_get_extend [of "data (tx (dev n))" "unat (tx_size (tx (dev n)))" "mem_read (ram n) addr (unat len)"]
    by (intro exI [of _ "buf_put (data (tx (dev n))) (unat (tx_size (tx (dev n)))) (mem_read (ram n) addr (unat len))"])
      (simp add: dma_append_def upd_tx_def pending_def)
qed

lemma vlan_tag_legacy: "legacy eop d \<Longrightarrow> vlan_tag d n = n"
  by (simp add: vlan_tag_def Let_def legacy_def is_vlan_txd_def)

lemma legacy_data_desc:
  assumes "legacy eop d" and "unat (tx_size (tx (dev n))) + desc_len d \<le> 0xffff" and "\<not> cptse (tx (dev n))"
  shows "\<exists>n'. data_desc fuel d n = Ok (if eop then end_of_packet 0 n' else n') \<and>
    pending n' = pending n @ desc_bytes (ram n) d \<and> unat (tx_size (tx (dev n'))) = unat (tx_size (tx (dev n))) + desc_len d \<and>
    (\<exists>e. n' = upd_tx (\<lambda>tp. tp\<lparr>data := e, tx_size := tx_size tp + ucast (td_lower d AND 0xffff)\<rparr>) n)"
proof -
  let ?l = "td_lower d AND 0xffff" and ?n = "unat (tx_size (tx (dev n)))"
  have len: "unat ?l = desc_len d" by (simp add: desc_len_def)
  obtain e where e: "dma_append n (td_buffer_addr d) ?l = Ok (upd_tx (\<lambda>tp. tp\<lparr>data := e\<rparr>) n)"
    "buf_get e 0 (?n + desc_len d) = pending n @ desc_bytes (ram n) d"
    using dma_append_pending [of n ?l "td_buffer_addr d"] assms(2) by (auto simp: len desc_bytes_def)
  let ?n' = "upd_tx (\<lambda>tp. tp\<lparr>data := e, tx_size := tx_size tp + ucast ?l\<rparr>) n"
  have "unat (ucast ?l :: u16) = desc_len d"
    using desc_len_bound [of d] by (simp add: unsigned_ucast_eq len take_bit_nat_eq_self)
  then have sz: "unat (tx_size (tx (dev n)) + ucast ?l) = ?n + desc_len d"
    using assms(2) by (simp add: unat_word_ariths)
  then have "pending ?n' = pending n @ desc_bytes (ram n) d"
    by (simp add: pending_def [of ?n'] e(2))
  moreover have "data_desc fuel d n = Ok (if eop then end_of_packet 0 ?n' else ?n')"
    using assms(1,3) e(1) by (simp add: data_desc_def Let_def vlan_tag_legacy legacy_def) (auto simp: upd_tx_def)
  ultimately show ?thesis using sz by (intro exI [of _ ?n']) auto
qed

lemma process_legacy:
  assumes "legacy eop d" and "unat (tx_size (tx (dev n))) + desc_len d \<le> 0xffff"
  shows "\<exists>n'. process_tx_desc fuel (encode_tx_desc d) n = Ok (if eop then end_of_packet 0 n' else n') \<and>
    pending n' = pending n @ desc_bytes (ram n) d \<and> unat (tx_size (tx (dev n'))) = unat (tx_size (tx (dev n))) + desc_len d \<and>
    (\<exists>e. n' = upd_tx (\<lambda>tp. tp\<lparr>cptse := False, data := e, tx_size := tx_size tp + ucast (td_lower d AND 0xffff)\<rparr>) n)"
proof -
  let ?n = "upd_tx (\<lambda>tp. tp\<lparr>cptse := False\<rparr>) n"
  have p: "process_tx_desc fuel (encode_tx_desc d) n = data_desc fuel d ?n"
    using assms(1) legacy_dtype [of "td_lower d"] unfolding legacy_def process_tx_desc_def Let_def decode_encode_desc
    by (simp only: if_False)
  have q: "pending ?n = pending n" "ram ?n = ram n" "tx_size (tx (dev ?n)) = tx_size (tx (dev n))" by (simp_all add: pending_def)
  obtain n' e where n': "data_desc fuel d ?n = Ok (if eop then end_of_packet 0 n' else n')"
    "pending n' = pending n @ desc_bytes (ram n) d" "unat (tx_size (tx (dev n'))) = unat (tx_size (tx (dev n))) + desc_len d"
    and e: "n' = upd_tx (\<lambda>tp. tp\<lparr>data := e, tx_size := tx_size tp + ucast (td_lower d AND 0xffff)\<rparr>) ?n"
    using legacy_data_desc [OF assms(1), of ?n fuel] assms(2) unfolding q by auto
  have "n' = upd_tx (\<lambda>tp. tp\<lparr>cptse := False, data := e, tx_size := tx_size tp + ucast (td_lower d AND 0xffff)\<rparr>) n"
    unfolding e by (simp add: upd_tx_def)
  with n' show ?thesis unfolding p by blast
qed

lemma xmit_seg_plain:
  assumes "no_offload n" and "\<not> cptse (tx (dev n))"
  shows "xmit_seg n = n\<lparr>dev := tx_counters (tx_size (tx (dev n))) (dev n), sent := sent n @ [pending n]\<rparr>"
  using assms by (simp add: xmit_seg_def no_offload_def tx_checksums_def tx_packet_def pending_def Let_def)

lemma process_legacy_list:
  assumes "\<forall>d\<in>set ds. legacy False d" and "unat (tx_size (tx (dev n))) + sum_list (map desc_len ds) \<le> 0xffff"
  shows "\<exists>n'. process_all fuel ds n = Ok n' \<and> pending n' = pending n @ concat (map (desc_bytes (ram n)) ds) \<and>
    unat (tx_size (tx (dev n'))) = unat (tx_size (tx (dev n))) + sum_list (map desc_len ds) \<and>
    ram n' = ram n \<and> sent n' = sent n \<and> mac_reg (dev n') = mac_reg (dev n) \<and> (no_offload n \<longrightarrow> no_offload n')"
  using assms
proof (induction ds arbitrary: n)
  case Nil
  then show ?case by simp
next
  case (Cons d ds)
  obtain m where m: "process_tx_desc fuel (encode_tx_desc d) n = Ok m" "pending m = pending n @ desc_bytes (ram n) d"
    "unat (tx_size (tx (dev m))) = unat (tx_size (tx (dev n))) + desc_len d"
    and u: "\<exists>e. m = upd_tx (\<lambda>tp. tp\<lparr>cptse := False, data := e, tx_size := tx_size tp + ucast (td_lower d AND 0xffff)\<rparr>) n"
    using process_legacy [of False d n fuel] Cons.prems by auto
  have f: "ram m = ram n" "sent m = sent n" "mac_reg (dev m) = mac_reg (dev n)" "no_offload n \<longrightarrow> no_offload m"
    using u by (auto simp: no_offload_def)
  have "unat (tx_size (tx (dev m))) + sum_list (map desc_len ds) \<le> 0xffff" using Cons.prems m(3) by simp
  then show ?case using Cons.IH [of m] Cons.prems(1) m f by (auto simp: add.assoc)
qed

definition octets_sent :: "E1000State \<Rightarrow> u64" where
  "octets_sent s = push_bit 32 (ucast (mac_reg s TOTH)) + ucast (mac_reg s TOTL)"

lemma octets_counters: "octets_sent (tx_counters sz s) = octets_sent s + ucast sz"
proof -
  let ?l = "mac_reg s TOTL" and ?b = "ucast sz :: u32"
  have "(ucast ?b :: u64) = ucast sz"
    by (rule bit_word_eqI) (auto dest: bit_imp_le_length)
  then show ?thesis
    using ucast_add_carry [of ?l ?b] shl32_add [of "mac_reg s TOTH" 1]
    by (auto simp: octets_sent_def tx_counters_def Let_def algebra_simps split: if_splits)
qed

lemma process_all_snoc:
  "process_all fuel (ds @ [d]) n = bindO (process_all fuel ds n) (process_tx_desc fuel (encode_tx_desc d))"
proof (induction ds arbitrary: n)
  case Nil
  show ?case by (cases "process_tx_desc fuel (encode_tx_desc d) n") simp_all
next
  case (Cons a ds)
  then show ?case by (cases "process_tx_desc fuel (encode_tx_desc a) n") simp_all
qed

text \<open>
  C13: A packet that a driver hands over in several buffers goes out as one packet, the concatenation of
  the buffers in the order of the descriptors: with an idle transmitter, processing legacy descriptors
  of which the last one ends the packet sends exactly one packet, counts it once and adds its length to
  the 64-bit octet counter that \<^verbatim>\<open>TOTH\<close> and \<^verbatim>\<open>TOTL\<close> form, and leaves the transmitter idle.
\<close>

theorem legacy_packet_sent:
  assumes "\<forall>d\<in>set ds. legacy False d" and "legacy True d"
    and "sum_list (map desc_len ds) + desc_len d \<le> 0xffff"
    and "no_offload n" and "tx_size (tx (dev n)) = 0"
  shows "\<exists>n'. process_all fuel (ds @ [d]) n = Ok n' \<and>
    sent n' = sent n @ [concat (map (desc_bytes (ram n)) (ds @ [d]))] \<and> ram n' = ram n \<and>
    mac_reg (dev n') TPT = mac_reg (dev n) TPT + 1 \<and> mac_reg (dev n') GPTC = mac_reg (dev n) GPTC + 1 \<and>
    octets_sent (dev n') = octets_sent (dev n) + of_nat (sum_list (map desc_len (ds @ [d]))) \<and>
    no_offload n' \<and> tx_size (tx (dev n')) = 0"
proof -

  have p0: "pending n = []" using assms(5) by (simp add: pending_def)
  obtain m where m: "process_all fuel ds n = Ok m" "pending m = concat (map (desc_bytes (ram n)) ds)"
    "unat (tx_size (tx (dev m))) = sum_list (map desc_len ds)" "ram m = ram n" "sent m = sent n"
    "mac_reg (dev m) = mac_reg (dev n)" "no_offload m"
    using process_legacy_list [OF assms(1), of n fuel] assms(3-5) p0 by auto
  obtain k e where k: "process_tx_desc fuel (encode_tx_desc d) m = Ok (end_of_packet 0 k)"
    "pending k = pending m @ desc_bytes (ram m) d" "unat (tx_size (tx (dev k))) = sum_list (map desc_len ds) + desc_len d"
    and e: "k = upd_tx (\<lambda>tp. tp\<lparr>cptse := False, data := e, tx_size := tx_size tp + ucast (td_lower d AND 0xffff)\<rparr>) m"
    using process_legacy [OF assms(2), of m fuel] m(3) assms(3) by auto
  have kk: "no_offload k" "\<not> cptse (tx (dev k))" "ram k = ram n" "sent k = sent n" "mac_reg (dev k) = mac_reg (dev n)"
    using m e by (auto simp: no_offload_def)
  let ?n' = "end_of_packet 0 k"
  have n': "?n' = upd_tx (\<lambda>tp. tp\<lparr>tso_frames := 0, sum_needed := 0, vlan_needed := False, tx_size := 0, cptse := False\<rparr>)
      (k\<lparr>dev := tx_counters (tx_size (tx (dev k))) (dev k), sent := sent k @ [pending k]\<rparr>)"
    using kk by (simp add: end_of_packet_def xmit_seg_plain)
  have "octets_sent (dev ?n') = octets_sent (dev n) + ucast (tx_size (tx (dev k)))"
    using octets_counters [of "tx_size (tx (dev k))" "dev k"] kk(5) by (simp add: n' octets_sent_def)
  also have "ucast (tx_size (tx (dev k))) = (of_nat (unat (tx_size (tx (dev k)))) :: u64)" by simp
  also have "unat (tx_size (tx (dev k))) = sum_list (map desc_len (ds @ [d]))" using k(3) by simp
  finally have "octets_sent (dev ?n') = octets_sent (dev n) + of_nat (sum_list (map desc_len (ds @ [d])))" .
  moreover have "process_all fuel (ds @ [d]) n = Ok ?n'" using m(1) k(1) by (simp add: process_all_snoc)
  moreover have "mac_reg (dev ?n') TPT = mac_reg (dev n) TPT + 1" "mac_reg (dev ?n') GPTC = mac_reg (dev n) GPTC + 1"
    using kk(5) by (simp_all add: n' tx_counters_def Let_def)
  ultimately show ?thesis
    using m k(2) kk by (intro exI [of _ ?n']) (simp add: n' no_offload_def)
qed

end
