(* ===== verification/E1000_Offload.thy ===== *)
theory E1000_Offload
  imports E1000_Tx
begin

text \<open>
  Checksum offload and TCP segmentation of the transmitter: the checksum that \<^verbatim>\<open>putsum\<close> inserts makes the
  packet verify, segmentation ends and cuts a large packet into segments whose payloads are the payload
  of the packet, and the inputs on which transmission overruns its buffer or never ends.
\<close>

section \<open>Inserted checksums verify\<close>

definition csum_end :: "u32 \<Rightarrow> u32 \<Rightarrow> u32" where
  "csum_end n cse = (if cse \<noteq> 0 \<and> cse < n then cse + 1 else n)"

lemma be_bytes_2: "be_bytes 2 (c :: u16) = [ucast (drop_bit 8 c), ucast (c AND 0xff)]"
proof -
  have m: "c AND 0xff = take_bit 8 c" by (simp add: take_bit_eq_mask mask_eq_exp_minus_1)
  have "(ucast (c AND 0xff) :: u8) = ucast c"
    unfolding m by (rule bit_word_eqI) (simp add: bit_take_bit_iff)
  then show ?thesis by (simp add: be_bytes_def numeral_2_eq_2)
qed

lemma be_word_2: "256 * unat a + unat b = unat (be_word [a, b] :: u16)"
proof -
  have "be_bytes 2 (be_word [a, b] :: u16) = [a, b]" by simp
  then show ?thesis using be16_split [of "be_word [a, b]"] by (simp add: be_bytes_2)
qed

lemma buf_get_put_2:
  assumes "css \<le> sloc" and "sloc + 1 < css + len"
  shows "buf_get (buf_put dat sloc [a, b]) css len = (buf_get dat css len)[sloc - css := a, sloc - css + 1 := b]"
  using assms by (intro nth_equalityI) (auto simp: buf_put_def nth_list_update)

text \<open>
  C19: The checksum that \<^verbatim>\<open>putsum\<close> inserts verifies. Over the range from \<open>css\<close> to the end that \<open>cse\<close> and the
  length determine, with the checksum field at an even offset inside it, the sum of the result together
  with what the field held before (the pseudo header sum that the driver left there) finishes to 0, and
  nothing outside the field has changed.
\<close>

theorem putsum_verifies:
  assumes "css \<le> sloc" and "even (unat sloc - unat css)" and "sloc + 1 < csum_end n cse"
    and "unat sloc < 65535" and "unat (csum_end n cse) \<le> 65536"
  shows "net_checksum_finish (checksum_loop 0 (buf_get (putsum dat n sloc css cse) (unat css)
        (unat (csum_end n cse) - unat css)) 0 + ucast (be_word [dat (unat sloc), dat (unat sloc + 1)] :: u16)) = 0 \<and>
    (\<forall>i. i \<noteq> unat sloc \<and> i \<noteq> unat sloc + 1 \<longrightarrow> putsum dat n sloc css cse i = dat i)"
proof -
  let ?e = "csum_end n cse" and ?s = "unat sloc" and ?c = "unat css"
  let ?len = "unat ?e - ?c" and ?old = "be_word [dat (unat sloc), dat (unat sloc + 1)] :: u16"
  have s1: "unat (sloc + 1) = ?s + 1" using assms(4) by (simp add: unat_word_ariths)
  have cs: "?c \<le> ?s" and se: "?s + 1 < unat ?e"
    using assms(1,3) s1 by (simp_all add: word_le_nat_alt word_less_nat_alt)
  have "unat (?e - 1) = unat ?e - 1" using se by (simp add: unat_sub word_le_nat_alt)
  then have slt: "sloc < ?e - 1" using se by (simp add: word_less_nat_alt)
  have le: "unat (?e - css) = ?len" using cs se by (simp add: unat_sub word_le_nat_alt)
  then have si: "nat (sint (?e - css)) = ?len"
    using assms(5) sint_small [of "?e - css"] by simp
  define r where "r = buf_get dat ?c ?len"
  define w where "w = checksum_loop 0 r 0"
  define c where "c = net_checksum_finish w"
  have ps: "putsum dat n sloc css cse = buf_put dat ?s (be_bytes 2 c)"
    using slt by (simp add: putsum_def csum_end_def [symmetric] si Let_def c_def w_def r_def)
  have lr: "length r = ?len" "length r \<le> 65536" using assms(5) by (simp_all add: r_def)
  have p: "?s - ?c + 1 < length r" using cs se lr by simp
  define r' where "r' = buf_get (putsum dat n sloc css cse) ?c ?len"
  have r': "r' = r[?s - ?c := ucast (drop_bit 8 c), ?s - ?c + 1 := ucast (c AND 0xff)]"
    unfolding r'_def ps be_bytes_2 r_def using cs se by (intro buf_get_put_2) simp_all
  have old: "256 * unat (r ! (?s - ?c)) + unat (r ! (?s - ?c + 1)) = unat ?old"
    using cs p lr(1) unfolding be_word_2 by (simp add: r_def)
  have w: "unat w = word_sum False r" unfolding w_def using lr(2) by (rule checksum_loop_nat)
  have w': "unat (checksum_loop 0 r' 0) = word_sum False r'" using lr r' by (intro checksum_loop_nat) simp
  have sum: "word_sum False r' + unat ?old = unat w + unat c"
    using word_sum_update [OF assms(2) p, of "ucast (drop_bit 8 c)" "ucast (c AND 0xff)"] old
    unfolding r' [symmetric] be16_split w by simp
  have "unat c < 65536" using unsigned_less [where 'a = nat, of c] by simp
  moreover have "word_sum False r \<le> 65280 * 65536" using word_sum_bound [of False r] lr by simp
  ultimately have "word_sum False r' + unat ?old < 4294967296" using sum w by simp
  moreover have "unat (ucast x :: u32) = unat x" for x :: u16
    using unsigned_less [where 'a = nat, of x] by (simp add: unsigned_ucast_eq take_bit_nat_eq_self)
  ultimately have "unat (checksum_loop 0 r' 0 + ucast ?old) = unat w + unat c"
    using sum w' by (simp add: unat_word_ariths)
  then have "net_checksum_finish (checksum_loop 0 r' 0 + ucast ?old) = 0"
    using finish_cancels [of w] by (intro finish_zero) (simp_all add: c_def)
  moreover have "putsum dat n sloc css cse i = dat i" if "i \<noteq> ?s \<and> i \<noteq> ?s + 1" for i
    using that by (auto simp: ps buf_put_def)
  ultimately show ?thesis unfolding r'_def by blast
qed

section \<open>TCP segmentation\<close>

text \<open>
  A segmentation context: header length and maximum segment size are such that a segment fits the
  buffer, the fields that are patched lie inside the header, and the packet is not tagged.
\<close>

definition tso_hdr :: "nic \<Rightarrow> nat" where
  "tso_hdr n = unat (hdr_len (tx (dev n)))"

definition tso_max :: "nic \<Rightarrow> nat" where
  "tso_max n = tso_hdr n + unat (mss (tx (dev n)))"

definition tso_ctx :: "nic \<Rightarrow> bool" where
  "tso_ctx n \<longleftrightarrow> (let tp = tx (dev n); h = tso_hdr n in
     tse tp \<and> \<not> vlan_needed tp \<and> 0 < mss tp \<and> tso_max n \<le> 0xffff \<and> unat (ipcss tp) + 6 \<le> h \<and> unat (tucss tp) + 14 \<le> h \<and>
     unat (tucso tp) + 2 \<le> h \<and> unat (ipcso tp) + 2 \<le> h)"

definition same_above :: "nat \<Rightarrow> (nat \<Rightarrow> u8) \<Rightarrow> (nat \<Rightarrow> u8) \<Rightarrow> bool" where
  "same_above h f g \<longleftrightarrow> (\<forall>i\<ge>h. f i = g i)"

lemma same_above_refl [simp]: "same_above h f f"
  by (simp add: same_above_def)

lemma same_above_trans [trans]: "same_above h f g \<Longrightarrow> same_above h g k \<Longrightarrow> same_above h f k"
  by (simp add: same_above_def)

lemma same_above_put [simp]: "off + length bs \<le> h \<Longrightarrow> same_above h (buf_put f off bs) g = same_above h f g"
  by (auto simp: same_above_def buf_put_def)

lemma same_above_upd [simp]: "i < h \<Longrightarrow> same_above h (f(i := x)) g = same_above h f g"
  by (auto simp: same_above_def)

lemma same_above_putsum [simp]: "unat sloc + 2 \<le> h \<Longrightarrow> same_above h (putsum f n sloc css cse) g = same_above h f g"
  by (simp add: putsum_def Let_def)

lemma tso_headers_above:
  assumes "unat (ipcss tp) + 6 \<le> h" and "unat (tucss tp) + 14 \<le> h" and "unat (tucso tp) + 2 \<le> h"
  shows "same_above h (data (tso_headers tp)) (data tp)"
proof -
  have ih: "same_above h (seg_ip_header tp) (data tp)"
    using assms(1) by (simp add: seg_ip_header_def Let_def)
  have l4: "same_above h (seg_l4_header tp d) d" for d
    using assms(2) by (simp add: seg_l4_header_def Let_def)
  have ps: "same_above h (seg_pseudo_header tp d) d" for d
    using assms(3) by (simp add: seg_pseudo_header_def Let_def)
  show ?thesis
    unfolding tso_headers_def using same_above_trans [OF ps same_above_trans [OF l4 ih]] by simp
qed

text \<open>Sending a segment touches the header bytes only.\<close>

definition tx_ctl :: "e1000_tx \<Rightarrow> e1000_tx" where
  "tx_ctl tp = tp\<lparr>data := (\<lambda>_. 0), tso_frames := 0, header := (\<lambda>_. 0), tx_size := 0\<rparr>"

definition tx_same :: "nic \<Rightarrow> nic \<Rightarrow> bool" where
  "tx_same n n' \<longleftrightarrow> tx_ctl (tx (dev n')) = tx_ctl (tx (dev n))"

lemma tx_ctl_upd [simp]:
  "tx_ctl (tp\<lparr>data := d\<rparr>) = tx_ctl tp" "tx_ctl (tp\<lparr>tso_frames := f\<rparr>) = tx_ctl tp"
  "tx_ctl (tp\<lparr>header := h\<rparr>) = tx_ctl tp" "tx_ctl (tp\<lparr>tx_size := z\<rparr>) = tx_ctl tp"
  by (simp_all add: tx_ctl_def)

lemma tx_same_refl [simp]: "tx_same n n"
  by (simp add: tx_same_def)

lemma tx_same_trans: "tx_same a b \<Longrightarrow> tx_same b c \<Longrightarrow> tx_same a c"
  by (simp add: tx_same_def)

lemma tso_ctx_same: "tx_same n n' \<Longrightarrow> tso_ctx n \<Longrightarrow> tso_ctx n'"
  "tx_same n n' \<Longrightarrow> tso_hdr n' = tso_hdr n" "tx_same n n' \<Longrightarrow> tso_max n' = tso_max n"
  "tx_same n n' \<Longrightarrow> cptse (tx (dev n')) = cptse (tx (dev n))"
  by (cases "tx (dev n)"; cases "tx (dev n')"; simp add: tx_same_def tx_ctl_def tso_ctx_def tso_hdr_def tso_max_def)+

lemma xmit_seg_segment:
  assumes "tso_ctx n" and "cptse (tx (dev n))"
  shows "\<exists>p. sent (xmit_seg n) = sent n @ [p] \<and> length p = length (pending n) \<and>
    drop (tso_hdr n) p = drop (tso_hdr n) (pending n) \<and> tx_same n (xmit_seg n) \<and>
    header (tx (dev (xmit_seg n))) = header (tx (dev n))"
proof -
  let ?tp = "tx (dev n)" and ?h = "tso_hdr n"
  define t where "t = tx_checksums (tso_headers ?tp)"
  note c = assms(1) [unfolded tso_ctx_def Let_def]
  have "unat (ucast x :: u32) = unat x" for x :: u8
    using unsigned_less [where 'a = nat, of x] by (simp add: unsigned_ucast_eq take_bit_nat_eq_self)
  then have ck: "same_above ?h (data (tx_checksums u)) (data u)" if "tucso u = tucso ?tp" "ipcso u = ipcso ?tp" for u
    using c that by (simp add: tx_checksums_def Let_def)
  have "same_above ?h (data t) (data (tso_headers ?tp))"
    unfolding t_def by (rule ck) (simp_all add: tso_headers_def)
  then have sa: "same_above ?h (data t) (data ?tp)"
    using tso_headers_above [of ?tp ?h] c same_above_trans by blast
  have sz: "tx_size t = tx_size ?tp" "vlan_needed t = vlan_needed ?tp" "header t = header ?tp"
    by (simp_all add: t_def tx_checksums_def tso_headers_def Let_def)
  have "drop ?h (buf_get (data t) 0 k) = drop ?h (buf_get (data ?tp) 0 k)" for k
    using sa by (auto simp: same_above_def buf_get_def intro!: nth_equalityI)
  moreover have x: "xmit_seg n = n\<lparr>dev := tx_counters (tx_size t) ((dev n)\<lparr>tx := t\<rparr>),
      sent := sent n @ [buf_get (data t) 0 (unat (tx_size ?tp))]\<rparr>"
    using c assms(2) sz by (simp add: xmit_seg_def Let_def t_def tx_packet_def)
  moreover have "tx_same n (xmit_seg n)"
    unfolding tx_same_def x by (simp add: t_def tx_checksums_def tso_headers_def Let_def)
  ultimately show ?thesis using sz by (simp add: pending_def)
qed

text \<open>
  After \<open>seen\<close> has been read: either it is still part of the header, or every full segment has been sent and
  the sent payloads followed by the one in the buffer make up the payload seen so far.
\<close>

definition tso_inv :: "u8 list list \<Rightarrow> u8 list \<Rightarrow> nic \<Rightarrow> bool" where
  "tso_inv base seen n \<longleftrightarrow> tso_ctx n \<and> cptse (tx (dev n)) \<and> (\<exists>ps. sent n = base @ ps \<and>
     (\<forall>p\<in>set ps. length p = tso_max n) \<and> length (pending n) < tso_max n \<and>
     concat (map (drop (tso_hdr n)) ps) @ drop (tso_hdr n) (pending n) = drop (tso_hdr n) seen \<and>
     (if length seen < tso_hdr n then ps = [] \<and> pending n = seen else tso_hdr n \<le> length (pending n)))"

lemma length_pending [simp]: "length (pending n) = unat (tx_size (tx (dev n)))"
  by (simp add: pending_def)

lemma mem_read_append: "mem_read m a (j + k) = mem_read m a j @ mem_read m (a + of_nat j) k"
  by (intro nth_equalityI) (auto simp: nth_append of_nat_diff add.assoc)

lemma tso_inv_append:
  assumes "tso_inv base seen n"
  obtains ps where "sent n = base @ ps" "\<forall>p\<in>set ps. length p = tso_max n"
    "concat (map (drop (tso_hdr n)) ps) @ drop (tso_hdr n) (pending n @ xs) = drop (tso_hdr n) (seen @ xs)"
    "length seen < tso_hdr n \<Longrightarrow> ps = [] \<and> pending n = seen" "tso_hdr n \<le> length seen \<Longrightarrow> tso_hdr n \<le> length (pending n)"
proof -
  obtain ps where ps: "sent n = base @ ps" "\<forall>p\<in>set ps. length p = tso_max n"
    "concat (map (drop (tso_hdr n)) ps) @ drop (tso_hdr n) (pending n) = drop (tso_hdr n) seen"
    "if length seen < tso_hdr n then ps = [] \<and> pending n = seen else tso_hdr n \<le> length (pending n)"
    using assms by (auto simp: tso_inv_def)
  have "concat (map (drop (tso_hdr n)) ps) @ drop (tso_hdr n) (pending n @ xs) = drop (tso_hdr n) (seen @ xs)"
  proof (cases "length seen < tso_hdr n")
    case True
    then show ?thesis using ps(4) by simp
  next
    case False
    then have "tso_hdr n \<le> length (pending n)" "tso_hdr n \<le> length seen" using ps(4) by simp_all
    moreover have "h \<le> length a \<Longrightarrow> drop h (a @ xs) = drop h a @ xs" for h and a :: "u8 list" by simp
    ultimately show ?thesis using ps(3) by (metis append_assoc)
  qed
  moreover have "length seen < tso_hdr n \<Longrightarrow> ps = [] \<and> pending n = seen"
    "tso_hdr n \<le> length seen \<Longrightarrow> tso_hdr n \<le> length (pending n)" using ps(4) by simp_all
  ultimately show ?thesis using that ps(1,2) by blast
qed

text \<open>The part of the buffer that one turn of the loop takes.\<close>

lemma tso_bytes_nat:
  assumes "unat sz < msh" and "msh \<le> 0xffff" and "unat k \<le> 0xffff"
  shows "unat (tso_bytes (of_nat msh) sz k) = min (unat k) (msh - unat sz)"
    and "unat (ucast sz + tso_bytes (of_nat msh) sz k :: u32) = unat sz + min (unat k) (msh - unat sz)"
proof -
  have u: "unat (ucast sz :: u32) = unat sz"
    using unsigned_less [where 'a = nat, of sz] by (simp add: unsigned_ucast_eq take_bit_nat_eq_self)
  have m: "unat (of_nat msh :: u32) = msh" using assms(2) by (simp add: unat_of_nat take_bit_nat_eq_self)
  have s: "unat (ucast sz + k) = unat sz + unat k" using assms u by (simp add: unat_word_ariths)
  show 1: "unat (tso_bytes (of_nat msh) sz k) = min (unat k) (msh - unat sz)"
    using assms u m s by (auto simp: tso_bytes_def word_less_nat_alt unat_sub word_le_nat_alt min_def)
  show "unat (ucast sz + tso_bytes (of_nat msh) sz k :: u32) = unat sz + min (unat k) (msh - unat sz)"
    using assms u 1 by (simp add: unat_word_ariths)
qed

lemma unat_ucast16: "unat w \<le> 0xffff \<Longrightarrow> unat (ucast (w :: u32) :: u16) = unat w"
  by (simp add: unsigned_ucast_eq take_bit_nat_eq_self)

text \<open>The first half of a turn: the bytes are appended to the buffer.\<close>

definition tso_fill :: "u32 \<Rightarrow> u32 \<Rightarrow> u64 \<Rightarrow> u32 \<Rightarrow> nic \<Rightarrow> nic outcome" where
  "tso_fill hdr msh addr k n =
    (let sz0 = ucast (tx_size (tx (dev n))); bytes = tso_bytes msh (tx_size (tx (dev n))) k; sz = sz0 + bytes in
     bindO (dma_append n addr bytes) (\<lambda>n.
     let n = (if sz \<ge> hdr \<and> sz0 < hdr
              then upd_tx (\<lambda>tp. tp\<lparr>header := buf_put (header tp) 0 (buf_get (data tp) 0 (unat hdr))\<rparr>) n else n)
     in Ok (upd_tx (\<lambda>tp. tp\<lparr>tx_size := ucast sz\<rparr>) n)))"

lemma tso_step_fill:
  "tso_step hdr msh addr k n = bindO (tso_fill hdr msh addr k n) (\<lambda>m.
     Ok (if ucast (tx_size (tx (dev n))) + tso_bytes msh (tx_size (tx (dev n))) k = msh
         then upd_tx (\<lambda>tp. tp\<lparr>data := buf_put (data tp) 0 (buf_get (header tp) 0 (unat hdr)), tx_size := ucast hdr\<rparr>)
                (xmit_seg m)
         else m))"
  by (cases "dma_append n addr (tso_bytes msh (tx_size (tx (dev n))) k)")
    (simp_all add: tso_step_def tso_fill_def Let_def)

lemma tso_fill_pending:
  assumes "unat (tx_size (tx (dev n))) < msh" and "msh \<le> 0xffff" and "unat k \<le> 0xffff"
    and b: "b = min (unat k) (msh - unat (tx_size (tx (dev n))))"
  shows "\<exists>m. tso_fill hdr (of_nat msh) addr k n = Ok m \<and> pending m = pending n @ mem_read (ram n) addr b \<and>
    tx_same n m \<and> ram m = ram n \<and> sent m = sent n"
proof -
  let ?sz = "tx_size (tx (dev n))" and ?w = "tso_bytes (of_nat msh) (tx_size (tx (dev n))) k"
  note nb = tso_bytes_nat [OF assms(1-3)]
  have bw: "unat ?w = b" "unat ?sz + unat ?w \<le> 0xffff" using nb(1) b assms(1,2) by simp_all
  obtain d where d: "dma_append n addr ?w = Ok (upd_tx (\<lambda>tp. tp\<lparr>data := d\<rparr>) n)"
    "buf_get d 0 (unat ?sz + b) = pending n @ mem_read (ram n) addr b"
    using dma_append_pending [OF bw(2), of addr] unfolding bw(1) by blast
  let ?m1 = "upd_tx (\<lambda>tp. tp\<lparr>data := d\<rparr>) n"
  let ?m2 = "if ucast ?sz + ?w \<ge> hdr \<and> ucast ?sz < hdr
    then upd_tx (\<lambda>tp. tp\<lparr>header := buf_put (header tp) 0 (buf_get (data tp) 0 (unat hdr))\<rparr>) ?m1 else ?m1"
  let ?m = "upd_tx (\<lambda>tp. tp\<lparr>tx_size := ucast (ucast ?sz + ?w)\<rparr>) ?m2"
  have "tso_fill hdr (of_nat msh) addr k n = Ok ?m" by (simp add: tso_fill_def Let_def d(1))
  moreover have "unat (ucast (ucast ?sz + ?w) :: u16) = unat ?sz + b"
    using nb(2) assms(1,2) b by (subst unat_ucast16) auto
  then have "pending ?m = pending n @ mem_read (ram n) addr b"
    by (simp add: pending_def [of ?m] d(2))
  moreover have "tx_same n ?m" by (simp add: tx_same_def)
  moreover have "ram ?m = ram n" "sent ?m = sent n" by simp_all
  ultimately show ?thesis by blast
qed

lemma tso_step_inv:
  assumes inv: "tso_inv base seen n" and "unat k \<le> 0xffff"
    and b: "b = min (unat k) (tso_max n - unat (tx_size (tx (dev n))))"
  shows "\<exists>n'. tso_step (of_nat (tso_hdr n)) (of_nat (tso_max n)) addr k n = Ok n' \<and>
    tso_inv base (seen @ mem_read (ram n) addr b) n' \<and> tx_same n n' \<and> ram n' = ram n"
proof -
  let ?sz = "tx_size (tx (dev n))" and ?h = "tso_hdr n" and ?M = "tso_max n" and ?bs = "mem_read (ram n) addr b"
  have c: "tso_ctx n" "cptse (tx (dev n))" "unat ?sz < ?M" "?M \<le> 0xffff" "?h < ?M" "?h \<le> 255"
    using inv unsigned_less [where 'a = nat, of "hdr_len (tx (dev n))"]
    by (auto simp: tso_inv_def tso_ctx_def Let_def tso_max_def tso_hdr_def unat_gt_0 word_greater_zero_iff)
  obtain m where m: "tso_fill (of_nat ?h) (of_nat ?M) addr k n = Ok m" "pending m = pending n @ ?bs" "tx_same n m"
      "ram m = ram n" "sent m = sent n"
    using tso_fill_pending [OF c(3,4) assms(2) b] by blast
  note sm = tso_ctx_same [OF m(3)]
  have lm: "length (pending m) = unat ?sz + b" using m(2) by (simp only: length_append length_pending length_mem_read)
  obtain ps where ps: "sent n = base @ ps" "\<forall>p\<in>set ps. length p = ?M"
      "concat (map (drop ?h) ps) @ drop ?h (pending m) = drop ?h (seen @ ?bs)"
      "length seen < ?h \<Longrightarrow> ps = [] \<and> pending n = seen" "?h \<le> length seen \<Longrightarrow> ?h \<le> length (pending n)"
    using tso_inv_append [OF inv, of ?bs] unfolding m(2) [symmetric] by metis
  have full: "(ucast ?sz + tso_bytes (of_nat ?M) ?sz k = of_nat ?M) \<longleftrightarrow> unat ?sz + b = ?M"
    using tso_bytes_nat(2) [OF c(3,4) assms(2)] b c(4) by (simp add: word_unat_eq_iff unat_of_nat take_bit_nat_eq_self)
  show ?thesis
  proof (cases "unat ?sz + b = ?M")
    case False
    then have "length (pending m) < ?M" using lm b c(3) by simp
    moreover have "if length (seen @ ?bs) < ?h then ps = [] \<and> pending m = seen @ ?bs else ?h \<le> length (pending m)"
      using ps(4,5) m(2) by (cases "length seen < ?h") auto
    ultimately have "tso_inv base (seen @ ?bs) m"
      unfolding tso_inv_def sm(2-4) using sm(1) c(1,2) ps(1-3) m(5) by auto
    then show ?thesis using False m by (simp add: tso_step_fill full)
  next
    case True
    obtain p where p: "sent (xmit_seg m) = sent m @ [p]" "length p = ?M" "drop ?h p = drop ?h (pending m)"
        "tx_same m (xmit_seg m)"
      using xmit_seg_segment [of m] sm c(1,2) lm True by auto
    let ?n' = "upd_tx (\<lambda>tp. tp\<lparr>data := buf_put (data tp) 0 (buf_get (header tp) 0 (unat (of_nat ?h :: u32))),
        tx_size := ucast (of_nat ?h :: u32)\<rparr>) (xmit_seg m)"
    have same: "tx_same n ?n'" using tx_same_trans [OF m(3) p(4)] by (simp add: tx_same_def)
    note sn = tso_ctx_same [OF same]
    have "unat (ucast (of_nat ?h :: u32) :: u16) = ?h"
      using c(6) by (simp add: unat_of_nat unsigned_ucast_eq take_bit_nat_eq_self)
    then have l: "length (pending ?n') = ?h" by simp
    have "ram (xmit_seg m) = ram m" using tx_frame_xmit_seg [of m] by (simp add: tx_frame_def)
    then have ram: "ram ?n' = ram n" using m(4) by simp
    have "\<not> length (seen @ ?bs) < ?h" using ps(4) m(2) lm True c(5) by (cases "length seen < ?h") auto
    moreover have "concat (map (drop ?h) (ps @ [p])) @ drop ?h (pending ?n') = drop ?h (seen @ ?bs)"
      using ps(3) p(3) l by simp
    moreover have "sent ?n' = base @ (ps @ [p])" "\<forall>q\<in>set (ps @ [p]). length q = ?M" using ps(1,2) p(1,2) m(5) by auto
    ultimately have "tso_inv base (seen @ ?bs) ?n'"
      unfolding tso_inv_def sn(2-4) l using sn(1) [OF c(1)] c(2,5)
      by (intro conjI exI [of _ "ps @ [p]"]) (simp_all only: if_False order_refl)
    then show ?thesis using True m(1) same ram by (simp add: tso_step_fill full)
  qed
qed

lemma tso_loop_inv:
  assumes "tso_inv base seen n" and "unat k \<le> 0xffff" and "unat k < fuel"
    and "h = tso_hdr n" and "M = tso_max n"
  shows "\<exists>n'. tso_loop fuel (of_nat h) (of_nat M) addr k n = Ok n' \<and>
    tso_inv base (seen @ mem_read (ram n) addr (unat k)) n' \<and> tx_same n n' \<and> ram n' = ram n"
  using assms
proof (induction fuel arbitrary: seen n k addr)
  case (Suc fuel)
  let ?sz = "tx_size (tx (dev n))" and ?w = "tso_bytes (of_nat M) (tx_size (tx (dev n))) k"
  define b where "b = min (unat k) (tso_max n - unat ?sz)"
  have c: "unat ?sz < M" "M \<le> 0xffff"
    using Suc.prems(1,5) by (auto simp: tso_inv_def tso_ctx_def Let_def)
  have w: "unat ?w = b" using tso_bytes_nat(1) [OF c Suc.prems(2)] Suc.prems(5) by (simp add: b_def)
  obtain m where m: "tso_step (of_nat h) (of_nat M) addr k n = Ok m"
      "tso_inv base (seen @ mem_read (ram n) addr b) m" "tx_same n m" "ram m = ram n"
    using tso_step_inv [OF Suc.prems(1,2) b_def] unfolding Suc.prems(4,5) [symmetric] by blast
  have bk: "b \<le> unat k" by (simp add: b_def)
  then have k: "unat (k - ?w) = unat k - b" using w by (simp add: unat_sub word_le_nat_alt)
  show ?case
  proof (cases "b = unat k")
    case True
    then have "k - ?w = 0" using k by (simp add: word_unat_eq_iff)
    then show ?thesis using m True by (simp add: Let_def)
  next
    case False
    then have ne: "k - ?w \<noteq> 0" "unat (k - ?w) < unat k"
      using k bk c(1) Suc.prems(5) by (auto simp: b_def word_unat_eq_iff)
    have "ucast ?w = (of_nat b :: u64)" using w by (metis unsigned_of_nat word_of_nat_eq_iff of_nat_unat)
    then have split: "mem_read (ram n) addr (unat k) =
        mem_read (ram n) addr b @ mem_read (ram n) (addr + ucast ?w) (unat (k - ?w))"
      using bk mem_read_append [of "ram n" addr b "unat k - b"] by (simp add: k)
    have "\<exists>n'. tso_loop fuel (of_nat h) (of_nat M) (addr + ucast ?w) (k - ?w) m = Ok n' \<and>
      tso_inv base ((seen @ mem_read (ram n) addr b) @ mem_read (ram m) (addr + ucast ?w) (unat (k - ?w))) n' \<and>
      tx_same m n' \<and> ram n' = ram m"
      using Suc.IH [OF m(2), of "k - ?w" "addr + ucast ?w"] ne(2) Suc.prems(2-5) tso_ctx_same(2,3) [OF m(3)] by simp
    then show ?thesis
      using m(1,3,4) ne(1) tx_same_trans unfolding split by (auto simp: Let_def)
  qed
qed simp

text \<open>Descriptors of a segmented packet.\<close>

definition tso_desc :: "bool \<Rightarrow> e1000_tx_desc \<Rightarrow> bool" where
  "tso_desc eop d \<longleftrightarrow> td_lower d AND (E1000_TXD_CMD_DEXT OR E1000_TXD_DTYP_D) = E1000_TXD_CMD_DEXT OR E1000_TXD_DTYP_D \<and>
     td_lower d AND E1000_TXD_CMD_TSE \<noteq> 0 \<and> td_lower d AND E1000_TXD_CMD_VLE = 0 \<and>
     (td_lower d AND E1000_TXD_CMD_EOP \<noteq> 0 \<longleftrightarrow> eop)"

definition tso_start :: "u8 \<Rightarrow> nic \<Rightarrow> nic" where
  "tso_start x n = upd_tx (\<lambda>tp. tp\<lparr>sum_needed := x, cptse := True\<rparr>) n"

lemma tso_start_sel [simp]:
  "pending (tso_start x n) = pending n" "tso_ctx (tso_start x n) = tso_ctx n" "tso_hdr (tso_start x n) = tso_hdr n"
  "tso_max (tso_start x n) = tso_max n" "ram (tso_start x n) = ram n" "sent (tso_start x n) = sent n"
  "cptse (tx (dev (tso_start x n)))"
  by (simp_all add: tso_start_def pending_def tso_ctx_def tso_hdr_def tso_max_def Let_def)

lemma tso_inv_start: "tso_inv base seen n \<Longrightarrow> tso_inv base seen (tso_start x n)"
  unfolding tso_inv_def using tso_start_sel(7) [of x n] by (simp only: tso_start_sel)

lemma tso_inv_first:
  assumes "tso_ctx n" and "tx_size (tx (dev n)) = 0"
  shows "tso_inv (sent n) [] (tso_start x n)"
proof -
  have "pending n = []" using assms(2) by (simp add: pending_def)
  moreover have "0 < tso_hdr n" "tso_hdr n \<le> tso_max n" "0 < tso_max n"
    using assms(1) by (auto simp: tso_ctx_def tso_max_def Let_def)
  ultimately show ?thesis using assms(1) by (simp add: tso_inv_def del: length_pending)
qed

lemma process_tso:
  assumes "tso_desc eop d" and "\<And>x. tso_inv base seen (tso_start x n)" and "0xffff < fuel"
  shows "\<exists>n'. process_tx_desc fuel (encode_tx_desc d) n =
      Ok (if eop then end_of_packet (of_nat (tso_hdr n)) n' else n') \<and>
    tso_inv base (seen @ desc_bytes (ram n) d) n' \<and> ram n' = ram n \<and> tso_hdr n' = tso_hdr n \<and> tso_max n' = tso_max n"
proof -
  let ?x = "ucast (drop_bit 8 (td_upper d)) :: u8" and ?l = "td_lower d AND 0xffff"
  let ?n = "tso_start ?x n"
  have p: "process_tx_desc fuel (encode_tx_desc d) n = data_desc fuel d ?n"
    using assms(1) unfolding tso_desc_def process_tx_desc_def Let_def decode_encode_desc tso_start_def by simp
  have c: "tse (tx (dev ?n))" "cptse (tx (dev ?n))" and v: "vlan_tag d ?n = ?n"
    using assms(1,2) by (simp_all add: tso_inv_def tso_ctx_def Let_def vlan_tag_def is_vlan_txd_def tso_desc_def)
  have "unat (ucast (hdr_len (tx (dev ?n))) :: u32) = tso_hdr n" for x
    using unsigned_less [where 'a = nat, of "hdr_len (tx (dev n))"]
    by (simp add: tso_start_def tso_hdr_def unsigned_ucast_eq take_bit_nat_eq_self)
  then have h: "(ucast (hdr_len (tx (dev ?n))) :: u32) = of_nat (tso_hdr n)" by (metis of_nat_unat ucast_id)
  have M: "of_nat (tso_hdr n) + (ucast (mss (tx (dev ?n))) :: u32) = of_nat (tso_max n)"
    by (simp add: tso_max_def tso_start_def)
  have l: "unat ?l = desc_len d" "unat ?l \<le> 0xffff" using desc_len_bound [of d] by (simp_all add: desc_len_def)
  obtain n' where n': "tso_loop fuel (of_nat (tso_hdr n)) (of_nat (tso_max n)) (td_buffer_addr d) ?l ?n = Ok n'"
      "tso_inv base (seen @ desc_bytes (ram n) d) n'" "tx_same ?n n'" "ram n' = ram n"
    using tso_loop_inv [OF assms(2) l(2), of fuel "tso_hdr n" ?x "tso_max n" "td_buffer_addr d"] assms(3) l
    by (auto simp: desc_bytes_def)
  have "data_desc fuel d ?n = Ok (if eop then end_of_packet (of_nat (tso_hdr n)) n' else n')"
    using assms(1) n'(1) c by (auto simp: data_desc_def Let_def v h M tso_desc_def)
  then show ?thesis using n' tso_ctx_same(2,3) [OF n'(3)] unfolding p by auto
qed

lemma process_tso_list:
  assumes "\<forall>d\<in>set ds. tso_desc False d" and "\<And>x. tso_inv base seen (tso_start x n)" and "0xffff < fuel"
  shows "\<exists>n'. process_all fuel ds n = Ok n' \<and> (\<forall>x. tso_inv base (seen @ concat (map (desc_bytes (ram n)) ds)) (tso_start x n')) \<and>
    ram n' = ram n \<and> tso_hdr n' = tso_hdr n \<and> tso_max n' = tso_max n"
  using assms(1,2)
proof (induction ds arbitrary: seen n)
  case Nil
  then show ?case by simp
next
  case (Cons d ds)
  obtain m where m: "process_tx_desc fuel (encode_tx_desc d) n = Ok m" "tso_inv base (seen @ desc_bytes (ram n) d) m"
      "ram m = ram n" "tso_hdr m = tso_hdr n" "tso_max m = tso_max n"
    using process_tso [of False d base seen n fuel] Cons.prems assms(3) by auto
  then show ?case
    using Cons.IH [of "seen @ desc_bytes (ram n) d" m] Cons.prems(1) tso_inv_start by auto
qed

definition packet_of :: "nic \<Rightarrow> e1000_tx_desc list \<Rightarrow> u8 list" where
  "packet_of n ds = concat (map (desc_bytes (ram n)) ds)"

text \<open>
  C12: TCP segmentation keeps the payload. With an idle transmitter and a segmentation context whose header
  fits the buffer, a packet that is handed over in any number of data descriptors leaves as a sequence of
  segments: each but the last one has the full size of header and maximum segment, the last one is
  smaller, and their payloads (what follows the header) in order are the payload of the packet. A packet
  that is shorter than its header is not sent at all.
\<close>

theorem tso_keeps_payload:
  assumes "tso_ctx n" and "tx_size (tx (dev n)) = 0" and "\<forall>d\<in>set ds. tso_desc False d" and "tso_desc True d"
    and "0xffff < fuel"
  shows "\<exists>n' ps q. process_all fuel (ds @ [d]) n = Ok n' \<and>
    (if length (packet_of n (ds @ [d])) < tso_hdr n then sent n' = sent n
     else sent n' = sent n @ ps @ [q] \<and> (\<forall>p\<in>set ps. length p = tso_max n) \<and> length q < tso_max n \<and>
          concat (map (drop (tso_hdr n)) (ps @ [q])) = drop (tso_hdr n) (packet_of n (ds @ [d])))"
proof -
  define packet where "packet = packet_of n (ds @ [d])"
  obtain m where m: "process_all fuel ds n = Ok m" "ram m = ram n" "tso_hdr m = tso_hdr n" "tso_max m = tso_max n"
      "\<And>x. tso_inv (sent n) ([] @ concat (map (desc_bytes (ram n)) ds)) (tso_start x m)"
    using process_tso_list [OF assms(3) tso_inv_first [OF assms(1,2)] assms(5)] by blast
  obtain k where k: "process_tx_desc fuel (encode_tx_desc d) m = Ok (end_of_packet (of_nat (tso_hdr n)) k)"
      "tso_inv (sent n) packet k" "tso_hdr k = tso_hdr n" "tso_max k = tso_max n"
    using process_tso [OF assms(4) m(5) assms(5)] m(2-4) by (auto simp: packet_def packet_of_def)
  let ?n' = "end_of_packet (of_nat (tso_hdr n)) k"
  have run: "process_all fuel (ds @ [d]) n = Ok ?n'" using m(1) k(1) by (simp add: process_all_snoc)
  obtain ps where ps: "sent k = sent n @ ps" "\<forall>p\<in>set ps. length p = tso_max n" "length (pending k) < tso_max n"
      "concat (map (drop (tso_hdr n)) ps) @ drop (tso_hdr n) (pending k) = drop (tso_hdr n) packet"
      "if length packet < tso_hdr n then ps = [] \<and> pending k = packet else tso_hdr n \<le> length (pending k)"
    using k(2) unfolding tso_inv_def k(3,4) by blast
  have c: "tso_ctx k" "cptse (tx (dev k))" "tse (tx (dev k))"
    using k(2) by (auto simp: tso_inv_def tso_ctx_def Let_def)
  have u: "unat (of_nat (tso_hdr n) :: u32) = tso_hdr n"
    using unsigned_less [where 'a = nat, of "hdr_len (tx (dev n))"]
    by (simp add: tso_hdr_def unsigned_ucast_eq take_bit_nat_eq_self)
  have "unat (ucast (tx_size (tx (dev k))) :: u32) = unat (tx_size (tx (dev k)))"
    using unsigned_less [where 'a = nat, of "tx_size (tx (dev k))"] by (simp add: unsigned_ucast_eq take_bit_nat_eq_self)
  then have short: "ucast (tx_size (tx (dev k))) < (of_nat (tso_hdr n) :: u32) \<longleftrightarrow> length (pending k) < tso_hdr n"
    using u by (simp add: word_less_nat_alt)
  show ?thesis
  proof (cases "length packet < tso_hdr n")
    case True
    then have "sent ?n' = sent n" using ps(1,5) c(2,3) short by (simp add: end_of_packet_def)
    then show ?thesis using run True by (auto simp: packet_def)
  next
    case False
    then have "\<not> length (pending k) < tso_hdr n" using ps(5) by simp
    then have "sent ?n' = sent (xmit_seg k)" using short by (simp add: end_of_packet_def)
    moreover obtain q where "sent (xmit_seg k) = sent k @ [q]" "length q = length (pending k)"
        "drop (tso_hdr n) q = drop (tso_hdr n) (pending k)"
      using xmit_seg_segment [OF c(1,2)] k(3) by auto
    ultimately show ?thesis
      using run False ps(1-4) by (intro exI [of _ ?n'] exI [of _ ps] exI [of _ q]) (simp add: packet_def del: length_pending)
  qed
qed

section \<open>Inputs on which transmission fails\<close>

text \<open>With a maximum segment size of 0 the segmentation loop sends empty segments for ever.\<close>

lemma tso_loop_mss_0:
  assumes "unat (tx_size (tx (dev n))) = h" and "h \<le> 255" and "k \<noteq> 0" and "unat k \<le> 0xffff"
  shows "tso_loop fuel (of_nat h) (of_nat h) addr k n = Fault No_Return"
  using assms(1)
proof (induction fuel arbitrary: n addr)
  case (Suc fuel)
  let ?sz = "tx_size (tx (dev n))"
  have u: "unat (of_nat h :: u32) = h" using assms(2) by (simp add: unat_of_nat take_bit_nat_eq_self)
  have s: "ucast ?sz = (of_nat h :: u32)"
    using Suc.prems u unsigned_less [where 'a = nat, of ?sz]
    by (simp add: word_unat_eq_iff unsigned_ucast_eq take_bit_nat_eq_self)
  have "unat (of_nat h + k) = h + unat k" using u assms(2,4) by (simp add: unat_word_ariths)
  moreover have "0 < unat k" using assms(3) by (simp add: unat_gt_0)
  ultimately have b: "tso_bytes (of_nat h) ?sz k = 0" by (simp add: tso_bytes_def s word_less_nat_alt u)
  have "\<exists>m. tso_step (of_nat h) (of_nat h) addr k n = Ok m \<and> tx_size (tx (dev m)) = ucast (of_nat h :: u32)"
    by (simp add: tso_step_def b s dma_append_def Let_def)
  then obtain m where m: "tso_step (of_nat h) (of_nat h) addr k n = Ok m" "unat (tx_size (tx (dev m))) = h"
    using u assms(2) by (auto simp: unsigned_ucast_eq take_bit_nat_eq_self)
  then show ?case using Suc.IH [OF m(2)] assms(3) by (simp add: b)
qed simp

text \<open>
  A device with an enabled transmitter and a ring of eight slots at address 0, with memory full of
  zeros: its descriptors are empty and end no packet.
\<close>

definition nic0 :: "u32 \<Rightarrow> u32 \<Rightarrow> nic" where
  "nic0 tdh tdt = \<lparr>dev = dev0\<lparr>mac_reg := (\<lambda>_. 0)(TCTL := E1000_TCTL_EN, TDLEN := 0x80, TDH := tdh, TDT := tdt),
     rxbuf_min_shift := 1\<rparr>, ram = (\<lambda>_. 0), sent = []\<rparr>"

definition blank :: "nic \<Rightarrow> bool" where
  "blank n \<longleftrightarrow> ram n = (\<lambda>_. 0) \<and> mac_reg (dev n) CTRL = 0 \<and> \<not> tse (tx (dev n))"

lemma le_word_zeros: "le_word (replicate k 0) = 0"
  by (induction k) simp_all

lemma xmit_one_blank:
  assumes "blank n"
  shows "\<exists>n'. xmit_one fuel n = Ok (0, n') \<and> blank n' \<and>
    mac_reg (dev n') = (mac_reg (dev n))(TDH := ring_next (mac_reg (dev n) TDLEN) (mac_reg (dev n) TDH))"
proof -
  have z: "mem_read (\<lambda>_. 0) a k = replicate k 0" for a k
    by (simp add: mem_read_def map_replicate_const)
  have d: "decode_tx_desc (replicate 16 0) = \<lparr>td_buffer_addr = 0, td_lower = 0, td_upper = 0\<rparr>"
    by (simp add: decode_tx_desc_def le_word_zeros)
  have "process_tx_desc fuel (replicate 16 0) n = Ok (upd_tx (\<lambda>tp. tp\<lparr>cptse := False\<rparr>) n)"
    using assms by (simp add: process_tx_desc_def d data_desc_def vlan_tag_def vlan_enabled_def blank_def dma_append_def
        Let_def upd_tx_def)
  then show ?thesis
    using assms by (auto simp: xmit_one_def z d txdesc_writeback_def Let_def blank_def put_reg_def upd_tx_def)
qed

text \<open>With head and tail both outside the ring the walk never comes back to either of them.\<close>

lemma xmit_loop_endless:
  assumes "blank n" and "mac_reg (dev n) TDLEN = 0x80" and "mac_reg (dev n) TDT = 200"
    and "unat (mac_reg (dev n) TDH) \<le> 100"
  shows "xmit_loop fuel sfuel 100 c n = Fault No_Return"
  using assms
proof (induction fuel arbitrary: c n)
  case (Suc fuel)
  let ?i = "mac_reg (dev n) TDH"
  obtain n' where n': "xmit_one sfuel n = Ok (0, n')" "blank n'"
    "mac_reg (dev n') = (mac_reg (dev n))(TDH := ring_next 0x80 ?i)"
    using xmit_one_blank [OF Suc.prems(1), of sfuel] Suc.prems(2) by auto
  have "unat (?i + 1) = unat ?i + 1" using Suc.prems(4) by (simp add: unat_word_ariths)
  then have r: "unat (ring_next 0x80 ?i) \<le> 7" by (simp add: ring_next_def)
  then have "ring_next 0x80 ?i \<noteq> 100" "?i \<noteq> 200" using Suc.prems(4) by auto
  then show ?case using Suc.IH [OF n'(2)] n' r Suc.prems(2,3) by simp
qed simp

lemma start_xmit_endless: "start_xmit fuel (nic0 100 200) = Fault No_Return"
proof -
  have "blank (nic0 100 200)" by (simp add: blank_def nic0_def dev0_def tx0_def)
  then show ?thesis
    using xmit_loop_endless [of "nic0 100 200" fuel fuel E1000_ICS_TXQE]
    by (simp add: start_xmit_def nic0_def)
qed

text \<open>Descriptors that do not end a packet accumulate past the end of the transmit buffer.\<close>

lemma legacy_overflow:
  "process_all fuel [\<lparr>td_buffer_addr = 0, td_lower = 0xffff, td_upper = 0\<rparr>,
     \<lparr>td_buffer_addr = 0, td_lower = 0xffff, td_upper = 0\<rparr>] (nic0 0 0) = Fault Buffer_Overflow"
  by (simp add: process_tx_desc_def data_desc_def vlan_tag_def vlan_enabled_def is_vlan_txd_def dma_append_def
      nic0_def dev0_def tx0_def Let_def upd_tx_def)

section \<open>Applications at concrete inputs\<close>

theorem putsum_verifies_witness:
  "net_checksum_finish (checksum_loop 0 (buf_get (putsum (\<lambda>i. of_nat i) 8 2 0 0) 0 8) 0 + 0x0203) = 0"
proof -
  have "csum_end 8 0 = 8" "be_word [2, 3] = (0x0203 :: u16)" by code_simp+
  then show ?thesis
    using putsum_verifies [of 0 2 8 0 "\<lambda>i. of_nat i"] by simp
qed

lemma slot_nic0: "td_lower (decode_tx_desc (slot (nic0 a b) i)) = 0"
  by (simp add: slot_def nic0_def mem_read_def map_replicate_const decode_tx_desc_def le_word_zeros)


definition desc3 :: e1000_tx_desc where "desc3 = \<lparr>td_buffer_addr = 0x1000, td_lower = 3, td_upper = 0\<rparr>"

definition desc2_eop :: e1000_tx_desc where "desc2_eop = \<lparr>td_buffer_addr = 0x2000, td_lower = 0x1000002, td_upper = 0\<rparr>"

theorem legacy_packet_sent_witness:
  "\<exists>n'. process_all 1 [desc3, desc2_eop] (nic0 0 0) = Ok n' \<and> sent n' = [[0, 0, 0, 0, 0]]"
proof -
  have "legacy False desc3" "legacy True desc2_eop" "desc_len desc3 = 3" "desc_len desc2_eop = 2"
    by (simp_all add: legacy_def desc_len_def desc3_def desc2_eop_def)
  moreover have "no_offload (nic0 0 0)" "tx_size (tx (dev (nic0 0 0))) = 0" "ram (nic0 0 0) = (\<lambda>_. 0)" "sent (nic0 0 0) = []"
    by (simp_all add: nic0_def no_offload_def dev0_def tx0_def)
  moreover have "mem_read (\<lambda>_. 0) a 3 = [0, 0, 0]" "mem_read (\<lambda>_. 0) a 2 = [0, 0]" for a
    by (simp_all add: mem_read_def upt_rec)
  ultimately show ?thesis
    using legacy_packet_sent [of "[desc3]" desc2_eop "nic0 0 0" 1] by (auto simp: desc_bytes_def)
qed

definition nic_tso :: nic where
  "nic_tso = upd_tx (\<lambda>tp. tp\<lparr>tse := True, hdr_len := 14, mss := 2\<rparr>) (nic0 0 0)"

definition desc_tso :: e1000_tx_desc where
  "desc_tso = \<lparr>td_buffer_addr = 0x1000, td_lower = 0x25100011, td_upper = 0\<rparr>"

theorem tso_keeps_payload_witness:
  "\<exists>n' ps q. process_all 65536 [desc_tso] nic_tso = Ok n' \<and> sent n' = ps @ [q] \<and> (\<forall>p\<in>set ps. length p = 16) \<and>
     concat (map (drop 14) (ps @ [q])) = [0, 0, 0]"
proof -
  have "tso_ctx nic_tso" "tso_hdr nic_tso = 14" "tso_max nic_tso = 16" "tx_size (tx (dev nic_tso)) = 0" "sent nic_tso = []"
    by (simp_all add: nic_tso_def nic0_def dev0_def tx0_def tso_ctx_def tso_hdr_def tso_max_def)
  moreover have "tso_desc True desc_tso" "desc_len desc_tso = 17"
    by (simp_all add: tso_desc_def desc_tso_def desc_len_def)
  moreover have "packet_of nic_tso [desc_tso] = replicate 17 0"
    by (simp add: packet_of_def desc_bytes_def desc_len_def desc_tso_def nic_tso_def nic0_def mem_read_def
        map_replicate_const)
  ultimately show ?thesis
    using tso_keeps_payload [of nic_tso "[]" desc_tso 65536] by (auto simp: numeral_3_eq_3)
qed

end
