(* ===== verification/Connection.thy ===== *)
theory Connection
  imports Framing "HOL-Library.Sublist"
begin

text \<open>
  A connected socket whose other end is a process that answers. \<open>inb\<close> are the bytes that are there to be
  received or will arrive without further sending, \<open>outb\<close> all bytes sent so far, and the other process is
  the function \<open>serve\<close> from the bytes it is given to the bytes it sends. It is monotone: more input never
  takes back an answer. \<^verbatim>\<open>recv\<close> blocks until the answer is there, so that what it returns does not depend
  on how the two processes are scheduled. A socket whose other end only listens has \<open>serve = (\<lambda>_. [])\<close>.
\<close>

locale connection =
  fixes os :: "'w os" and s :: u32 and inb :: "'w \<Rightarrow> u8 list" and outb :: "'w \<Rightarrow> u8 list"
    and serve :: "u8 list \<Rightarrow> u8 list"
  assumes serve_mono: "prefix (serve a) (serve (a @ b))"
    and send: "\<exists>e w'. os_send os s bs w = (int (length bs), e, w') \<and> outb w' = outb w @ bs \<and>
      inb w' = inb w @ drop (length (serve (outb w))) (serve (outb w @ bs))"
    and peek: "inb w \<noteq> [] \<Longrightarrow> \<exists>e w'. os_recv os s n True w =
      (int (length (take n (inb w))), e, take n (inb w), w') \<and> inb w' = inb w \<and> outb w' = outb w"
    and recv: "inb w \<noteq> [] \<Longrightarrow> \<exists>e w'. os_recv os s n False w =
      (int (length (take n (inb w))), e, take n (inb w), w') \<and> inb w' = drop n (inb w) \<and> outb w' = outb w"
begin

lemma serve_append:
  "drop (length (serve a)) (serve (a @ b)) @ drop (length (serve (a @ b))) (serve (a @ b @ c)) =
     drop (length (serve a)) (serve (a @ b @ c))"
proof -
  obtain u where u: "serve (a @ b) = serve a @ u" using serve_mono [of a b] by (auto simp: prefix_def)
  obtain v where v: "serve (a @ b @ c) = serve (a @ b) @ v" using serve_mono [of "a @ b" c] by (auto simp: prefix_def)
  show ?thesis by (simp add: u v)
qed

lemma senddata_sent:
  assumes xs: "sendable xs"
  obtains h' where "senddata os pad s xs (of_nat (length xs)) h = Ok (int (length xs), h')"
    and "outb (world h') = outb (world h) @ frame pad xs"
    and "inb (world h') = inb (world h) @ drop (length (serve (outb (world h)))) (serve (outb (world h) @ frame pad xs))"
    and "heap h' = heap h" and "fds h' = fds h" and "OPT h' = OPT h"
proof -
  let ?m = "msg_header pad (of_nat (length xs)) (xor_words xs)"
  obtain e1 w1 where 1: "os_send os s ?m (world h) = (8, e1, w1)" "outb w1 = outb (world h) @ ?m"
      "inb w1 = inb (world h) @ drop (length (serve (outb (world h)))) (serve (outb (world h) @ ?m))"
    using send [of ?m "world h"] by auto
  obtain e2 w2 where 2: "os_send os s xs w1 = (int (length xs), e2, w2)" "outb w2 = outb w1 @ xs"
      "inb w2 = inb w1 @ drop (length (serve (outb w1))) (serve (outb w1 @ xs))"
    using send [of xs w1] by auto
  have "senddata os pad s xs (of_nat (length xs)) h = Ok (int (length xs), h\<lparr>world := w2\<rparr>)"
    by (rule senddata_runs [OF xs 1(1) 2(1)])
  then show ?thesis
    by (rule that) (simp_all add: 1(2,3) 2(2,3) frame_def serve_append)
qed

lemma recvdata_received:
  assumes xs: "sendable xs" and i: "inb (world h) = frame pad xs @ rest" and cap: "length xs \<le> unat len"
  obtains h' where "recvdata os s len h = Ok ((0, xs, of_nat (length xs)), h')"
    and "inb (world h') = rest" and "outb (world h') = outb (world h)"
    and "heap h' = heap h" and "fds h' = fds h" and "OPT h' = OPT h"
proof -
  let ?m = "msg_header pad (of_nat (length xs)) (xor_words xs)"
  have ne: "?m \<noteq> []" by (rule msg_header_not_Nil)
  have i': "inb (world h) = ?m @ xs @ rest" using i by (simp add: frame_def)
  obtain e1 w1 where 1: "os_recv os s 8 True (world h) = (8, e1, ?m, w1)" "inb w1 = ?m @ xs @ rest" "outb w1 = outb (world h)"
    using peek [of "world h" 8] i' ne by auto
  obtain e2 w2 where 2: "os_recv os s 8 False w1 = (8, e2, ?m, w2)" "inb w2 = xs @ rest" "outb w2 = outb w1"
    using recv [of w1 8] 1(2) ne by auto
  obtain e3 w3 where 3: "os_recv os s (length xs) False w2 = (int (length xs), e3, xs, w3)" "inb w3 = rest" "outb w3 = outb w2"
    using recv [of w2 "length xs"] 2(2) xs by (auto simp: sendable_def)
  have "recvdata os s len h = Ok ((0, xs, of_nat (length xs)), h\<lparr>world := w3\<rparr>)"
    by (rule recvdata_runs [OF xs cap 1(1) 2(1) 3(1)])
  then show ?thesis by (rule that) (simp_all add: 1 2 3)
qed

end

end
