(* ===== verification/AdminQ.thy ===== *)
theory AdminQ
  imports Connection Discovery E1000_Tx
begin

text \<open>
  The admin queue of the device (\<^verbatim>\<open>e1000_aq_get_version\<close> to \<^verbatim>\<open>e1000_set_atq_tail\<close> of \<^verbatim>\<open>hw/e1000.c\<close>). A write
  to the tail register takes the descriptor at the head of the ring, hands it and its indirect buffer
  to the firmware process over the message layer, and waits for the answer. When the firmware cannot be
  reached or the exchange fails, the device closes the connection and processes the command itself.
  Either way the descriptor is written back and the head moves on.

  The operations run in the host monad, since they open, use and close the socket \<^verbatim>\<open>fs\<close>. \<open>fuel\<close> is for
  the waiting loop of \<^verbatim>\<open>locate\<close>, and \<open>pad\<close> gives the unassigned padding of the two message headers.
  \<^verbatim>\<open>qemu_malloc\<close> never returns a null pointer. The buffer for the answer is allocated with the length of
  the request, at least one byte; storing more than that is the fault \<open>Buffer_Overflow\<close>.
\<close>

section \<open>Commands the device processes itself\<close>

definition e1000_aq_get_version :: "e1000_aq_desc \<Rightarrow> e1000_aq_desc" where
  "e1000_aq_get_version desc = desc\<lparr>aq_param0 := 0x34 OR push_bit 16 0x13, aq_param1 := 0xfa OR push_bit 16 0xaf\<rparr>"

definition aq_addr :: "e1000_aq_desc \<Rightarrow> u64" where
  "aq_addr desc = push_bit 32 (ucast (aq_addr_high desc)) OR ucast (aq_addr_low desc)"

definition e1000_aq_echo :: "e1000_aq_desc \<Rightarrow> nic \<Rightarrow> nic" where
  "e1000_aq_echo desc n =
     (if aq_datalen desc \<noteq> 0
      then let in_buf = aq_addr desc;
               my_buf = mem_read (ram n) in_buf (unat (aq_datalen desc))
           in n\<lparr>ram := mem_write (ram n) in_buf my_buf\<rparr>
      else n)"

section \<open>Commands the firmware processes\<close>

definition set_fs :: "nic \<Rightarrow> i32 \<Rightarrow> nic" where
  "set_fs n s = n\<lparr>dev := (dev n)\<lparr>fs := word_of_int s\<rparr>\<rparr>"

abbreviation NO_FS :: u32 where "NO_FS \<equiv> word_of_int INVALID_SOCKET"

definition aq_err :: "'w os \<Rightarrow> nic \<Rightarrow> e1000_aq_desc \<Rightarrow> ('w, i32 \<times> nic \<times> e1000_aq_desc) M" where
  "aq_err os n desc = bindM (close_fd os (fs (dev n))) (\<lambda>_. returnM (- 1, set_fs n INVALID_SOCKET, desc))"

text \<open>The socket to use: the one of an earlier command, or a new connection.\<close>

definition aq_connect :: "'w os \<Rightarrow> nat \<Rightarrow> nic \<Rightarrow> ('w, nic) M" where
  "aq_connect os fuel n =
     (if fs (dev n) = NO_FS then bindM (locate os fuel None) (\<lambda>s. returnM (set_fs n s)) else returnM n)"

definition aq_send :: "'w os \<Rightarrow> (nat \<Rightarrow> u16) \<Rightarrow> nic \<Rightarrow> e1000_aq_desc \<Rightarrow> ('w, i32) M" where
  "aq_send os pad n desc =
     bindM (senddata os (pad 0) (fs (dev n)) (encode_aq_desc desc) (of_nat aq_desc_size)) (\<lambda>rc.
     if rc < 0 then returnM rc
     else if aq_datalen desc > 0
     then senddata os (pad 1) (fs (dev n)) (mem_read (ram n) (aq_addr desc) (unat (aq_datalen desc))) (aq_datalen desc)
     else returnM rc)"

text \<open>The buffer that comes with the answer, of \<open>cap\<close> bytes, and its copy to guest memory.\<close>

definition aq_recv_buffer :: "'w os \<Rightarrow> nat \<Rightarrow> nic \<Rightarrow> e1000_aq_desc \<Rightarrow> ('w, i32 \<times> nic) M" where
  "aq_recv_buffer os cap n recv_desc =
     bindM (recvdata os (fs (dev n)) (aq_datalen recv_desc)) (\<lambda>(rc, xs, recv_size).
     if cap < length xs then faultM Buffer_Overflow
     else if rc < 0 then returnM (rc, n)
     else if cap < unat (aq_datalen recv_desc) then faultM Out_Of_Bounds
     else if length xs < unat (aq_datalen recv_desc) then faultM Uninitialised_Read
     else returnM (rc, n\<lparr>ram := mem_write (ram n) (aq_addr recv_desc) (take (unat (aq_datalen recv_desc)) xs)\<rparr>))"

definition aq_recv :: "'w os \<Rightarrow> nic \<Rightarrow> e1000_aq_desc \<Rightarrow> ('w, i32 \<times> nic \<times> e1000_aq_desc) M" where
  "aq_recv os n desc =
     bindM (recvdata os (fs (dev n)) (of_nat aq_desc_size)) (\<lambda>(rc, bs, recv_size).
     if rc < 0 then returnM (rc, n, desc)
     else
       let recv_desc = decode_aq_desc (bs @ drop (length bs) (replicate aq_desc_size 0)) in
       if aq_datalen recv_desc > 0
       then bindM (aq_recv_buffer os (max 1 (unat (aq_datalen desc))) n recv_desc) (\<lambda>(rc, n).
            returnM (rc, n, recv_desc))
       else returnM (rc, n, recv_desc))"

definition e1000_send_aq_cmd ::
  "'w os \<Rightarrow> nat \<Rightarrow> (nat \<Rightarrow> u16) \<Rightarrow> nic \<Rightarrow> e1000_aq_desc \<Rightarrow> ('w, i32 \<times> nic \<times> e1000_aq_desc) M" where
  "e1000_send_aq_cmd os fuel pad n desc =
     bindM (aq_connect os fuel n) (\<lambda>n.
     if fs (dev n) = NO_FS then aq_err os n desc
     else
       bindM (aq_send os pad n desc) (\<lambda>rc.
       if rc < 0 then aq_err os n desc
       else
         bindM (aq_recv os n desc) (\<lambda>(rc, n', desc').
         if rc < 0 then aq_err os n desc else returnM (0, n', desc'))))"

section \<open>The tail register\<close>

definition aq_base :: "E1000State \<Rightarrow> u64" where
  "aq_base s = push_bit 32 (ucast (mac_reg s PF_ATQBAH)) + ucast (mac_reg s PF_ATQBAL) +
     of_nat aq_desc_size * ucast (mac_reg s PF_ATQH)"

definition aq_local :: "nic \<Rightarrow> e1000_aq_desc \<Rightarrow> nic \<times> e1000_aq_desc" where
  "aq_local n desc =
     (let (n, desc) =
        (if aq_opcode desc = e1000_aqc_get_version then (n, e1000_aq_get_version desc)
         else if aq_opcode desc = e1000_aqc_echo then (e1000_aq_echo desc n, desc)
         else (n, desc\<lparr>aq_retval := E1000_AQ_RC_ENOSYS\<rparr>))
      in (n, desc\<lparr>aq_flags := aq_flags desc OR E1000_AQ_FLAG_DD\<rparr>))"

definition aq_advance :: "E1000State \<Rightarrow> E1000State" where
  "aq_advance s =
     (let ring_len = ucast (mac_reg s PF_ATQLEN AND NOT E1000_PF_ATQLEN_ATQENABLE_MASK) :: u16;
          head = mac_reg s PF_ATQH + 1
      in put_reg PF_ATQH (if head \<ge> ucast ring_len then 0 else head) s)"

definition e1000_set_atq_tail :: "'w os \<Rightarrow> nat \<Rightarrow> (nat \<Rightarrow> u16) \<Rightarrow> nic \<Rightarrow> nat \<Rightarrow> u32 \<Rightarrow> ('w, nic) M" where
  "e1000_set_atq_tail os fuel pad n index val =
     (let n = n\<lparr>dev := put_reg index val (dev n)\<rparr>;
          base = aq_base (dev n);
          desc = decode_aq_desc (mem_read (ram n) base aq_desc_size)
      in bindM (e1000_send_aq_cmd os fuel pad n desc) (\<lambda>(rc, n, desc).
         let (n, desc) = (if rc < 0 then aq_local n desc else (n, desc));
             n = n\<lparr>ram := mem_write (ram n) base (encode_aq_desc desc)\<rparr>
         in returnM (n\<lparr>dev := aq_advance (dev n)\<rparr>)))"

section \<open>The command handled by the device\<close>

lemma encode_decode_aq [simp]: "length bs = 32 \<Longrightarrow> encode_aq_desc (decode_aq_desc bs) = bs"
  using take_drop_append [of 2 2 bs] take_drop_append [of 2 4 bs] take_drop_append [of 2 6 bs] take_drop_append [of 4 8 bs]
    take_drop_append [of 4 12 bs] take_drop_append [of 4 16 bs] take_drop_append [of 4 20 bs] take_drop_append [of 4 24 bs]
    append_take_drop_id [of 2 bs]
  by (simp add: decode_aq_desc_def encode_aq_desc_def)

lemma e1000_aq_echo_id [simp]: "e1000_aq_echo desc n = n"
  by (simp add: e1000_aq_echo_def Let_def)

text \<open>The descriptor at the head of the ring, and the device's own answer to it.\<close>

definition aq_head :: "nic \<Rightarrow> e1000_aq_desc" where
  "aq_head n = decode_aq_desc (mem_read (ram n) (aq_base (dev n)) aq_desc_size)"

definition aq_answer :: "e1000_aq_desc \<Rightarrow> e1000_aq_desc" where
  "aq_answer d =
     (if aq_opcode d = 1 then d\<lparr>aq_param0 := 0x130034, aq_param1 := 0xaf00fa\<rparr>
      else if aq_opcode d = 3 then d else d\<lparr>aq_retval := 1\<rparr>)\<lparr>aq_flags := aq_flags d OR 1\<rparr>"

lemma aq_local_eq: "aq_local n d = (n, aq_answer d)"
  by (simp add: aq_local_def aq_answer_def e1000_aq_get_version_def Let_def)

lemma aq_base_tail [simp]: "aq_base (put_reg PF_ATQT v s) = aq_base s"
  by (simp add: aq_base_def)

lemma fs_set_fs [simp]: "fs (dev (set_fs n s)) = word_of_int s" "ram (set_fs n s) = ram n"
  by (simp_all add: set_fs_def)

lemma set_fs_set_fs [simp]: "set_fs (set_fs n s) t = set_fs n t"
  by (simp add: set_fs_def)

lemma aq_connect_fs:
  "aq_connect os fuel n h = Ok (n', h') \<Longrightarrow> n' = n \<or> (\<exists>s. n' = set_fs n s)"
  by (auto simp: aq_connect_def bindM_eq_Ok_conv returnM_def split: if_splits)

lemma aq_err_result: "aq_err os n d h = Ok (r, h') \<Longrightarrow> r = (- 1, set_fs n INVALID_SOCKET, d)"
  by (auto simp: aq_err_def bindM_eq_Ok_conv returnM_def)

lemma send_aq_cmd_fails:
  assumes "e1000_send_aq_cmd os fuel pad n d h = Ok ((rc, n', d'), h')" and "rc < 0"
  shows "rc = - 1 \<and> n' = set_fs n INVALID_SOCKET \<and> d' = d"
  using assms
  by (auto simp: e1000_send_aq_cmd_def bindM_eq_Ok_conv returnM_def split: if_splits prod.splits
      dest!: aq_connect_fs aq_err_result)

text \<open>
  C6: When the exchange with the firmware fails at whatever stage, the command is still completed: the
  descriptor at the head of the ring is written back with the done flag, the version for
  \<^verbatim>\<open>get_version\<close>, the code for a missing function for an unknown opcode and otherwise unchanged, no other
  byte of guest memory changes, the socket is given up and the head moves to the next slot.
\<close>

theorem atq_tail_fallback:
  assumes "e1000_send_aq_cmd os fuel pad (n\<lparr>dev := put_reg PF_ATQT v (dev n)\<rparr>) (aq_head n) h = Ok ((rc, n2, d2), h')"
    and "rc < 0"
  shows "e1000_set_atq_tail os fuel pad n PF_ATQT v h =
    Ok (n\<lparr>dev := aq_advance ((put_reg PF_ATQT v (dev n))\<lparr>fs := NO_FS\<rparr>),
          ram := mem_write (ram n) (aq_base (dev n)) (encode_aq_desc (aq_answer (aq_head n)))\<rparr>, h')"
proof -
  have r: "rc = - 1" "n2 = set_fs (n\<lparr>dev := put_reg PF_ATQT v (dev n)\<rparr>) INVALID_SOCKET" "d2 = aq_head n"
    using send_aq_cmd_fails [OF assms] by auto
  show ?thesis
    using assms(1) unfolding r unfolding aq_head_def
    by (simp add: e1000_set_atq_tail_def Let_def bindM_def bindO_def aq_local_eq returnM_def set_fs_def)
qed

section \<open>The command handled by the firmware\<close>

text \<open>
  A command on the wire in either direction: the descriptor as one message, and when it says that there
  is data, the data as a second message of that length.
\<close>

definition aq_wire :: "(nat \<Rightarrow> u16) \<Rightarrow> e1000_aq_desc \<Rightarrow> u8 list \<Rightarrow> u8 list" where
  "aq_wire pad d buf = frame (pad 0) (encode_aq_desc d) @ (if aq_datalen d = 0 then [] else frame (pad 1) buf)"

definition aq_data :: "nic \<Rightarrow> e1000_aq_desc \<Rightarrow> u8 list" where
  "aq_data n d = mem_read (ram n) (aq_addr d) (unat (aq_datalen d))"

definition aq_store :: "e1000_aq_desc \<Rightarrow> u8 list \<Rightarrow> gmem \<Rightarrow> gmem" where
  "aq_store d buf m = (if aq_datalen d = 0 then m else mem_write m (aq_addr d) buf)"

lemma sendable_desc [simp]: "sendable (encode_aq_desc d)"
  using length_encode(3) [of d] by (auto simp: sendable_def simp del: length_encode)

lemma sendable_data:
  assumes "length buf = unat (l :: u16)" and "l \<noteq> 0"
  shows "sendable buf" and "of_nat (length buf) = l"
proof -
  have "unat l < 2 ^ 16" using unsigned_less [where 'a = nat, of l] by simp
  moreover have "unat l \<noteq> 0" using assms(2) by (simp add: unat_eq_0)
  ultimately show "sendable buf" using assms(1) by (auto simp: sendable_def)
  show "of_nat (length buf) = l" using assms(1) by simp
qed

context connection
begin

lemma aq_send_request:
  assumes "fs (dev n) = s"
  obtains h' rc where "aq_send os pad n d h = Ok (rc, h')" and "0 \<le> rc"
    and "outb (world h') = outb (world h) @ aq_wire pad d (aq_data n d)"
    and "inb (world h') = inb (world h) @
      drop (length (serve (outb (world h)))) (serve (outb (world h) @ aq_wire pad d (aq_data n d)))"
proof -
  obtain h1 where 1: "senddata os (pad 0) s (encode_aq_desc d) 32 h = Ok (32, h1)"
      "outb (world h1) = outb (world h) @ frame (pad 0) (encode_aq_desc d)"
      "inb (world h1) = inb (world h) @ drop (length (serve (outb (world h)))) (serve (outb (world h) @ frame (pad 0) (encode_aq_desc d)))"
    using senddata_sent [OF sendable_desc [of d], of "pad 0" h] by auto
  show ?thesis
  proof (cases "aq_datalen d = 0")
    case True
    then show ?thesis
      using 1 assms that [of 32 h1] by (simp add: aq_send_def aq_wire_def bindM_def bindO_def returnM_def)
  next
    case False
    have b: "sendable (aq_data n d)" "of_nat (length (aq_data n d)) = aq_datalen d"
      using sendable_data [of "aq_data n d" "aq_datalen d"] False by (simp_all add: aq_data_def)
    obtain h2 where 2: "senddata os (pad 1) s (aq_data n d) (aq_datalen d) h1 = Ok (int (length (aq_data n d)), h2)"
      "outb (world h2) = outb (world h1) @ frame (pad 1) (aq_data n d)"
      "inb (world h2) = inb (world h1) @ drop (length (serve (outb (world h1)))) (serve (outb (world h1) @ frame (pad 1) (aq_data n d)))"
      using senddata_sent [OF b(1), of "pad 1" h1] b(2) by metis
    have "aq_send os pad n d h = Ok (int (length (aq_data n d)), h2)"
      using 1(1) 2(1) False assms unfolding aq_data_def
      by (simp add: aq_send_def bindM_def bindO_def word_gt_0)
    then show ?thesis
      using that [of "int (length (aq_data n d))" h2] 1(2,3) 2(2,3) False
      by (simp add: aq_wire_def serve_append)
  qed
qed

lemma aq_recv_reply:
  assumes "fs (dev n) = s" and i: "inb (world h) = aq_wire rpad r buf @ rest"
    and b: "length buf = unat (aq_datalen r)" and cap: "unat (aq_datalen r) \<le> unat (aq_datalen d)"
  obtains h' where "aq_recv os n d h = Ok ((0, n\<lparr>ram := aq_store r buf (ram n)\<rparr>, r), h')"
    and "inb (world h') = rest" and "outb (world h') = outb (world h)"
proof -
  let ?data = "if aq_datalen r = 0 then [] else frame (rpad 1) buf"
  obtain h1 where 1: "recvdata os s 32 h = Ok ((0, encode_aq_desc r, 32), h1)"
      "inb (world h1) = ?data @ rest" "outb (world h1) = outb (world h)"
    using recvdata_received [OF sendable_desc [of r], of h "rpad 0" "?data @ rest" 32] i by (auto simp: aq_wire_def)
  show ?thesis
  proof (cases "aq_datalen r = 0")
    case True
    then show ?thesis
      using 1 assms(1) that [of h1] by (simp add: aq_recv_def aq_store_def bindM_def bindO_def returnM_def)
  next
    case False
    note sb = sendable_data [OF b False]
    obtain h2 where 2: "recvdata os s (aq_datalen r) h1 = Ok ((0, buf, aq_datalen r), h2)"
        "inb (world h2) = rest" "outb (world h2) = outb (world h1)"
      using recvdata_received [OF sb(1), of h1 "rpad 1" rest "aq_datalen r"] 1(2) False b sb(2) by auto
    have "aq_recv_buffer os (max 1 (unat (aq_datalen d))) n r h1 = Ok ((0, n\<lparr>ram := aq_store r buf (ram n)\<rparr>), h2)"
      using 2(1) False b cap assms(1)
      by (simp add: aq_recv_buffer_def aq_store_def bindM_def bindO_def returnM_def not_less max.coboundedI2)
    then have "aq_recv os n d h = Ok ((0, n\<lparr>ram := aq_store r buf (ram n)\<rparr>, r), h2)"
      using 1(1) False assms(1) by (simp add: aq_recv_def bindM_def bindO_def returnM_def word_gt_0)
    then show ?thesis using that [of h2] 1(3) 2(2,3) by simp
  qed
qed

lemma aq_command:
  assumes fs: "fs (dev n) = s" "s \<noteq> NO_FS" and i: "inb (world h) = []"
    and sv: "serve (outb (world h) @ aq_wire pad d (aq_data n d)) = serve (outb (world h)) @ aq_wire rpad r buf"
    and b: "length buf = unat (aq_datalen r)" and cap: "unat (aq_datalen r) \<le> unat (aq_datalen d)"
  shows "\<exists>h'. e1000_send_aq_cmd os fuel pad n d h = Ok ((0, n\<lparr>ram := aq_store r buf (ram n)\<rparr>, r), h') \<and>
    inb (world h') = [] \<and> outb (world h') = outb (world h) @ aq_wire pad d (aq_data n d)"
proof -
  obtain h1 rc where 1: "aq_send os pad n d h = Ok (rc, h1)" "0 \<le> rc"
      "outb (world h1) = outb (world h) @ aq_wire pad d (aq_data n d)" "inb (world h1) = aq_wire rpad r buf"
    by (rule aq_send_request [OF fs(1), of pad d h]) (simp add: i sv)
  obtain h2 where 2: "aq_recv os n d h1 = Ok ((0, n\<lparr>ram := aq_store r buf (ram n)\<rparr>, r), h2)"
      "inb (world h2) = []" "outb (world h2) = outb (world h1)"
    using aq_recv_reply [OF fs(1) _ b cap, of h1 rpad "[]"] 1(4) by auto
  show ?thesis
    using fs 1 2 by (auto simp: e1000_send_aq_cmd_def aq_connect_def bindM_def bindO_def returnM_def)
qed

end

context connection
begin

lemma aq_set_tail:
  assumes "fs (dev n) = s" and "s \<noteq> NO_FS" and "inb (world h) = []"
    and "serve (outb (world h) @ aq_wire pad (aq_head n) (aq_data n (aq_head n))) = serve (outb (world h)) @ aq_wire rpad r buf"
    and "length buf = unat (aq_datalen r)" and "unat (aq_datalen r) \<le> unat (aq_datalen (aq_head n))"
  shows "\<exists>h'. e1000_set_atq_tail os fuel pad n PF_ATQT v h =
      Ok (n\<lparr>dev := aq_advance (put_reg PF_ATQT v (dev n)),
            ram := mem_write (aq_store r buf (ram n)) (aq_base (dev n)) (encode_aq_desc r)\<rparr>, h') \<and>
    inb (world h') = [] \<and> outb (world h') = outb (world h) @ aq_wire pad (aq_head n) (aq_data n (aq_head n))"
proof -
  let ?n = "n\<lparr>dev := put_reg PF_ATQT v (dev n)\<rparr>"
  have "aq_data ?n d = aq_data n d" for d by (simp add: aq_data_def)
  then obtain h' where "e1000_send_aq_cmd os fuel pad ?n (aq_head n) h =
      Ok ((0, ?n\<lparr>ram := aq_store r buf (ram n)\<rparr>, r), h')" "inb (world h') = []"
      "outb (world h') = outb (world h) @ aq_wire pad (aq_head n) (aq_data n (aq_head n))"
    using aq_command [of ?n h pad "aq_head n" rpad r buf fuel] assms by auto
  then show ?thesis
    unfolding aq_head_def
    by (auto simp: e1000_set_atq_tail_def Let_def bindM_def bindO_def returnM_def)
qed

end

section \<open>The head of the ring\<close>

definition aq_ring_len :: "E1000State \<Rightarrow> nat" where
  "aq_ring_len s = unat (ucast (mac_reg s PF_ATQLEN AND NOT E1000_PF_ATQLEN_ATQENABLE_MASK) :: u16)"

lemma aq_advance_sel [simp]:
  "aq_ring_len (aq_advance s) = aq_ring_len s" "fs (aq_advance s) = fs s"
  by (simp_all add: aq_ring_len_def aq_advance_def Let_def)

lemma unat_ucast_16_32: "unat (ucast (w :: u16) :: u32) = unat w"
  using unsigned_less [where 'a = nat, of w] by (simp add: unsigned_ucast_eq take_bit_nat_eq_self)

lemma aq_advance_head:
  assumes "unat (mac_reg s PF_ATQH) < aq_ring_len s"
  shows "unat (mac_reg (aq_advance s) PF_ATQH) = Suc (unat (mac_reg s PF_ATQH)) mod aq_ring_len s"
proof -
  have b: "aq_ring_len s < 65536"
    unfolding aq_ring_len_def using unsigned_less [where 'a = nat, of "ucast _ :: u16"] by simp
  have "unat (mac_reg s PF_ATQH + 1) = Suc (unat (mac_reg s PF_ATQH))"
    using assms b by (simp add: unat_word_ariths)
  moreover have "unat (ucast (ucast (mac_reg s PF_ATQLEN AND NOT E1000_PF_ATQLEN_ATQENABLE_MASK) :: u16) :: u32) = aq_ring_len s"
    unfolding aq_ring_len_def by (rule unat_ucast_16_32)
  ultimately show ?thesis
    using assms by (auto simp: aq_advance_def Let_def word_le_nat_alt not_le mod_Suc)
qed

text \<open>
  C38: The head walks round the ring: starting inside it, after \<open>k\<close> commands it stands \<open>k\<close> slots further,
  modulo the number of slots in the length register, so that it never leaves the ring.
\<close>

theorem aq_head_cycles:
  assumes "unat (mac_reg s PF_ATQH) < aq_ring_len s"
  shows "unat (mac_reg ((aq_advance ^^ k) s) PF_ATQH) = (unat (mac_reg s PF_ATQH) + k) mod aq_ring_len s"
proof (induction k)
  case 0
  then show ?case using assms by simp
next
  case (Suc k)
  have len: "aq_ring_len ((aq_advance ^^ k) s) = aq_ring_len s" by (induction k) simp_all
  moreover have "0 < aq_ring_len s" using assms by simp
  ultimately show ?case
    using aq_advance_head [of "(aq_advance ^^ k) s"] Suc by (simp add: mod_Suc_eq)
qed

theorem aq_head_cycles_witness:
  "unat (mac_reg ((aq_advance ^^ 9) (put_reg PF_ATQH 6 (put_reg PF_ATQLEN 0x80000008 dev0))) PF_ATQH) = 7"
  using aq_head_cycles [of "put_reg PF_ATQH 6 (put_reg PF_ATQLEN 0x80000008 dev0)" 9]
  by (simp add: aq_ring_len_def)

section \<open>Failures\<close>

definition deaf_os :: "lworld os" where
  "deaf_os = loop_os\<lparr>os_send := (\<lambda>_ _ w. (- 1, 32, w))\<rparr>"

definition aq_nic :: "e1000_aq_desc \<Rightarrow> nic" where
  "aq_nic d = \<lparr>dev = put_reg PF_ATQLEN 4 (put_reg PF_ATQH 0 (put_reg PF_ATQBAL 0x1000 (put_reg PF_ATQBAH 0 (dev0\<lparr>fs := 5\<rparr>)))),
     ram = mem_write (\<lambda>_. 0) 0x1000 (encode_aq_desc d), sent = []\<rparr>"

lemma aq_nic_head [simp]: "aq_base (dev (aq_nic d)) = 0x1000" "aq_head (aq_nic d) = d" "fs (dev (aq_nic d)) = 5"
  by (simp_all add: aq_nic_def aq_base_def aq_head_def mem_read_mem_write_same)

theorem atq_tail_fallback_witness:
  "\<exists>h'. e1000_set_atq_tail deaf_os 0 (\<lambda>_. 0) (aq_nic (decode_aq_desc (replicate 32 0))) PF_ATQT 1 loop_host =
    Ok ((aq_nic (decode_aq_desc (replicate 32 0)))
         \<lparr>dev := aq_advance ((put_reg PF_ATQT 1 (dev (aq_nic (decode_aq_desc (replicate 32 0)))))\<lparr>fs := NO_FS\<rparr>),
          ram := mem_write (ram (aq_nic (decode_aq_desc (replicate 32 0)))) 0x1000
            (encode_aq_desc (aq_answer (decode_aq_desc (replicate 32 0))))\<rparr>, h')"
proof -
  define n where "n = aq_nic (decode_aq_desc (replicate 32 0))"
  have n: "aq_base (dev n) = 0x1000" "fs (dev n) = 5" by (simp_all add: n_def)
  have "\<exists>n2 d2 h'. e1000_send_aq_cmd deaf_os 0 (\<lambda>_. 0) (n\<lparr>dev := put_reg PF_ATQT 1 (dev n)\<rparr>) (aq_head n) loop_host = Ok ((- 1, n2, d2), h')"
    by (simp add: e1000_send_aq_cmd_def aq_connect_def aq_send_def aq_err_def senddata_def deaf_os_def chksum_eq monad_defs sys_defs n)
  then obtain n2 d2 h' where "e1000_send_aq_cmd deaf_os 0 (\<lambda>_. 0) (n\<lparr>dev := put_reg PF_ATQT 1 (dev n)\<rparr>) (aq_head n) loop_host = Ok ((- 1, n2, d2), h')"
    by blast
  from atq_tail_fallback [OF this] show ?thesis unfolding n_def [symmetric] by (simp add: n) (simp add: n_def)
qed

text \<open>
  The buffer for the answer has the size of the request, but as many bytes are accepted as the answer
  announces: an answer with more data than the request had is written past the end of the buffer.
\<close>

context connection
begin

lemma aq_reply_overflow:
  assumes "fs (dev n) = s" and i: "inb (world h) = frame p buf @ rest" and b: "length buf = unat (aq_datalen r)"
    and gt: "max 1 (unat (aq_datalen d)) < unat (aq_datalen r)"
  shows "aq_recv_buffer os (max 1 (unat (aq_datalen d))) n r h = Fault Buffer_Overflow"
proof -
  have "aq_datalen r \<noteq> 0" using gt by auto
  note sb = sendable_data [OF b this]
  obtain h1 where "recvdata os s (aq_datalen r) h = Ok ((0, buf, aq_datalen r), h1)"
    using recvdata_received [OF sb(1) i, of "aq_datalen r"] b sb(2) by auto
  then show ?thesis
    using assms(1) b gt by (simp add: aq_recv_buffer_def bindM_def bindO_def faultM_def)
qed

end

text \<open>The admin queue keeps every invariant of the device.\<close>

context device_invariant
begin

lemma inv_set_fs: "I (dev n) \<Longrightarrow> I (dev (set_fs n s))"
  by (simp add: set_fs_def other)

lemma inv_aq_recv: "aq_recv os n d h = Ok ((rc, n', d'), h') \<Longrightarrow> dev n' = dev n"
  by (auto simp: aq_recv_def aq_recv_buffer_def bindM_eq_Ok_conv returnM_def faultM_def Let_def split: if_splits prod.splits)

lemma inv_send_aq_cmd:
  assumes "e1000_send_aq_cmd os fuel pad n d h = Ok ((rc, n', d'), h')" and "I (dev n)"
  shows "I (dev n')"
  using assms
  by (auto simp: e1000_send_aq_cmd_def bindM_eq_Ok_conv returnM_def inv_set_fs split: if_splits prod.splits
      dest!: aq_connect_fs aq_err_result inv_aq_recv)

lemma inv_aq_advance: "I s \<Longrightarrow> I (aq_advance s)"
  by (simp add: aq_advance_def Let_def free free_reg_def)

lemma inv_set_atq_tail:
  assumes "e1000_set_atq_tail os fuel pad n PF_ATQT v h = Ok (n', h')" and "I (dev n)"
  shows "I (dev n')"
proof -
  have "I (put_reg PF_ATQT v (dev n))" using assms(2) by (simp add: free free_reg_def)
  with assms(1) show ?thesis
    by (auto simp: e1000_set_atq_tail_def Let_def bindM_eq_Ok_conv returnM_def aq_local_eq
        split: if_splits prod.splits dest!: inv_send_aq_cmd intro: inv_aq_advance)
qed

end

end
