(* ===== verification/Firmware.thy ===== *)
theory Firmware
  imports AdminQ
begin

text \<open>
  The firmware process \<^verbatim>\<open>vf_tx/vf_tx.c\<close>. It announces itself, and its communication thread \<^verbatim>\<open>t_0_entry\<close>
  receives admin queue commands from the device, processes and answers them.

  The variables \<^verbatim>\<open>desc\<close> and \<^verbatim>\<open>buffer\<close> of the thread are bytes that may be unassigned; they and \<^verbatim>\<open>echobuf\<close>
  keep their values from one round of the loop to the next. The debug output of the whole descriptor
  before it is sent reads all of it. \<open>pad\<close> gives the unassigned padding of the message headers, by round
  and message. ThreadX and \<^verbatim>\<open>WSAStartup\<close> are parameters.
\<close>

section \<open>Commands\<close>

definition patch :: "msg_buf \<Rightarrow> nat \<Rightarrow> u8 list \<Rightarrow> msg_buf" where
  "patch buf off bs = take off buf @ map Some bs @ drop (off + length bs) buf"

definition e1000_aq_get_version_fw :: "msg_buf \<Rightarrow> msg_buf" where
  "e1000_aq_get_version_fw desc =
     patch desc 16 (le_bytes 4 (0x34 OR push_bit 16 0x13 :: u32) @ le_bytes 4 (0xfa OR push_bit 16 0xaf :: u32))"

definition e1000_aq_driver_heartbeat :: "msg_buf \<Rightarrow> msg_buf" where
  "e1000_aq_driver_heartbeat desc = desc"

definition e1000_aq_echo_fw :: "msg_buf \<Rightarrow> msg_buf \<Rightarrow> msg_buf" where
  "e1000_aq_echo_fw desc in_buff = desc"

section \<open>The communication thread\<close>

abbreviation (input) FW_DAT_SIZE :: nat where "FW_DAT_SIZE \<equiv> 4096"
abbreviation (input) FW_STACK_SIZE :: nat where "FW_STACK_SIZE \<equiv> 1024"
abbreviation (input) FW_BYTE_POOL_SIZE :: nat where "FW_BYTE_POOL_SIZE \<equiv> aq_desc_size + 1 * FW_STACK_SIZE + FW_DAT_SIZE"

record fw_thread =
  fw_desc :: msg_buf
  fw_buffer :: msg_buf
  echobuf :: bool

definition fw_thread0 :: fw_thread where
  "fw_thread0 = \<lparr>fw_desc = replicate aq_desc_size None, fw_buffer = replicate FW_DAT_SIZE None, echobuf = False\<rparr>"

text \<open>The data message of a command, and the new \<^verbatim>\<open>dat_length\<close>; a failure is logged only.\<close>

definition fw_recv_data :: "'w os \<Rightarrow> u32 \<Rightarrow> u16 \<Rightarrow> msg_buf \<Rightarrow> ('w, u16 \<times> msg_buf) M" where
  "fw_recv_data os g_sock dat_length buf =
     (if dat_length \<noteq> 0
      then bindM (recvdata os g_sock dat_length) (\<lambda>(rc, xs, dat_length).
           if FW_DAT_SIZE < length xs then faultM Buffer_Overflow
           else returnM (dat_length, overlay xs buf))
      else returnM (dat_length, buf))"

definition fw_process :: "u16 \<Rightarrow> msg_buf \<Rightarrow> msg_buf \<Rightarrow> msg_buf" where
  "fw_process opcode desc buf =
     (if opcode = e1000_aqc_get_version then e1000_aq_get_version_fw desc
      else if opcode = e1000_aqc_driver_heartbeat then e1000_aq_driver_heartbeat desc
      else if opcode = e1000_aqc_echo then e1000_aq_echo_fw desc buf
      else patch desc 6 (le_bytes 2 E1000_AQ_RC_ENOSYS))"

text \<open>The answer; the result says whether the loop goes on.\<close>

definition fw_reply :: "'w os \<Rightarrow> (nat \<Rightarrow> u16) \<Rightarrow> u32 \<Rightarrow> u16 \<Rightarrow> u16 \<Rightarrow> fw_thread \<Rightarrow> ('w, bool \<times> fw_thread) M" where
  "fw_reply os pad g_sock msg_length dat_length t =
     bindM (buf_bytes (fw_desc t) 0 2) (\<lambda>flags.
     let t = t\<lparr>fw_desc := patch (fw_desc t) 0 (le_bytes 2 (le_word flags OR E1000_AQ_FLAG_DD))\<rparr> in
     bindM (buf_bytes (fw_desc t) 0 aq_desc_size) (\<lambda>bs.
     bindM (senddata os (pad 0) g_sock bs msg_length) (\<lambda>rc.
     if rc = SOCKET_ERROR then returnM (False, t)
     else if echobuf t \<and> dat_length \<noteq> 0
     then bindM (buf_bytes (fw_buffer t) 0 (unat dat_length)) (\<lambda>bs.
          bindM (senddata os (pad 1) g_sock bs dat_length) (\<lambda>rc.
          if rc = SOCKET_ERROR then returnM (False, t) else returnM (True, t\<lparr>echobuf := False\<rparr>)))
     else returnM (True, t))))"

definition t_0_round :: "'w os \<Rightarrow> (nat \<Rightarrow> u16) \<Rightarrow> u32 \<Rightarrow> fw_thread \<Rightarrow> ('w, bool \<times> fw_thread) M" where
  "t_0_round os pad g_sock t =
     bindM (recvdata os g_sock (of_nat aq_desc_size)) (\<lambda>(rc, bs, msg_length).
     let t = t\<lparr>fw_desc := overlay bs (fw_desc t)\<rparr> in
     if rc = SOCKET_ERROR then returnM (True, t)
     else
       bindM (buf_bytes (fw_desc t) 4 2) (\<lambda>datalen.
       bindM (fw_recv_data os g_sock (le_word datalen) (fw_buffer t)) (\<lambda>(dat_length, buf).
       bindM (buf_bytes (fw_desc t) 2 2) (\<lambda>opcode.
       fw_reply os pad g_sock msg_length dat_length
         \<lparr>fw_desc = fw_process (le_word opcode) (fw_desc t) buf, fw_buffer = buf,
          echobuf = echobuf t \<or> le_word opcode = e1000_aqc_echo\<rparr>))))"

text \<open>The loop of \<^verbatim>\<open>t_0_entry\<close>, \<open>k\<close> the number of the round.\<close>

fun t_0_loop :: "'w os \<Rightarrow> (nat \<Rightarrow> nat \<Rightarrow> u16) \<Rightarrow> nat \<Rightarrow> nat \<Rightarrow> u32 \<Rightarrow> fw_thread \<Rightarrow> ('w, unit) M" where
  "t_0_loop os pad k 0 g_sock t = faultM No_Return"
| "t_0_loop os pad k (Suc fuel) g_sock t =
     bindM (t_0_round os (pad k) g_sock t) (\<lambda>(go, t).
     if go then t_0_loop os pad (Suc k) fuel g_sock t else returnM ())"

definition t_0_entry :: "'w os \<Rightarrow> (nat \<Rightarrow> nat \<Rightarrow> u16) \<Rightarrow> nat \<Rightarrow> u32 \<Rightarrow> ('w, unit) M" where
  "t_0_entry os pad fuel g_sock = t_0_loop os pad 0 fuel g_sock fw_thread0"

section \<open>Start-up\<close>

text \<open>
  \<^verbatim>\<open>main\<close>: \<open>startup\<close> is the result of \<^verbatim>\<open>WSAStartup\<close> and \<open>enter\<close> is \<^verbatim>\<open>tx_kernel_enter\<close>, which is given the entry
  of the thread that \<^verbatim>\<open>tx_application_define\<close> creates. \<^verbatim>\<open>g_sock\<close> is zero before it is assigned.
\<close>

definition fw_main :: "'w os \<Rightarrow> (('w, unit) M \<Rightarrow> ('w, unit) M) \<Rightarrow> i32 \<Rightarrow> (nat \<Rightarrow> nat \<Rightarrow> u16) \<Rightarrow> nat \<Rightarrow> ('w, i32) M" where
  "fw_main os enter startup pad fuel =
     (let err = (\<lambda>g_sock rc. bindM (close_fd os g_sock) (\<lambda>_. returnM rc)) in
      if startup \<noteq> 0 then err 0 startup
      else
        bindM (announce os fuel (Some ''vf.optrc'')) (\<lambda>s.
        let g_sock = word_of_int s in
        if s = INVALID_SOCKET then err g_sock (- 1)
        else bindM (enter (t_0_entry os pad fuel g_sock)) (\<lambda>_. err g_sock startup)))"

datatype tx_call =
  Tx_byte_pool_create string nat
| Tx_byte_allocate nat
| Tx_thread_create string nat nat nat nat

definition tx_application_define :: "tx_call list" where
  "tx_application_define =
     [Tx_byte_pool_create ''byte pool 0'' FW_BYTE_POOL_SIZE,
      Tx_byte_allocate FW_STACK_SIZE,
      Tx_thread_create ''communication thread'' 1 (FW_STACK_SIZE + FW_DAT_SIZE) 16 4]"

section \<open>What a round answers\<close>


lemma bindM_Ok: "m h = Ok (x, h') \<Longrightarrow> bindM m f h = f x h'"
  by (simp add: bindM_def)

definition fw_answer :: "e1000_aq_desc \<Rightarrow> e1000_aq_desc" where
  "fw_answer d =
     (if aq_opcode d = 1 then d\<lparr>aq_param0 := 0x130034, aq_param1 := 0xaf00fa\<rparr>
      else if aq_opcode d = 2 \<or> aq_opcode d = 3 then d else d\<lparr>aq_retval := 1\<rparr>)\<lparr>aq_flags := aq_flags d OR 1\<rparr>"

definition fw_echoes :: "bool \<Rightarrow> e1000_aq_desc \<Rightarrow> bool" where
  "fw_echoes eb d \<longleftrightarrow> (eb \<or> aq_opcode d = 3) \<and> aq_datalen d \<noteq> 0"

definition fw_out :: "(nat \<Rightarrow> u16) \<Rightarrow> bool \<Rightarrow> e1000_aq_desc \<Rightarrow> u8 list \<Rightarrow> u8 list" where
  "fw_out pad eb d buf = frame (pad 0) (encode_aq_desc (fw_answer d)) @ (if fw_echoes eb d then frame (pad 1) buf else [])"

definition fw_eb :: "bool \<Rightarrow> e1000_aq_desc \<Rightarrow> bool" where
  "fw_eb eb d \<longleftrightarrow> (eb \<or> aq_opcode d = 3) \<and> aq_datalen d = 0"

definition fw_takes :: "e1000_aq_desc \<Rightarrow> u8 list \<Rightarrow> bool" where
  "fw_takes d buf \<longleftrightarrow> length buf = unat (aq_datalen d) \<and> length buf \<le> FW_DAT_SIZE"

lemma patch_Some: "patch (map Some bs) off xs = map Some (take off bs @ xs @ drop (off + length xs) bs)"
  by (simp add: patch_def take_map drop_map)

lemma patch_fields:
  "patch (map Some (encode_aq_desc d)) 0 (le_bytes 2 w) = map Some (encode_aq_desc (d\<lparr>aq_flags := w\<rparr>))"
  "patch (map Some (encode_aq_desc d)) 6 (le_bytes 2 w) = map Some (encode_aq_desc (d\<lparr>aq_retval := w\<rparr>))"
  "patch (map Some (encode_aq_desc d)) 16 (le_bytes 4 p @ le_bytes 4 q) =
     map Some (encode_aq_desc (d\<lparr>aq_param0 := p, aq_param1 := q\<rparr>))"
  unfolding patch_Some by (simp_all add: encode_aq_desc_def)

lemma fields_encode:
  "le_word (take 2 (encode_aq_desc d)) = aq_flags d"
  "le_word (take 2 (drop 2 (encode_aq_desc d))) = aq_opcode d"
  "le_word (take 2 (drop 4 (encode_aq_desc d))) = aq_datalen d"
  by (simp_all add: encode_aq_desc_def)

lemma fw_process_encode:
  "fw_process (aq_opcode d) (map Some (encode_aq_desc d)) buf =
     map Some (encode_aq_desc ((fw_answer d)\<lparr>aq_flags := aq_flags d\<rparr>))"
  by (simp add: fw_process_def e1000_aq_get_version_fw_def e1000_aq_driver_heartbeat_def e1000_aq_echo_fw_def
      patch_fields fw_answer_def)

lemma fw_answer_sel [simp]:
  "aq_flags (fw_answer d) = aq_flags d OR 1" "aq_opcode (fw_answer d) = aq_opcode d"
  "aq_datalen (fw_answer d) = aq_datalen d" "aq_addr (fw_answer d) = aq_addr d"
  by (simp_all add: fw_answer_def aq_addr_def)

lemma fw_answer_flags: "(fw_answer d)\<lparr>aq_flags := aq_flags d OR 1\<rparr> = fw_answer d"
  by (simp add: fw_answer_def)

lemma overlay_all: "length bs = length buf \<Longrightarrow> overlay bs buf = map Some bs"
  by (simp add: overlay_def)

lemma buf_bytes_overlay: "buf_bytes (overlay bs buf) 0 (length bs) = returnM bs"
  by (auto simp: buf_bytes_def overlay_def Let_def comp_def)

context connection
begin

lemma fw_reply_sent:
  assumes silent: "\<And>x. serve x = []" and d: "fw_desc t = map Some (encode_aq_desc (d\<lparr>aq_flags := f\<rparr>))"
    and b: "echobuf t \<Longrightarrow> dl \<noteq> 0 \<Longrightarrow> fw_buffer t = overlay buf rest \<and> length buf = unat dl"
  obtains h' t' where "fw_reply os pad s 32 dl t h = Ok ((True, t'), h')"
    and "inb (world h') = inb (world h)"
    and "outb (world h') = outb (world h) @ frame (pad 0) (encode_aq_desc (d\<lparr>aq_flags := f OR 1\<rparr>)) @
      (if echobuf t \<and> dl \<noteq> 0 then frame (pad 1) buf else [])"
    and "length (fw_desc t') = 32" and "fw_buffer t' = fw_buffer t" and "echobuf t' \<longleftrightarrow> echobuf t \<and> dl = 0"
proof -
  let ?d = "d\<lparr>aq_flags := f OR 1\<rparr>"
  obtain h1 where 1: "senddata os (pad 0) s (encode_aq_desc ?d) 32 h = Ok (32, h1)"
      "outb (world h1) = outb (world h) @ frame (pad 0) (encode_aq_desc ?d)" "inb (world h1) = inb (world h)"
    using senddata_sent [OF sendable_desc [of ?d], of "pad 0" h] silent by auto
  let ?t = "t\<lparr>fw_desc := map Some (encode_aq_desc ?d)\<rparr>"
  have run: "fw_reply os pad s 32 dl t h =
    (if echobuf t \<and> dl \<noteq> 0
     then bindM (buf_bytes (fw_buffer t) 0 (unat dl)) (\<lambda>bs. bindM (senddata os (pad 1) s bs dl) (\<lambda>rc.
            if rc = SOCKET_ERROR then returnM (False, ?t) else returnM (True, ?t\<lparr>echobuf := False\<rparr>))) h1
     else Ok ((True, ?t), h1))"
    using 1(1) unfolding fw_reply_def d
    by (simp add: buf_bytes_Some patch_fields fields_encode Let_def bindM_Ok cong: if_cong) (simp add: returnM_def)
  show ?thesis
  proof (cases "echobuf t \<and> dl \<noteq> 0")
    case True
    then have buf: "fw_buffer t = overlay buf rest" "length buf = unat dl" using b by auto
    note sb = sendable_data [OF buf(2)]
    obtain h2 where 2: "senddata os (pad 1) s buf dl h1 = Ok (int (length buf), h2)"
        "outb (world h2) = outb (world h1) @ frame (pad 1) buf" "inb (world h2) = inb (world h1)"
      using senddata_sent [OF sb(1), of "pad 1" h1] silent sb(2) True by auto
    have bb: "buf_bytes (fw_buffer t) 0 (unat dl) = returnM buf"
      unfolding buf(1) buf(2) [symmetric] by (rule buf_bytes_overlay)
    have "fw_reply os pad s 32 dl t h = Ok ((True, ?t\<lparr>echobuf := False\<rparr>), h2)"
      unfolding run bb using True 2(1) by (simp add: bindM_Ok) (simp add: returnM_def)
    then show ?thesis using True 1 2 by (intro that [of "?t\<lparr>echobuf := False\<rparr>" h2]) simp_all
  next
    case False
    then show ?thesis using run 1 by (intro that [of ?t h1]) auto
  qed
qed

end

context connection
begin

lemma fw_recv_data_received:
  assumes "fw_takes d buf" and i: "inb (world h) = (if aq_datalen d = 0 then [] else frame p buf) @ rest"
  obtains h' buf' where "fw_recv_data os s (aq_datalen d) b h = Ok ((aq_datalen d, buf'), h')"
    and "inb (world h') = rest" and "outb (world h') = outb (world h)"
    and "buf' = overlay buf b"
proof (cases "aq_datalen d = 0")
  case True
  then have "buf = []" using assms(1) by (simp add: fw_takes_def)
  then show ?thesis using True i that [of b h] by (simp add: fw_recv_data_def returnM_def overlay_def)
next
  case False
  have b: "length buf = unat (aq_datalen d)" "length buf \<le> 4096" using assms(1) by (simp_all add: fw_takes_def)
  note sb = sendable_data [OF b(1) False]
  obtain h1 where 1: "recvdata os s (aq_datalen d) h = Ok ((0, buf, aq_datalen d), h1)"
      "inb (world h1) = rest" "outb (world h1) = outb (world h)"
    using recvdata_received [OF sb(1), of h p rest "aq_datalen d"] i False b(1) sb(2) by auto
  have "fw_recv_data os s (aq_datalen d) b h = Ok ((aq_datalen d, overlay buf b), h1)"
    using 1(1) False b(2) by (simp add: fw_recv_data_def bindM_Ok) (simp add: returnM_def)
  then show ?thesis using 1 that by auto
qed

lemma round_answers:
  assumes silent: "\<And>x. serve x = []" and ok: "fw_takes d buf" and i: "inb (world h) = aq_wire rpad d buf @ rest"
    and t: "length (fw_desc t) = 32" "length (fw_buffer t) = 4096"
  obtains h' t' where "t_0_round os pad s t h = Ok ((True, t'), h')"
    and "inb (world h') = rest" and "outb (world h') = outb (world h) @ fw_out pad (echobuf t) d buf"
    and "length (fw_desc t') = 32" and "length (fw_buffer t') = 4096" and "echobuf t' \<longleftrightarrow> fw_eb (echobuf t) d"
proof -
  let ?data = "if aq_datalen d = 0 then [] else frame (rpad 1) buf"
  obtain h1 where 1: "recvdata os s 32 h = Ok ((0, encode_aq_desc d, 32), h1)"
      "inb (world h1) = ?data @ rest" "outb (world h1) = outb (world h)"
    using recvdata_received [OF sendable_desc [of d], of h "rpad 0" "?data @ rest" 32] i by (auto simp: aq_wire_def)
  obtain h2 buf' where 2: "fw_recv_data os s (aq_datalen d) (fw_buffer t) h1 = Ok ((aq_datalen d, buf'), h2)"
      "inb (world h2) = rest" "outb (world h2) = outb (world h1)" "buf' = overlay buf (fw_buffer t)"
    by (rule fw_recv_data_received [OF ok 1(2), of "fw_buffer t"])
  define t1 where "t1 = \<lparr>fw_desc = map Some (encode_aq_desc ((fw_answer d)\<lparr>aq_flags := aq_flags d\<rparr>)),
    fw_buffer = buf', echobuf = echobuf t \<or> aq_opcode d = 3\<rparr>"
  have t1: "fw_desc t1 = map Some (encode_aq_desc ((fw_answer d)\<lparr>aq_flags := aq_flags d\<rparr>))"
    "echobuf t1 \<Longrightarrow> aq_datalen d \<noteq> 0 \<Longrightarrow> fw_buffer t1 = overlay buf (fw_buffer t) \<and> length buf = unat (aq_datalen d)"
    using ok by (simp_all add: t1_def 2(4) fw_takes_def)
  obtain h3 t3 where 3: "fw_reply os pad s 32 (aq_datalen d) t1 h2 = Ok ((True, t3), h3)"
    "inb (world h3) = inb (world h2)"
    "outb (world h3) = outb (world h2) @ frame (pad 0) (encode_aq_desc ((fw_answer d)\<lparr>aq_flags := aq_flags d OR 1\<rparr>)) @
      (if echobuf t1 \<and> aq_datalen d \<noteq> 0 then frame (pad 1) buf else [])"
    "length (fw_desc t3) = 32" "fw_buffer t3 = fw_buffer t1" "echobuf t3 \<longleftrightarrow> echobuf t1 \<and> aq_datalen d = 0"
    by (rule fw_reply_sent [OF silent t1(1,2)])
  have "t_0_round os pad s t h = fw_reply os pad s 32 (aq_datalen d) t1 h2"
    unfolding t_0_round_def using 1(1) 2(1) t(1)
    by (simp add: bindM_Ok overlay_all buf_bytes_Some fields_encode Let_def fw_process_encode t1_def)
  then show ?thesis
    using 1 2 3 t ok
    by (intro that [of t3 h3]) (simp_all add: fw_answer_flags fw_out_def fw_echoes_def fw_eb_def t1_def overlay_def fw_takes_def)
qed

end

section \<open>The thread answers every request in order\<close>

type_synonym request = "(nat \<Rightarrow> u16) \<times> e1000_aq_desc \<times> u8 list"

definition requests_wire :: "request list \<Rightarrow> u8 list" where
  "requests_wire rs = concat (map (\<lambda>(p, d, b). aq_wire p d b) rs)"

definition requests_ok :: "request list \<Rightarrow> bool" where
  "requests_ok rs \<longleftrightarrow> list_all (\<lambda>(p, d, b). fw_takes d b) rs"

text \<open>The answers, and whether the buffer of an earlier request is still to be echoed.\<close>

fun fw_answers :: "(nat \<Rightarrow> nat \<Rightarrow> u16) \<Rightarrow> nat \<Rightarrow> bool \<Rightarrow> request list \<Rightarrow> u8 list" where
  "fw_answers pad k eb [] = []"
| "fw_answers pad k eb ((p, d, b) # rs) = fw_out (pad k) eb d b @ fw_answers pad (Suc k) (fw_eb eb d) rs"

fun fw_pending :: "bool \<Rightarrow> request list \<Rightarrow> bool" where
  "fw_pending eb [] = eb"
| "fw_pending eb ((p, d, b) # rs) = fw_pending (fw_eb eb d) rs"

lemma requests_simps [simp]:
  "requests_wire [] = []" "requests_wire ((p, d, b) # rs) = aq_wire p d b @ requests_wire rs"
  "requests_wire (rs @ rs') = requests_wire rs @ requests_wire rs'"
  "requests_ok []" "requests_ok ((p, d, b) # rs) \<longleftrightarrow> fw_takes d b \<and> requests_ok rs"
  "requests_ok (rs @ rs') \<longleftrightarrow> requests_ok rs \<and> requests_ok rs'"
  by (simp_all add: requests_wire_def requests_ok_def)

lemma fw_answers_append:
  "fw_answers pad k eb (rs @ rs') = fw_answers pad k eb rs @ fw_answers pad (k + length rs) (fw_pending eb rs) rs'"
  by (induction pad k eb rs rule: fw_answers.induct) simp_all

context connection
begin

lemma loop_answers:
  assumes silent: "\<And>x. serve x = []" and "requests_ok rs" and "inb (world h) = requests_wire rs @ rest"
    and "length (fw_desc t) = 32" and "length (fw_buffer t) = 4096"
  shows "\<exists>h' t'. (\<forall>fuel. t_0_loop os pad k (length rs + fuel) s t h = t_0_loop os pad (k + length rs) fuel s t' h') \<and>
    inb (world h') = rest \<and> outb (world h') = outb (world h) @ fw_answers pad k (echobuf t) rs"
  using assms(2-)
proof (induction rs arbitrary: k t h)
  case Nil
  then show ?case by auto
next
  case (Cons r rs)
  obtain p d b where r: "r = (p, d, b)" by (cases r) auto
  have ok: "fw_takes d b" and i: "inb (world h) = aq_wire p d b @ requests_wire rs @ rest"
    using Cons.prems(1,2) by (simp_all add: r)
  obtain h1 t1 where 1: "t_0_round os (pad k) s t h = Ok ((True, t1), h1)" "inb (world h1) = requests_wire rs @ rest"
      "outb (world h1) = outb (world h) @ fw_out (pad k) (echobuf t) d b"
      "length (fw_desc t1) = 32" "length (fw_buffer t1) = 4096" "echobuf t1 \<longleftrightarrow> fw_eb (echobuf t) d"
    by (rule round_answers [OF silent ok i Cons.prems(3,4)])
  have "requests_ok rs" using Cons.prems(1) by (simp add: r)
  then obtain h' t' where "\<forall>fuel. t_0_loop os pad (Suc k) (length rs + fuel) s t1 h1 = t_0_loop os pad (Suc k + length rs) fuel s t' h'"
      "inb (world h') = rest" "outb (world h') = outb (world h1) @ fw_answers pad (Suc k) (echobuf t1) rs"
    using Cons.IH [of h1 t1 "Suc k"] 1(2,4,5) by blast
  then show ?case using 1(1,3,6) by (auto simp: r bindM_Ok)
qed

end

text \<open>
  C7: Every command that the firmware can hold is answered: whatever sequence of well-formed requests
  waits on the connection, the communication thread gets past all of them, one round each, takes
  exactly these bytes, and sends exactly their answers in order.
\<close>

theorem firmware_answers_all:
  assumes "connection os s inb outb (\<lambda>_. [])" and "requests_ok rs" and "inb (world h) = requests_wire rs @ rest"
  shows "\<exists>h' t'. (\<forall>fuel. t_0_entry os pad (length rs + fuel) s h = t_0_loop os pad (length rs) fuel s t' h') \<and>
    inb (world h') = rest \<and> outb (world h') = outb (world h) @ fw_answers pad 0 False rs"
  using connection.loop_answers [OF assms(1) _ assms(2,3), of fw_thread0 pad 0]
  by (simp add: t_0_entry_def fw_thread0_def)

section \<open>The firmware as a function of its input\<close>

text \<open>Reading one message, and one request, off the front of the bytes received.\<close>

definition take_frame :: "u8 list \<Rightarrow> (u8 list \<times> u8 list) option" where
  "take_frame inp =
     (let n = unat (header_length (take 8 inp)) in
      if length inp < 8 \<or> n = 0 \<or> length inp < 8 + n then None
      else Some (take n (drop 8 inp), drop (8 + n) inp))"

definition take_request :: "u8 list \<Rightarrow> ((e1000_aq_desc \<times> u8 list) \<times> u8 list) option" where
  "take_request inp =
     (case take_frame inp of None \<Rightarrow> None
      | Some (bs, r1) \<Rightarrow>
          if length bs \<noteq> 32 then None
          else let d = decode_aq_desc bs in
            if aq_datalen d = 0 then Some ((d, []), r1)
            else case take_frame r1 of None \<Rightarrow> None
              | Some (b, r2) \<Rightarrow> if fw_takes d b then Some ((d, b), r2) else None)"

lemma take_frame_less: "take_frame inp = Some (x, r) \<Longrightarrow> length r < length inp"
  by (auto simp: take_frame_def Let_def split: if_splits)

lemma take_request_less: "take_request inp = Some (x, r) \<Longrightarrow> length r < length inp"
  by (auto simp: take_request_def Let_def split: if_splits option.splits dest!: take_frame_less)

function fw_serve :: "(nat \<Rightarrow> nat \<Rightarrow> u16) \<Rightarrow> nat \<Rightarrow> bool \<Rightarrow> u8 list \<Rightarrow> u8 list" where
  "fw_serve pad k eb inp =
     (case take_request inp of None \<Rightarrow> []
      | Some ((d, b), rest) \<Rightarrow> fw_out (pad k) eb d b @ fw_serve pad (Suc k) (fw_eb eb d) rest)"
  by pat_completeness auto
termination
  by (relation "measure (\<lambda>(pad, k, eb, inp). length inp)") (auto dest: take_request_less)

declare fw_serve.simps [simp del]

lemma take_frame_append: "take_frame inp = Some (x, r) \<Longrightarrow> take_frame (inp @ ys) = Some (x, r @ ys)"
  by (auto simp: take_frame_def Let_def split: if_splits)

lemma take_request_append: "take_request inp = Some (x, r) \<Longrightarrow> take_request (inp @ ys) = Some (x, r @ ys)"
  by (auto simp: take_request_def Let_def take_frame_append split: if_splits option.splits prod.splits)

lemma take_frame_frame: "sendable xs \<Longrightarrow> take_frame (frame p xs @ rest) = Some (xs, rest)"
  by (simp add: take_frame_def frame_def sendable_length) (auto simp: sendable_def)

lemma take_request_wire: "fw_takes d b \<Longrightarrow> take_request (aq_wire p d b @ rest) = Some ((d, b), rest)"
  using sendable_data(1) [of b "aq_datalen d"]
  by (auto simp: take_request_def aq_wire_def take_frame_frame fw_takes_def)

lemma fw_serve_mono: "prefix (fw_serve pad k eb a) (fw_serve pad k eb (a @ b))"
proof (induction pad k eb a rule: fw_serve.induct)
  case (1 pad k eb inp)
  show ?case
  proof (cases "take_request inp")
    case None
    then show ?thesis by (simp add: fw_serve.simps [of pad k eb inp])
  next
    case (Some q)
    then obtain d b' rest where q: "take_request inp = Some ((d, b'), rest)" by (cases q) auto
    show ?thesis
      using 1 [OF q refl refl]
      by (simp add: fw_serve.simps [of pad k eb inp] fw_serve.simps [of pad k eb "inp @ b"] q take_request_append)
  qed
qed

lemma fw_serve_requests:
  "requests_ok rs \<Longrightarrow> fw_serve pad k eb (requests_wire rs @ xs) =
     fw_answers pad k eb rs @ fw_serve pad (k + length rs) (fw_pending eb rs) xs"
proof (induction pad k eb rs rule: fw_answers.induct)
  case (2 pad k eb p d b rs)
  then show ?case by (subst fw_serve.simps) (simp add: take_request_wire)
qed simp

lemma fw_serve_Nil [simp]: "fw_serve pad k eb [] = []"
  by (simp add: fw_serve.simps take_request_def take_frame_def)

section \<open>Device and firmware together\<close>

text \<open>
  The host of a device that is connected to a process \<open>serve\<close>: the bytes each side has sent, without those
  the device has received already. Nothing but the open connection works on it.
\<close>

record link =
  link_in :: "u8 list"
  link_out :: "u8 list"

definition link_os :: "(u8 list \<Rightarrow> u8 list) \<Rightarrow> link os" where
  "link_os serve = \<lparr>
     os_fopen = (\<lambda>_ _. None),
     os_malloc = (\<lambda>w. (False, w)),
     os_socket = (\<lambda>_ _ _ w. (- 1, EPERM, w)),
     os_close = (\<lambda>_ w. w),
     os_setsockopt = (\<lambda>_ _ _ _ w. (- 1, EPERM, w)),
     os_bind = (\<lambda>_ _ w. (- 1, EPERM, w)),
     os_listen = (\<lambda>_ _ w. (- 1, EPERM, w)),
     os_accept = (\<lambda>_ w. (- 1, EPERM, loopback_addr, w)),
     os_connect = (\<lambda>_ _ w. (- 1, EPERM, w)),
     os_select = (\<lambda>_ _ w. (- 1, EPERM, ([], 0), w)),
     os_send = (\<lambda>_ bs w. (int (length bs), 0, \<lparr>
        link_in = link_in w @ drop (length (serve (link_out w))) (serve (link_out w @ bs)),
        link_out = link_out w @ bs\<rparr>)),
     os_recv = (\<lambda>_ n peek w. (int (length (take n (link_in w))), 0, take n (link_in w),
                  if peek then w else w\<lparr>link_in := drop n (link_in w)\<rparr>)),
     os_sendto = (\<lambda>_ _ _ w. (- 1, EPERM, w)),
     os_recvfrom = (\<lambda>_ _ w. (- 1, EPERM, ([], loopback_addr), w)),
     os_getaddrinfo = (\<lambda>_ _ _ _ _ _ w. (- 1, (loopback_addr, 16), w)),
     os_getifaddrs = (\<lambda>w. (- 1, EPERM, [], w)),
     os_getnameinfo = (\<lambda>_ w. (- 1, [], w)),
     os_inet_pton = (\<lambda>_. None),
     os_inet_ntop = (\<lambda>_ _. None)\<rparr>"

lemma connection_link:
  "(\<And>a b. prefix (serve a) (serve (a @ b))) \<Longrightarrow> connection (link_os serve) s link_in link_out serve"
  by unfold_locales (auto simp: link_os_def)

interpretation firmware_side: connection "link_os (\<lambda>_. [])" s link_in link_out "\<lambda>_. []"
  by (rule connection_link) simp

interpretation device_side: connection "link_os (fw_serve pad 0 False)" s link_in link_out "fw_serve pad 0 False"
  by (rule connection_link) (rule fw_serve_mono)

lemma command_served:
  assumes "connection os s inb outb (fw_serve pad 0 False)" and "fs (dev n) = s" and "s \<noteq> NO_FS"
    and "requests_ok rs" and "\<not> fw_pending False rs" and "outb (world h) = requests_wire rs" and "inb (world h) = []"
    and "aq_opcode (aq_head n) = 3 \<and> unat (aq_datalen (aq_head n)) \<le> 4096 \<or> aq_datalen (aq_head n) = 0"
  shows "\<exists>h'. e1000_set_atq_tail os fuel dpad n PF_ATQT v h =
      Ok (n\<lparr>dev := aq_advance (put_reg PF_ATQT v (dev n)),
            ram := mem_write (ram n) (aq_base (dev n)) (encode_aq_desc (fw_answer (aq_head n)))\<rparr>, h') \<and>
    inb (world h') = [] \<and> outb (world h') = requests_wire (rs @ [(dpad, aq_head n, aq_data n (aq_head n))])"
proof -
  let ?d = "aq_head n" and ?b = "aq_data n (aq_head n)"
  have ok: "fw_takes ?d ?b" using assms(8) by (auto simp: fw_takes_def aq_data_def)
  have sv: "fw_serve pad 0 False (requests_wire rs @ xs) = fw_answers pad 0 False rs @ fw_serve pad (length rs) False xs" for xs
    using fw_serve_requests [OF assms(4), of pad 0 False xs] assms(5) by simp
  have "fw_serve pad (length rs) False (aq_wire dpad ?d ?b) = fw_out (pad (length rs)) False ?d ?b"
    using fw_serve_requests [of "[(dpad, ?d, ?b)]" pad "length rs" False "[]"] ok by simp
  also have "\<dots> = aq_wire (pad (length rs)) (fw_answer ?d) ?b"
    using assms(8) by (auto simp: fw_out_def fw_echoes_def aq_wire_def)
  finally have "fw_serve pad 0 False (outb (world h) @ aq_wire dpad ?d ?b) =
      fw_serve pad 0 False (outb (world h)) @ aq_wire (pad (length rs)) (fw_answer ?d) ?b"
    using sv [of "aq_wire dpad ?d ?b"] sv [of "[]"] assms(6) by simp
  moreover have "aq_store (fw_answer ?d) ?b (ram n) = ram n"
    by (simp add: aq_store_def aq_data_def)
  moreover have "length ?b = unat (aq_datalen (fw_answer ?d))" by (simp add: aq_data_def)
  ultimately show ?thesis
    using connection.aq_set_tail [OF assms(1), of n h dpad "pad (length rs)" "fw_answer ?d" ?b fuel v] assms(2,3,6,7)
    by simp
qed


text \<open>Two requests: an empty echo, which leaves the flag set, and an echo of two bytes.\<close>

definition echo_desc :: "u16 \<Rightarrow> e1000_aq_desc" where
  "echo_desc l = \<lparr>aq_flags = 0, aq_opcode = 3, aq_datalen = l, aq_retval = 0, aq_cookie_high = 0, aq_cookie_low = 0,
     aq_param0 = 0, aq_param1 = 0, aq_addr_high = 0, aq_addr_low = 0x2000\<rparr>"

definition link_host :: "u8 list \<Rightarrow> u8 list \<Rightarrow> link host" where
  "link_host i o' = \<lparr>errno = 0, OPT = OPT loop_host, heap = Map.empty, brk = 0, fds = {#5#}, world = \<lparr>link_in = i, link_out = o'\<rparr>\<rparr>"

theorem firmware_answers_all_witness:
  "\<exists>h' t'. (\<forall>fuel. t_0_entry (link_os (\<lambda>_. [])) (\<lambda>_ _. 0) (2 + fuel) 5
        (link_host (requests_wire [(\<lambda>_. 0, echo_desc 0, []), (\<lambda>_. 0, echo_desc 2, [7, 9])]) []) =
      t_0_loop (link_os (\<lambda>_. [])) (\<lambda>_ _. 0) 2 fuel 5 t' h') \<and>
    link_in (world h') = [] \<and>
    link_out (world h') = fw_answers (\<lambda>_ _. 0) 0 False [(\<lambda>_. 0, echo_desc 0, []), (\<lambda>_. 0, echo_desc 2, [7, 9])]"
proof -
  define rs :: "request list" where "rs = [(\<lambda>_. 0, echo_desc 0, []), (\<lambda>_. 0, echo_desc 2, [7, 9])]"
  have ok: "requests_ok rs" and len: "length rs = 2" by (simp_all add: rs_def fw_takes_def echo_desc_def)
  have w: "link_in (world (link_host (requests_wire rs) [])) = requests_wire rs @ []"
    "link_out (world (link_host (requests_wire rs) [])) = []" by (simp_all add: link_host_def)
  show ?thesis
    using firmware_answers_all [OF firmware_side.connection_axioms ok w(1), of "\<lambda>_ _. 0" 5]
    unfolding len w(2) append_Nil unfolding rs_def .
qed


section \<open>Where the two sides disagree\<close>

text \<open>
  A command other than echo that carries data: the firmware returns the descriptor with the length still
  in it, but not the data. The device asks for data that never comes, while the firmware
  waits for the next command: nothing is on its way in either direction.
\<close>

context connection
begin

lemma data_never_comes:
  assumes fs: "fs (dev n) = s" "s \<noteq> NO_FS" and i: "inb (world h) = []"
    and ne: "aq_datalen d \<noteq> 0" "unat (aq_datalen d) \<le> 4096" "aq_opcode d \<noteq> 3"
    and sv: "serve (outb (world h) @ aq_wire dpad d (aq_data n d)) = serve (outb (world h)) @ fw_out pad False d (aq_data n d)"
  shows "\<exists>h'. e1000_send_aq_cmd os fuel dpad n d h =
      bindM (bindM (aq_recv_buffer os (max 1 (unat (aq_datalen d))) n (fw_answer d)) (\<lambda>(rc, n). returnM (rc, n, fw_answer d)))
        (\<lambda>(rc, n', desc'). if rc < 0 then aq_err os n d else returnM (0, n', desc')) h' \<and>
    inb (world h') = [] \<and> outb (world h') = outb (world h) @ aq_wire dpad d (aq_data n d)"
proof -
  have out: "fw_out pad False d (aq_data n d) = frame (pad 0) (encode_aq_desc (fw_answer d))"
    using ne by (simp add: fw_out_def fw_echoes_def)
  obtain h1 rc where 1: "aq_send os dpad n d h = Ok (rc, h1)" "0 \<le> rc"
      "outb (world h1) = outb (world h) @ aq_wire dpad d (aq_data n d)"
      "inb (world h1) = frame (pad 0) (encode_aq_desc (fw_answer d)) @ []"
    by (rule aq_send_request [OF fs(1), of dpad d h]) (simp add: i sv out)
  obtain h2 where 2: "recvdata os s 32 h1 = Ok ((0, encode_aq_desc (fw_answer d), 32), h2)"
      "inb (world h2) = []" "outb (world h2) = outb (world h1)"
    using recvdata_received [OF sendable_desc 1(4), of 32] by auto
  have "e1000_send_aq_cmd os fuel dpad n d h =
      bindM (bindM (aq_recv_buffer os (max 1 (unat (aq_datalen d))) n (fw_answer d)) (\<lambda>(rc, n). returnM (rc, n, fw_answer d)))
        (\<lambda>(rc, n', desc'). if rc < 0 then aq_err os n d else returnM (0, n', desc')) h2"
    using 1(1,2) 2(1) fs ne(1)
    by (simp add: e1000_send_aq_cmd_def aq_connect_def aq_recv_def bindM_Ok bindM_assoc Let_def word_gt_0)
  then show ?thesis using 1(3) 2(2,3) by auto
qed

text \<open>The buffer of the firmware has 4096 bytes, but it accepts as many as the descriptor announces.\<close>

lemma fw_buffer_overflow:
  assumes "length buf = unat dl" and "4096 < unat dl" and i: "inb (world h) = frame p buf @ rest"
  shows "fw_recv_data os s dl b h = Fault Buffer_Overflow"
proof -
  have ne: "dl \<noteq> 0" using assms(2) by auto
  note sb = sendable_data [OF assms(1) ne]
  obtain h1 where "recvdata os s dl h = Ok ((0, buf, dl), h1)"
    using recvdata_received [OF sb(1) i, of dl] assms(1) sb(2) by auto
  then show ?thesis using assms ne by (simp add: fw_recv_data_def bindM_Ok faultM_def)
qed

end

text \<open>When the device has closed the connection, the thread tries to receive for ever.\<close>

lemma t_0_loop_spins:
  assumes "\<And>n peek w. \<exists>e w'. os_recv os s n peek w = (0, e, [], w')"
  shows "t_0_loop os pad k fuel s t h = Fault No_Return"
proof (induction fuel arbitrary: k t h)
  case 0
  then show ?case by (simp add: faultM_def)
next
  case (Suc fuel)
  obtain e w' where "os_recv os s 8 True (world h) = (0, e, [], w')" using assms by blast
  then have "\<exists>h'. recvdata os s 32 h = Ok ((- 1, [], 32), h')"
    by (simp add: recvdata_def monad_defs sys_defs)
  then obtain h' where "recvdata os s 32 h = Ok ((- 1, [], 32), h')" by blast
  then have "t_0_round os (pad k) s t h = Ok ((True, t\<lparr>fw_desc := overlay [] (fw_desc t)\<rparr>), h')"
    by (simp add: t_0_round_def bindM_Ok Let_def) (simp add: returnM_def)
  then show ?case by (simp add: bindM_Ok Suc)
qed

text \<open>The thread is created with a larger stack than was allocated for it.\<close>

lemma tx_stack_too_large:
  "\<exists>n k. Tx_byte_allocate n \<in> set tx_application_define \<and>
     Tx_thread_create ''communication thread'' 1 k 16 4 \<in> set tx_application_define \<and> n < k"
  by (auto simp: tx_application_define_def)

end
