(* ===== verification/E1000_Init.thy ===== *)
theory E1000_Init
  imports AdminQ
begin

text \<open>
  Start-up, reset and removal of the network device (\<^verbatim>\<open>hw/e1000.c\<close>): the initial contents of registers,
  PHY and EEPROM, the PCI configuration header, and the address ranges whose writes may be coalesced.
  \<^verbatim>\<open>pci_e1000_init\<close> is given the station address after \<^verbatim>\<open>qemu_macaddr_default_if_unset\<close>, and whether the log
  is open already; a log that cannot be opened, and the registrations with the memory, PCI and network
  layers, are left out.
\<close>

section \<open>Tables\<close>

abbreviation (input) E1000_DEVID :: u16 where "E1000_DEVID \<equiv> E1000_DEV_ID_82540EM"
abbreviation (input) PHY_ID2_INIT :: u16 where "PHY_ID2_INIT \<equiv> 0xc20"
abbreviation (input) PNPMMIO_SIZE :: nat where "PNPMMIO_SIZE \<equiv> 0x20000"

definition e1000_eeprom_template :: "u16 list" where
  "e1000_eeprom_template = [
    0x0000, 0x0000, 0x0000, 0x0000,      0xffff, 0x0000,      0x0000, 0x0000,
    0x3000, 0x1000, 0x6403, E1000_DEVID, 0x8086, E1000_DEVID, 0x8086, 0x3040,
    0x0008, 0x2000, 0x7e14, 0x0048,      0x1000, 0x00d8,      0x0000, 0x2700,
    0x6cc9, 0x3150, 0x0722, 0x040b,      0x0984, 0x0000,      0xc000, 0x0706,
    0x1008, 0x0000, 0x0f04, 0x7fff,      0x4d01, 0xffff,      0xffff, 0xffff,
    0xffff, 0xffff, 0xffff, 0xffff,      0xffff, 0xffff,      0xffff, 0xffff,
    0x0100, 0x4000, 0x121c, 0xffff,      0xffff, 0xffff,      0xffff, 0xffff,
    0xffff, 0xffff, 0xffff, 0xffff,      0xffff, 0xffff,      0xffff, 0x0000]"

definition phy_reg_init :: "nat \<Rightarrow> u16" where
  "phy_reg_init = (\<lambda>_. 0)(
    PHY_CTRL := 0x1140,                   PHY_STATUS := 0x796d,
    PHY_ID1 := 0x141,                     PHY_ID2 := PHY_ID2_INIT,
    PHY_1000T_CTRL := 0x0e00,             M88E1000_PHY_SPEC_CTRL := 0x360,
    M88E1000_EXT_PHY_SPEC_CTRL := 0x0d60, PHY_AUTONEG_ADV := 0xde1,
    PHY_LP_ABILITY := 0x1e0,              PHY_1000T_STATUS := 0x3c00,
    M88E1000_PHY_SPEC_STATUS := 0xac00)"

definition mac_reg_init :: "nat \<Rightarrow> u32" where
  "mac_reg_init = (\<lambda>_. 0)(
    PBA := 0x00100030,
    LEDCTL := 0x602,
    CTRL := E1000_CTRL_SWDPIN2 OR E1000_CTRL_SWDPIN0 OR E1000_CTRL_SPD_1000 OR E1000_CTRL_SLU,
    STATUS := 0x80000000 OR E1000_STATUS_GIO_MASTER_ENABLE OR E1000_STATUS_ASDV OR E1000_STATUS_MTXCKOK OR
              E1000_STATUS_SPEED_1000 OR E1000_STATUS_FD OR E1000_STATUS_LU,
    MANC := E1000_MANC_EN_MNG2HOST OR E1000_MANC_RCV_TCO_EN OR E1000_MANC_ARP_EN OR E1000_MANC_0298_EN OR
            E1000_MANC_RMCP_EN)"

section \<open>Reset\<close>

definition e1000_reset :: "E1000State \<Rightarrow> E1000State" where
  "e1000_reset d = d\<lparr>phy_reg := phy_reg_init, mac_reg := mac_reg_init, rxbuf_min_shift := 1, tx := tx0\<rparr>"

definition qdev_e1000_reset :: "E1000State \<Rightarrow> E1000State" where
  "qdev_e1000_reset d = e1000_reset d"

text \<open>The PCI layer resets the device and then lowers its interrupt line.\<close>

definition pci_device_reset :: "E1000State \<Rightarrow> E1000State" where
  "pci_device_reset d = (qdev_e1000_reset d)\<lparr>irq := False\<rparr>"

section \<open>Start-up\<close>

definition pci_set_word :: "nat \<Rightarrow> u16 \<Rightarrow> (nat \<Rightarrow> u8) \<Rightarrow> nat \<Rightarrow> u8" where
  "pci_set_word off v conf = buf_put conf off (le_bytes 2 v)"

definition e1000_pci_conf :: "(nat \<Rightarrow> u8) \<Rightarrow> nat \<Rightarrow> u8" where
  "e1000_pci_conf conf =
    (let conf = pci_set_word 0x00 0x8086 conf;
         conf = pci_set_word 0x02 E1000_DEVID conf;
         conf = pci_set_word 0x06 0x10 conf;
         conf = conf(0x08 := 0x03);
         conf = pci_set_word 0x0a 0x0200 conf;
         conf = conf(0x0c := 0x10)
     in conf(0x3d := 1))"

text \<open>The EEPROM: the station address, the template, and the word that makes the sum right.\<close>

definition eeprom_mac :: "u8 list \<Rightarrow> (nat \<Rightarrow> u16) \<Rightarrow> nat \<Rightarrow> u16" where
  "eeprom_mac macaddr rom = fold (\<lambda>i rom. rom(i := push_bit 8 (ucast (macaddr ! (2 * i + 1))) OR ucast (macaddr ! (2 * i)))) [0..<3] rom"

definition eeprom_checksum :: "(nat \<Rightarrow> u16) \<Rightarrow> u16" where
  "eeprom_checksum rom = fold (\<lambda>i checksum. checksum + rom i) [0..<EEPROM_CHECKSUM_REG] 0"

definition eeprom_init :: "u8 list \<Rightarrow> nat \<Rightarrow> u16" where
  "eeprom_init macaddr =
    (let rom = eeprom_mac macaddr (\<lambda>i. if i < length e1000_eeprom_template then e1000_eeprom_template ! i else 0)
     in rom(EEPROM_CHECKSUM_REG := EEPROM_SUM - eeprom_checksum rom))"

definition pci_e1000_init ::
  "'w os \<Rightarrow> bool \<Rightarrow> u8 list \<Rightarrow> E1000State \<Rightarrow> (nat \<Rightarrow> u8) \<Rightarrow> ('w, E1000State \<times> (nat \<Rightarrow> u8)) M" where
  "pci_e1000_init os log_open macaddr d pci_conf =
     bindM (if log_open then returnM () else read_options os (Some ''/tmp/e1000.optrc'')) (\<lambda>_.
     returnM (d\<lparr>eeprom_data := eeprom_init macaddr, fs := NO_FS\<rparr>, e1000_pci_conf pci_conf))"

definition pci_e1000_uninit :: "'w os \<Rightarrow> E1000State \<Rightarrow> ('w, i32) M" where
  "pci_e1000_uninit os d = bindM (close_fd os (fs d)) (\<lambda>_. returnM 0)"

section \<open>Coalesced writes\<close>

definition excluded_regs :: "nat list" where
  "excluded_regs = [0x20, 0xC0, 0xC8, 0xD0, 0xD8, 0x400, 0x3818, PNPMMIO_SIZE]"

text \<open>The loop over the excluded registers, and the ranges (offset and length) it registers.\<close>

fun coalesced_loop :: "nat list \<Rightarrow> (nat \<times> nat) list" where
  "coalesced_loop (r # r' # rs) =
    (if r \<noteq> PNPMMIO_SIZE then (r + 4, r' - r - 4) # coalesced_loop (r' # rs) else [])"
| "coalesced_loop _ = []"

definition e1000_mmio_map :: "(nat \<times> nat) list" where
  "e1000_mmio_map = (0, hd excluded_regs) # coalesced_loop excluded_regs"

section \<open>The EEPROM checksum\<close>

text \<open>
  C37: Whatever the station address, the EEPROM holds it in its first three words, low byte first, and its
  64 words add up to the checksum that drivers test for.
\<close>

theorem eeprom_init_ok:
  "(\<Sum>i<64. eeprom_init m i) = 0xBABA \<and>
   eeprom_init m 0 = push_bit 8 (ucast (m ! 1)) OR ucast (m ! 0) \<and>
   eeprom_init m 1 = push_bit 8 (ucast (m ! 3)) OR ucast (m ! 2) \<and>
   eeprom_init m 2 = push_bit 8 (ucast (m ! 5)) OR ucast (m ! 4)"
proof -
  define rom where "rom = eeprom_mac m (\<lambda>i. if i < length e1000_eeprom_template then e1000_eeprom_template ! i else 0)"
  have init: "eeprom_init m = rom(63 := 0xBABA - eeprom_checksum rom)"
    by (simp add: eeprom_init_def Let_def rom_def)
  have fold: "fold (\<lambda>i c. c + rom i) xs c = c + (\<Sum>i\<leftarrow>xs. rom i)" for xs c
    by (induction xs arbitrary: c) (simp_all add: add.assoc)
  have "eeprom_checksum rom = (\<Sum>i<63. rom i)"
    unfolding eeprom_checksum_def fold by (simp add: interv_sum_list_conv_sum_set_nat atLeast0LessThan)
  moreover have "(\<Sum>i<Suc 63. eeprom_init m i) = (\<Sum>i<63. rom i) + (0xBABA - eeprom_checksum rom)"
    unfolding sum.lessThan_Suc init by simp
  moreover have "rom i = push_bit 8 (ucast (m ! (2 * i + 1))) OR ucast (m ! (2 * i))" if "i < 3" for i
    using that unfolding rom_def eeprom_mac_def by (auto simp: less_Suc_eq numeral_3_eq_3)
  from this [of 0] this [of 1] this [of 2]
  have "eeprom_init m 0 = push_bit 8 (ucast (m ! 1)) OR ucast (m ! 0)"
    "eeprom_init m 1 = push_bit 8 (ucast (m ! 3)) OR ucast (m ! 2)"
    "eeprom_init m 2 = push_bit 8 (ucast (m ! 5)) OR ucast (m ! 4)"
    by (simp_all add: init numeral_3_eq_3 [symmetric])
  ultimately show ?thesis by simp
qed

section \<open>Which writes may be delayed\<close>

definition coalesced :: "nat \<Rightarrow> bool" where
  "coalesced x \<longleftrightarrow> list_ex (\<lambda>(off, len). off \<le> x \<and> x < off + len) e1000_mmio_map"

text \<open>
  C39: Writes to every register of the device may be coalesced, except to the seven registers in the list
  of exclusions: the ranges registered are exactly the rest of the register space.
\<close>

theorem mmio_map_coalesces:
  "coalesced x \<longleftrightarrow> x < 0x20000 \<and> x div 4 \<notin> {MDIC, ICR, ICS, IMS, IMC, TCTL, TDT}"
proof -
  have word: "x div 4 = k \<longleftrightarrow> 4 * k \<le> x \<and> x < 4 * k + 4" for k :: nat by auto
  consider "x < 32" | "32 \<le> x" "x < 36" | "36 \<le> x" "x < 192" | "192 \<le> x" "x < 196" | "196 \<le> x" "x < 200"
    | "200 \<le> x" "x < 204" | "204 \<le> x" "x < 208" | "208 \<le> x" "x < 212" | "212 \<le> x" "x < 216"
    | "216 \<le> x" "x < 220" | "220 \<le> x" "x < 1024" | "1024 \<le> x" "x < 1028" | "1028 \<le> x" "x < 14360"
    | "14360 \<le> x" "x < 14364" | "14364 \<le> x"
    by (metis not_less)
  then show ?thesis
    unfolding coalesced_def e1000_mmio_map_def excluded_regs_def by cases (simp_all add: word)
qed

text \<open>The tail of the admin queue triggers a command, but is not among the exclusions.\<close>

lemma atq_tail_coalesced: "coalesced (4 * PF_ATQT)"
  by (simp add: coalesced_def e1000_mmio_map_def excluded_regs_def)

section \<open>After a reset\<close>

lemma reset_irq_ok: "irq_ok (pci_device_reset s)"
  by (simp add: irq_ok_def pci_device_reset_def qdev_e1000_reset_def e1000_reset_def mac_reg_init_def)

lemma reset_ring_ok: "rxbuf_size s \<in> {0, 256, 512, 1024, 2048, 4096, 8192, 16384} \<Longrightarrow> ring_ok (pci_device_reset s)"
  by (simp add: ring_ok_def pci_device_reset_def qdev_e1000_reset_def e1000_reset_def mac_reg_init_def)

lemma reset_rom: "eeprom_data (pci_device_reset s) = eeprom_data s"
  by (simp add: pci_device_reset_def qdev_e1000_reset_def e1000_reset_def)

end
