(* ===== verification/E1000_Rx.thy ===== *)
theory E1000_Rx
  imports E1000_Tx
begin

text \<open>
  The receive side of the device (\<^verbatim>\<open>receive_filter\<close> and \<^verbatim>\<open>e1000_receive\<close> of \<^verbatim>\<open>hw/e1000.c\<close>): address and VLAN
  filtering, the walk over the receive descriptor ring to the first usable buffer, the write-back of
  descriptor and counters, and the interrupt causes. A frame is the list of its bytes; the filter is
  only applied to frames that have been padded to 60 bytes.
\<close>

section \<open>Filtering\<close>

abbreviation (input) MIN_BUF_SIZE :: nat where "MIN_BUF_SIZE \<equiv> 60"

definition bcast :: "u8 list" where
  "bcast = [0xff, 0xff, 0xff, 0xff, 0xff, 0xff]"

definition mta_shift :: "nat list" where
  "mta_shift = [4, 3, 2, 0]"

definition vlan_vid :: "u8 list \<Rightarrow> u16" where
  "vlan_vid buf = be_word (take 2 (drop 14 buf))"

definition ra_bytes :: "E1000State \<Rightarrow> nat \<Rightarrow> u8 list" where
  "ra_bytes s i = take 6 (le_bytes 4 (mac_reg s (RA + 2 * i)) @ le_bytes 4 (mac_reg s (RA + 2 * i + 1)))"

definition ra_match :: "E1000State \<Rightarrow> u8 list \<Rightarrow> bool" where
  "ra_match s buf \<longleftrightarrow> list_ex (\<lambda>i. mac_reg s (RA + 2 * i + 1) AND E1000_RAH_AV \<noteq> 0 \<and> take 6 buf = ra_bytes s i) [0..<16]"

definition mta_hash :: "E1000State \<Rightarrow> u8 list \<Rightarrow> nat" where
  "mta_hash s buf =
    (let sh = mta_shift ! unat (drop_bit E1000_RCTL_MO_SHIFT (mac_reg s RCTL) AND 3)
     in unat (drop_bit sh (push_bit 8 (ucast (buf ! 5)) OR ucast (buf ! 4) :: u32) AND 0xfff))"

definition receive_filter :: "E1000State \<Rightarrow> u8 list \<Rightarrow> bool" where
  "receive_filter s buf =
    (let rctl = mac_reg s RCTL; vid = vlan_vid buf in
     if is_vlan_packet s buf \<and> vlan_rx_filter_enabled s \<and>
        \<not> bit (mac_reg s (VFTA + unat (drop_bit 5 vid AND 0x7f))) (unat (vid AND 0x1f)) then False
     else if rctl AND E1000_RCTL_UPE \<noteq> 0 then True
     else if buf ! 0 AND 1 \<noteq> 0 \<and> rctl AND E1000_RCTL_MPE \<noteq> 0 then True
     else if rctl AND E1000_RCTL_BAM \<noteq> 0 \<and> take 6 buf = bcast then True
     else if ra_match s buf then True
     else let f = mta_hash s buf in bit (mac_reg s (MTA + f div 32)) (f mod 32))"

section \<open>Receiving a frame\<close>

definition pad_frame :: "u8 list \<Rightarrow> u8 list" where
  "pad_frame buf = (if length buf < MIN_BUF_SIZE then buf @ replicate (MIN_BUF_SIZE - length buf) 0 else buf)"

text \<open>Storing the frame through the descriptor at the head of the ring; the result tells whether it had a buffer.\<close>

definition rx_store :: "u8 list \<Rightarrow> u16 \<Rightarrow> u8 \<Rightarrow> nic \<Rightarrow> bool \<times> nic" where
  "rx_store frame vlan_special vlan_status n =
    (let s = dev n;
         base = ring_addr (mac_reg s RDBAH) (mac_reg s RDBAL) (mac_reg s RDH);
         desc = decode_rx_desc (mem_read (ram n) base 16);
         desc = desc\<lparr>rd_special := vlan_special, rd_status := rd_status desc OR (vlan_status OR E1000_RXD_STAT_DD)\<rparr>;
         used = (rd_buffer_addr desc \<noteq> 0);
         m = (if used then mem_write (ram n) (rd_buffer_addr desc) frame else ram n);
         desc = (if used then desc\<lparr>rd_length := of_nat (length frame + fcs_len s),
                                    rd_status := rd_status desc OR (E1000_RXD_STAT_EOP OR E1000_RXD_STAT_IXSM)\<rparr>
                 else desc)
     in (used, n\<lparr>ram := mem_write m base (encode_rx_desc desc),
                 dev := (put_reg RDH (ring_next (mac_reg s RDLEN) (mac_reg s RDH)) s)\<lparr>check_rxov := True\<rparr>\<rparr>))"

definition rx_overrun :: "nic \<Rightarrow> nic" where
  "rx_overrun n = n\<lparr>dev := set_ics (dev n) 0 E1000_ICS_RXO\<rparr>"

fun rx_loop :: "nat \<Rightarrow> u32 \<Rightarrow> u8 list \<Rightarrow> u16 \<Rightarrow> u8 \<Rightarrow> nic \<Rightarrow> (bool \<times> nic) outcome" where
  "rx_loop 0 rdh_start frame sp st n = Fault No_Return"
| "rx_loop (Suc fuel) rdh_start frame sp st n =
    (if mac_reg (dev n) RDH = mac_reg (dev n) RDT \<and> check_rxov (dev n) then Ok (False, rx_overrun n)
     else let (used, n) = rx_store frame sp st n
          in if mac_reg (dev n) RDH = rdh_start then Ok (False, rx_overrun n)
             else if used then Ok (True, n)
             else rx_loop fuel rdh_start frame sp st n)"

definition rx_counters :: "nat \<Rightarrow> E1000State \<Rightarrow> E1000State" where
  "rx_counters size' s =
    (let s = put_reg GPRC (mac_reg s GPRC + 1) s;
         s = put_reg TPR (mac_reg s TPR + 1) s;
         n = mac_reg s TORL + of_nat size' + 4;
         s = (if n < mac_reg s TORL then put_reg TORH (mac_reg s TORH + 1) s else s)
     in put_reg TORL n s)"

definition rx_causes :: "E1000State \<Rightarrow> u32" where
  "rx_causes s =
    (let rdt = (if mac_reg s RDT < mac_reg s RDH then mac_reg s RDT + mac_reg s RDLEN div 16 else mac_reg s RDT)
     in if unat (rdt - mac_reg s RDH) * 16 \<le> unat (drop_bit (unat (rxbuf_min_shift s)) (mac_reg s RDLEN))
        then E1000_ICS_RXT0 OR E1000_ICS_RXDMT0 else E1000_ICS_RXT0)"

definition rx_finish :: "nat \<Rightarrow> nic \<Rightarrow> nic" where
  "rx_finish size' n = (let s = rx_counters size' (dev n) in n\<lparr>dev := set_ics s 0 (rx_causes s)\<rparr>)"

text \<open>A VLAN tag is moved from the frame to the descriptor when the device strips tags.\<close>

definition rx_tagged :: "E1000State \<Rightarrow> u8 list \<Rightarrow> bool" where
  "rx_tagged s buf \<longleftrightarrow> vlan_enabled s \<and> is_vlan_packet s buf"

definition rx_special :: "E1000State \<Rightarrow> u8 list \<Rightarrow> u16" where
  "rx_special s buf = (if rx_tagged s buf then vlan_vid buf else 0)"

definition rx_vlan_status :: "E1000State \<Rightarrow> u8 list \<Rightarrow> u8" where
  "rx_vlan_status s buf = (if rx_tagged s buf then E1000_RXD_STAT_VP else 0)"

definition rx_frame :: "E1000State \<Rightarrow> u8 list \<Rightarrow> u8 list" where
  "rx_frame s buf = (if rx_tagged s buf then take 12 buf @ drop 16 buf else buf)"

definition e1000_receive :: "nat \<Rightarrow> nic \<Rightarrow> u8 list \<Rightarrow> (int \<times> nic) outcome" where
  "e1000_receive fuel n buf =
    (let s = dev n in
     if mac_reg s RCTL AND E1000_RCTL_EN = 0 then Ok (-1, n)
     else
       let buf = pad_frame buf in
       if length buf > unat (rxbuf_size s) then Ok (-1, n)
       else if \<not> receive_filter s buf then Ok (int (length buf), n)
       else
         let frame = rx_frame s buf in
         bindO (rx_loop fuel (mac_reg s RDH) frame (rx_special s buf) (rx_vlan_status s buf) n) (\<lambda>(ok, n).
         if \<not> ok then Ok (-1, n)
         else Ok (int (length frame), rx_finish (length frame) n)))"

section \<open>Invariants\<close>

lemma rx_store_sel:
  "mac_reg (dev (snd (rx_store frame sp st n))) =
     (mac_reg (dev n))(RDH := ring_next (mac_reg (dev n) RDLEN) (mac_reg (dev n) RDH))"
  "check_rxov (dev (snd (rx_store frame sp st n)))" "sent (snd (rx_store frame sp st n)) = sent n"
  by (auto simp: rx_store_def Let_def fun_eq_iff)

lemma receive_loop:
  assumes "e1000_receive fuel n buf = Ok (r, n')" and "n' \<noteq> n"
  obtains h frame sp st ok m where "rx_loop fuel h frame sp st n = Ok (ok, m)"
    and "n' = m \<or> n' = rx_finish (length frame) m"
  using assms unfolding e1000_receive_def Let_def by (auto simp: bindO_eq_Ok_conv split: if_splits)

context device_invariant
begin

lemma inv_rx_store:
  assumes "I (dev n)" and "unat (mac_reg (dev n) RDLEN) \<le> 0xfffff"
  shows "I (dev (snd (rx_store frame sp st n)))"
  using assms ring_next_16bit by (simp add: rx_store_def Let_def other ring)

lemma inv_rx_loop:
  assumes "rx_loop fuel h frame sp st n = Ok (ok, n')" and "I (dev n)" and "unat (mac_reg (dev n) RDLEN) \<le> 0xfffff"
  shows "I (dev n')"
  using assms
proof (induction fuel arbitrary: n)
  case (Suc fuel)
  let ?m = "snd (rx_store frame sp st n)"
  have "I (dev ?m)" "mac_reg (dev ?m) RDLEN = mac_reg (dev n) RDLEN"
    using inv_rx_store Suc.prems by (simp_all add: rx_store_sel)
  then show ?case
    using Suc.prems Suc.IH [of ?m] by (auto simp: case_prod_unfold Let_def rx_overrun_def inv_ics split: if_splits)
qed simp

lemma inv_rx_finish: "I (dev n) \<Longrightarrow> I (dev (rx_finish k n))"
  by (simp add: rx_finish_def rx_counters_def Let_def inv_ics free free_reg_def)

lemma inv_receive:
  assumes "e1000_receive fuel n buf = Ok (r, n')" and "I (dev n)" and "unat (mac_reg (dev n) RDLEN) \<le> 0xfffff"
  shows "I (dev n')"
proof (cases "n' = n")
  case False
  with assms(1) obtain h frame sp st ok m where "rx_loop fuel h frame sp st n = Ok (ok, m)"
    and "n' = m \<or> n' = rx_finish (length frame) m"
    by (rule receive_loop)
  then show ?thesis using inv_rx_loop assms(2,3) inv_rx_finish by auto
qed (use assms in simp)

end

section \<open>Delivery\<close>

lemma mem_read_write_apart:
  assumes "\<forall>i<k. length bs \<le> unat (a + of_nat i - b)"
  shows "mem_read (mem_write m b bs) a k = mem_read m a k"
  using assms by (intro nth_equalityI) (auto simp: mem_write_def not_less [symmetric])

text \<open>The descriptor that the driver finds after a frame has been stored through it.\<close>

definition rx_done :: "E1000State \<Rightarrow> u8 list \<Rightarrow> u16 \<Rightarrow> u8 \<Rightarrow> e1000_rx_desc \<Rightarrow> e1000_rx_desc" where
  "rx_done s frame sp st d = d\<lparr>rd_special := sp, rd_length := of_nat (length frame + fcs_len s),
     rd_status := (rd_status d OR (st OR E1000_RXD_STAT_DD)) OR (E1000_RXD_STAT_EOP OR E1000_RXD_STAT_IXSM)\<rparr>"

definition rx_slot :: "nic \<Rightarrow> u64" where
  "rx_slot n = ring_addr (mac_reg (dev n) RDBAH) (mac_reg (dev n) RDBAL) (mac_reg (dev n) RDH)"

definition rx_desc :: "nic \<Rightarrow> e1000_rx_desc" where
  "rx_desc n = decode_rx_desc (mem_read (ram n) (rx_slot n) 16)"

lemma rx_store_used:
  assumes "rd_buffer_addr (rx_desc n) \<noteq> 0"
    and "\<forall>i<length frame. 16 \<le> unat (rd_buffer_addr (rx_desc n) + of_nat i - rx_slot n)" and "length frame \<le> 65536"
  shows "fst (rx_store frame sp st n)"
    and "mem_read (ram (snd (rx_store frame sp st n))) (rd_buffer_addr (rx_desc n)) (length frame) = frame"
    and "decode_rx_desc (mem_read (ram (snd (rx_store frame sp st n))) (rx_slot n) 16) = rx_done (dev n) frame sp st (rx_desc n)"
proof -
  let ?m = "mem_write (ram n) (rd_buffer_addr (rx_desc n)) frame"
  have r: "ram (snd (rx_store frame sp st n)) = mem_write ?m (rx_slot n) (encode_rx_desc (rx_done (dev n) frame sp st (rx_desc n)))"
    and "fst (rx_store frame sp st n)"
    using assms(1) by (simp_all add: rx_store_def Let_def rx_slot_def rx_desc_def rx_done_def)
  then show "fst (rx_store frame sp st n)" by simp
  show "mem_read (ram (snd (rx_store frame sp st n))) (rd_buffer_addr (rx_desc n)) (length frame) = frame"
    unfolding r using assms(2,3) by (simp add: mem_read_write_apart mem_read_mem_write_same)
  show "decode_rx_desc (mem_read (ram (snd (rx_store frame sp st n))) (rx_slot n) 16) = rx_done (dev n) frame sp st (rx_desc n)"
    unfolding r by (simp add: mem_read_mem_write_same)
qed

lemma rx_finish_sel:
  "ram (rx_finish k n) = ram n" "mac_reg (dev (rx_finish k n)) RDH = mac_reg (dev n) RDH"
  "mac_reg (dev (rx_finish k n)) GPRC = mac_reg (dev n) GPRC + 1" "bit (mac_reg (dev (rx_finish k n)) ICR) 7"
proof -
  have "bit (rx_causes s) 7" for s by (simp add: rx_causes_def Let_def bit_or_iff)
  then have "bit (asserted (rx_causes s OR c)) 7" for s c by (intro asserted_keeps) (simp add: bit_or_iff)
  then show "bit (mac_reg (dev (rx_finish k n)) ICR) 7" by (simp add: rx_finish_def Let_def)
qed (simp_all add: rx_finish_def rx_counters_def Let_def)

text \<open>
  C15: A frame is delivered. When the receiver is enabled, the padded frame fits the configured buffer
  size and passes the filter, the ring is not exhausted and has another slot after its head, and the
  descriptor at the head has a buffer that does not overlap the descriptor, \<^verbatim>\<open>e1000_receive\<close> accepts the
  frame: the buffer holds it, the descriptor reports its length and is marked done, the head advances by
  one, and the receive interrupt cause is pending.
\<close>

theorem receive_delivers:
  assumes "e1000_can_receive (dev n)" and "length (pad_frame buf) \<le> unat (rxbuf_size (dev n))"
    and "receive_filter (dev n) (pad_frame buf)"
    and "\<not> (mac_reg (dev n) RDH = mac_reg (dev n) RDT \<and> check_rxov (dev n))"
    and "ring_next (mac_reg (dev n) RDLEN) (mac_reg (dev n) RDH) \<noteq> mac_reg (dev n) RDH"
    and "rd_buffer_addr (rx_desc n) \<noteq> 0"
    and "\<forall>i<length (rx_frame (dev n) (pad_frame buf)). 16 \<le> unat (rd_buffer_addr (rx_desc n) + of_nat i - rx_slot n)"
    and "length buf \<le> 65536" and "0 < fuel"
  shows "let frame = rx_frame (dev n) (pad_frame buf) in
    \<exists>n'. e1000_receive fuel n buf = Ok (int (length frame), n') \<and>
      mem_read (ram n') (rd_buffer_addr (rx_desc n)) (length frame) = frame \<and>
      decode_rx_desc (mem_read (ram n') (rx_slot n) 16) =
        rx_done (dev n) frame (rx_special (dev n) (pad_frame buf)) (rx_vlan_status (dev n) (pad_frame buf)) (rx_desc n) \<and>
      mac_reg (dev n') RDH = ring_next (mac_reg (dev n) RDLEN) (mac_reg (dev n) RDH) \<and>
      mac_reg (dev n') GPRC = mac_reg (dev n) GPRC + 1 \<and> bit (mac_reg (dev n') ICR) 7"
proof -
  let ?b = "pad_frame buf" and ?s = "dev n"
  let ?f = "rx_frame ?s ?b" and ?sp = "rx_special ?s ?b" and ?st = "rx_vlan_status ?s ?b"
  let ?m = "snd (rx_store ?f ?sp ?st n)"
  have "length ?f \<le> 65536" using assms(8) by (auto simp: rx_frame_def pad_frame_def)
  note st = rx_store_used [OF assms(6,7) this, of ?sp ?st]
  obtain k where k: "fuel = Suc k" using assms(9) by (cases fuel) auto
  have "rx_loop fuel (mac_reg ?s RDH) ?f ?sp ?st n = Ok (True, ?m)"
    using assms(4,5) st(1) by (auto simp: k case_prod_unfold Let_def rx_store_sel)
  then have "e1000_receive fuel n buf = Ok (int (length ?f), rx_finish (length ?f) ?m)"
    using assms(1-3) by (simp add: e1000_receive_def e1000_can_receive_def Let_def)
  then show ?thesis
    using st by (simp add: Let_def rx_finish_sel rx_store_sel)
qed

section \<open>Reception ends\<close>

lemma rx_loop_steps:
  assumes "(ring_next (mac_reg (dev n) RDLEN) ^^ k) (mac_reg (dev n) RDH) = t"
    and "t = h \<or> t = mac_reg (dev n) RDT" and "1 \<le> k" and "k < fuel"
  shows "\<exists>r. rx_loop fuel h frame sp st n = Ok r"
  using assms
proof (induction fuel arbitrary: n k)
  case (Suc fuel)
  let ?m = "snd (rx_store frame sp st n)"
  have s: "mac_reg (dev ?m) RDLEN = mac_reg (dev n) RDLEN" "mac_reg (dev ?m) RDT = mac_reg (dev n) RDT"
    "mac_reg (dev ?m) RDH = ring_next (mac_reg (dev n) RDLEN) (mac_reg (dev n) RDH)" "check_rxov (dev ?m)"
    by (simp_all add: rx_store_sel)
  obtain j where j: "k = Suc j" using Suc.prems(3) by (cases k) auto
  have t: "(ring_next (mac_reg (dev ?m) RDLEN) ^^ j) (mac_reg (dev ?m) RDH) = t"
    using Suc.prems(1) by (simp add: j s funpow_swap1)
  have "\<exists>r. rx_loop fuel h frame sp st ?m = Ok r" if "mac_reg (dev ?m) RDH \<noteq> h"
  proof (cases "j = 0")
    case True
    then have "mac_reg (dev ?m) RDH = mac_reg (dev ?m) RDT" using t that Suc.prems(2) s(2) by simp
    then show ?thesis using s(4) Suc.prems(4) j by (cases fuel) auto
  next
    case False
    then show ?thesis using Suc.IH [OF t] Suc.prems(2,4) s(2) j by simp
  qed
  then show ?case by (auto simp: case_prod_unfold Let_def)
qed simp

lemma receive_returns:
  assumes "ring_ok (dev n)" and "131072 \<le> fuel"
    and "in_ring (mac_reg (dev n) RDLEN) (mac_reg (dev n) RDH) \<or> in_ring (mac_reg (dev n) RDLEN) (mac_reg (dev n) RDT)"
  shows "\<exists>r n'. e1000_receive fuel n buf = Ok (r, n')"
proof -
  let ?s = "dev n"
  obtain t where t: "t = mac_reg ?s RDH \<or> t = mac_reg ?s RDT" "in_ring (mac_reg ?s RDLEN) t" using assms(3) by blast
  then obtain k where "1 \<le> k" "k \<le> 131057" "(ring_next (mac_reg ?s RDLEN) ^^ k) (mac_reg ?s RDH) = t"
    using ring_reaches [OF _ _ t(2)] ring_ok_bounds [OF assms(1)] by blast
  then have "\<exists>r. rx_loop fuel (mac_reg ?s RDH) frame sp st n = Ok r" for frame sp st
    using rx_loop_steps [OF _ t(1), of k fuel] assms(2) by simp
  then obtain r where "rx_loop fuel (mac_reg ?s RDH) (rx_frame ?s (pad_frame buf)) (rx_special ?s (pad_frame buf))
      (rx_vlan_status ?s (pad_frame buf)) n = Ok r"
    by blast
  then show ?thesis
    by (cases r; cases "fst r") (simp_all add: e1000_receive_def Let_def)
qed

text \<open>
  C17: Reception ends. When the head or the tail of the receive ring lies inside the ring, \<^verbatim>\<open>e1000_receive\<close>
  returns on every frame within two rounds over the largest possible ring, however many descriptors
  without a buffer it has to skip.
\<close>

theorem receive_ends:
  assumes "ring_ok (dev n)" and "131072 \<le> fuel"
    and "in_ring (mac_reg (dev n) RDLEN) (mac_reg (dev n) RDH) \<or> in_ring (mac_reg (dev n) RDLEN) (mac_reg (dev n) RDT)"
  shows "\<exists>r n'. e1000_receive fuel n buf = Ok (r, n')"
  using assms by (rule receive_returns)

section \<open>Exact filtering\<close>

lemma mta_hash_bound: "mta_hash s buf < 4096"
  using unat_and_mask [where n = 12 and 'a = 32] by (simp add: mta_hash_def Let_def mask_eq_exp_minus_1)

text \<open>
  C21: Exact filtering of unicast frames. With promiscuous mode off, an empty multicast table and no VLAN
  tag, a unicast frame passes exactly when its destination is the address in one of the sixteen receive
  address registers that is marked valid.
\<close>

theorem unicast_filter:
  assumes "mac_reg s RCTL AND E1000_RCTL_UPE = 0" and "\<forall>i<128. mac_reg s (MTA + i) = 0"
    and "\<not> is_vlan_packet s buf" and "buf ! 0 AND 1 = 0" and "6 \<le> length buf"
  shows "receive_filter s buf \<longleftrightarrow>
    (\<exists>i<16. mac_reg s (RA + 2 * i + 1) AND E1000_RAH_AV \<noteq> 0 \<and> take 6 buf = ra_bytes s i)"
proof -
  have "take 6 buf \<noteq> bcast"
  proof
    assume "take 6 buf = bcast"
    then have "take 6 buf ! 0 = bcast ! 0" by simp
    then show False using assms(4,5) by (simp add: bcast_def)
  qed
  moreover have "mac_reg s (MTA + mta_hash s buf div 32) = 0"
    using assms(2) mta_hash_bound [of s buf] by (simp add: less_mult_imp_div_less)
  ultimately have "receive_filter s buf = ra_match s buf"
    using assms(1,3,4) by (simp add: receive_filter_def Let_def)
  then show ?thesis by (auto simp: ra_match_def list_ex_iff)
qed

section \<open>A ring without buffers\<close>

text \<open>
  With head and tail both outside the ring and no buffer in any descriptor, the walk over the receive
  ring never ends. The base of the ring is address 0, so that the buffer addresses are the bytes at
  addresses whose remainder modulo 16 is less than 8.
\<close>

definition no_buffers :: "gmem \<Rightarrow> bool" where
  "no_buffers m \<longleftrightarrow> (\<forall>a. unat a mod 16 < 8 \<longrightarrow> m a = 0)"

lemma slot_offset: "unat (a - 16 * b :: u64) mod 16 = unat a mod 16"
proof -
  have "unat a = (unat (a - 16 * b) + 16 * unat b) mod 18446744073709551616"
    using unat_word_ariths(1) [of "a - 16 * b" "16 * b"] by (simp add: unat_word_ariths(2) mod_simps)
  then show ?thesis using mod_mod_cancel [of 16 "18446744073709551616 :: nat"] by simp
qed

lemma no_buffers_desc:
  assumes "no_buffers m"
  shows "rd_buffer_addr (decode_rx_desc (mem_read m (ring_addr 0 0 i) 16)) = 0"
proof -
  have "m (16 * ucast i + of_nat k) = 0" if "k < 8" for k
  proof -
    have "unat (16 * ucast i + of_nat k :: u64) mod 16 = unat (of_nat k :: u64) mod 16"
      using slot_offset [of "16 * ucast i + of_nat k" "ucast i"] by simp
    then show ?thesis using assms that by (simp add: no_buffers_def unat_of_nat take_bit_nat_eq_self)
  qed
  then have "take 8 (mem_read m (ring_addr 0 0 i) 16) = replicate 8 0"
    by (intro nth_equalityI) (simp_all add: ring_addr_def)
  moreover have "le_word (replicate k 0) = (0 :: u64)" for k by (induction k) simp_all
  ultimately show ?thesis by (simp add: decode_rx_desc_def)
qed

lemma no_buffers_write:
  assumes "no_buffers m" and "rd_buffer_addr d = 0"
  shows "no_buffers (mem_write m (ring_addr 0 0 i) (encode_rx_desc d))"
proof -
  have z: "le_bytes k (0 :: u64) = replicate k 0" for k by (induction k) simp_all
  have "encode_rx_desc d ! k = 0" if "k < 8" for k
    using that assms(2) by (simp add: encode_rx_desc_def nth_append z)
  moreover have "unat (a - ring_addr 0 0 i) = unat a mod 16" if "unat (a - ring_addr 0 0 i) < 16" for a
    using that slot_offset [of a "ucast i"] by (simp add: ring_addr_def)
  ultimately show ?thesis
    using assms(1) by (auto simp: no_buffers_def mem_write_def)
qed

lemma rx_loop_endless:
  assumes "no_buffers (ram n)" and "mac_reg (dev n) RDBAH = 0" and "mac_reg (dev n) RDBAL = 0"
    and "mac_reg (dev n) RDLEN = 0x80" and "mac_reg (dev n) RDT = 200" and "unat (mac_reg (dev n) RDH) \<le> 100"
  shows "rx_loop fuel 100 frame sp st n = Fault No_Return"
  using assms
proof (induction fuel arbitrary: n)
  case (Suc fuel)
  let ?i = "mac_reg (dev n) RDH" and ?m = "snd (rx_store frame sp st n)"
  have u: "\<not> fst (rx_store frame sp st n)" and nb: "no_buffers (ram ?m)"
    using no_buffers_desc [OF Suc.prems(1), of ?i] Suc.prems(1-3) no_buffers_write
    by (simp_all add: rx_store_def Let_def)
  have "unat (?i + 1) = unat ?i + 1" using Suc.prems(6) by (simp add: unat_word_ariths)
  then have r: "unat (ring_next 0x80 ?i) \<le> 7" by (simp add: ring_next_def)
  then have "ring_next 0x80 ?i \<noteq> 100" "?i \<noteq> 200" using Suc.prems(6) by auto
  then show ?case using Suc.IH [OF nb] u r Suc.prems(2-5) by (simp add: case_prod_unfold Let_def rx_store_sel)
qed simp

section \<open>Applications at concrete inputs\<close>

text \<open>A receiver in promiscuous mode whose first descriptor, at address 0, has a buffer at \<open>0x1000\<close>.\<close>

definition nic_rx :: nic where
  "nic_rx = \<lparr>dev = dev0\<lparr>mac_reg := (\<lambda>_. 0)(RCTL := E1000_RCTL_EN OR E1000_RCTL_UPE, RDLEN := 0x80, RDT := 4),
     rxbuf_size := 2048, rxbuf_min_shift := 1\<rparr>, ram = (\<lambda>a. if a = 1 then 0x10 else 0), sent = []\<rparr>"

theorem receive_delivers_witness:
  "\<exists>n'. e1000_receive 1 nic_rx [1, 2, 3] = Ok (60, n') \<and> mem_read (ram n') 0x1000 60 = [1, 2, 3] @ replicate 57 0"
proof -
  have sel: "mac_reg (dev nic_rx) RDH = 0" "mac_reg (dev nic_rx) RDT = 4" "mac_reg (dev nic_rx) RDLEN = 0x80"
    "rxbuf_size (dev nic_rx) = 2048" "rx_slot nic_rx = 0" "ring_next 0x80 0 = 1" "vlan_enabled (dev nic_rx) = False"
    "e1000_can_receive (dev nic_rx)" "receive_filter (dev nic_rx) b" for b
    by (simp_all add: nic_rx_def dev0_def rx_slot_def ring_addr_def ring_next_def vlan_enabled_def
        e1000_can_receive_def receive_filter_def vlan_rx_filter_enabled_def)
  have d: "rd_buffer_addr (rx_desc nic_rx) = 0x1000"
    by (simp add: rx_desc_def sel(5)) (simp add: nic_rx_def decode_rx_desc_def mem_read_def upt_rec)
  have p: "pad_frame [1, 2, 3] = [1, 2, 3] @ replicate 57 0" "rx_frame (dev nic_rx) b = b" for b
    by (simp_all add: pad_frame_def rx_frame_def rx_tagged_def sel(7))
  have "16 \<le> unat (0x1000 + of_nat i :: u64)" if "i < 60" for i
    using that by (simp add: unat_word_ariths unat_of_nat take_bit_nat_eq_self)
  then show ?thesis
    using receive_delivers [of nic_rx "[1, 2, 3]" 1] sel d unfolding p by (simp add: Let_def) blast
qed

theorem receive_ends_witness:
  "in_ring 0x80 (4 :: u32) \<and> (\<exists>r n'. e1000_receive 131072 nic_rx [1, 2, 3] = Ok (r, n'))"
proof -
  have "ring_ok (dev nic_rx)" "mac_reg (dev nic_rx) RDLEN = 0x80" "mac_reg (dev nic_rx) RDT = 4"
    by (simp_all add: ring_ok_def nic_rx_def dev0_def)
  moreover have "in_ring 0x80 (4 :: u32)" by (simp add: in_ring_def)
  ultimately show ?thesis using receive_ends [of nic_rx 131072 "[1, 2, 3]"] by simp
qed

text \<open>The address \<^verbatim>\<open>52:54:00:12:34:56\<close> in the first receive address register.\<close>

definition dev_ra :: E1000State where
  "dev_ra = dev0\<lparr>mac_reg := (\<lambda>_. 0)(VET := 0x8100, RA := 0x12005452, RA + 1 := 0x80005634)\<rparr>"

lemma le_bytes_4: "le_bytes 4 (w :: u32) = [ucast w, ucast (drop_bit 8 w), ucast (drop_bit 16 w), ucast (drop_bit 24 w)]"
proof -
  have "(4 :: nat) = Suc (Suc (Suc (Suc 0)))" by simp
  then show ?thesis by (simp only: le_bytes.simps drop_bit_drop_bit) simp
qed

theorem unicast_filter_witness:
  "receive_filter dev_ra ([0x52, 0x54, 0x00, 0x12, 0x34, 0x56] @ replicate 54 0)"
proof -
  let ?b = "[0x52, 0x54, 0x00, 0x12, 0x34, 0x56] @ replicate 54 0 :: u8 list"
  have "(be_word (take 2 (drop 12 ?b)) :: u16) = 0" by code_simp
  then have v: "\<not> is_vlan_packet dev_ra ?b"
    by (simp only: is_vlan_packet_def) (simp add: dev_ra_def)
  have ra: "take 6 ?b = ra_bytes dev_ra 0"
    by (simp add: ra_bytes_def dev_ra_def le_bytes_4)
  have "\<exists>i<16. mac_reg dev_ra (RA + 2 * i + 1) AND E1000_RAH_AV \<noteq> 0 \<and> take 6 ?b = ra_bytes dev_ra i"
    by (intro exI [of _ 0] conjI ra) (simp_all add: dev_ra_def)
  then show ?thesis
    using unicast_filter [of dev_ra ?b] v by (simp add: dev_ra_def dev0_def)
qed

end
