(* ===== verification/E1000_MMIO.thy ===== *)
theory E1000_MMIO
  imports E1000_Init E1000_Rx
begin

text \<open>
  The device as the guest and the network see it (\<^verbatim>\<open>hw/e1000.c\<close>): the tables that send a register access
  to its handler, and the memory-mapped reads and writes of all three widths. The events of a device are
  a step relation; what a reset establishes and every handler keeps holds in every state the device can
  reach.
\<close>

section \<open>Register tables\<close>

datatype read_op = Op_mac_readreg | Op_mac_read_clr4 | Op_mac_read_clr8 | Op_mac_icr_read | Op_get_eecd | Op_flash_eerd_read

datatype write_op = Op_mac_writereg | Op_set_dlen | Op_set_tctl | Op_set_mdic | Op_set_ics | Op_set_16bit | Op_set_rdt
  | Op_set_imc | Op_set_ims | Op_set_icr | Op_set_eecd | Op_set_rx_control | Op_set_ctrl | Op_set_atq_tail

definition reg_range :: "nat \<Rightarrow> nat \<Rightarrow> nat \<Rightarrow> bool" where
  "reg_range i lo hi \<longleftrightarrow> lo \<le> i \<and> i \<le> hi"

definition macreg_readops :: "nat \<Rightarrow> read_op option" where
  "macreg_readops i =
    (if i \<in> {PBA, RCTL, TDH, TXDCTL, WUFC, TDT, CTRL, LEDCTL, MANC, MDIC, SWSM, STATUS, TORL, TOTL, IMS, TCTL,
             RDH, RDT, VET, ICS, TDBAL, TDBAH, RDBAH, RDBAL, TDLEN, RDLEN} then Some Op_mac_readreg
     else if i \<in> {TOTH, TORH} then Some Op_mac_read_clr8
     else if i \<in> {GPRC, GPTC, TPR, TPT} then Some Op_mac_read_clr4
     else if i = ICR then Some Op_mac_icr_read
     else if i = EECD then Some Op_get_eecd
     else if i = EERD then Some Op_flash_eerd_read
     else if reg_range i CRCERRS MPC \<or> reg_range i RA (RA + 31) \<or> reg_range i MTA (MTA + 127) \<or>
             reg_range i VFTA (VFTA + 127) \<or> i \<in> {PF_ATQBAH, PF_ATQBAL, PF_ATQLEN, PF_ATQH, PF_ATQT}
     then Some Op_mac_readreg
     else None)"

definition macreg_writeops :: "nat \<Rightarrow> write_op option" where
  "macreg_writeops i =
    (if i \<in> {PBA, EERD, SWSM, WUFC, TDBAL, TDBAH, TXDCTL, RDBAH, RDBAL, LEDCTL, VET} then Some Op_mac_writereg
     else if i \<in> {TDLEN, RDLEN} then Some Op_set_dlen
     else if i \<in> {TCTL, TDT} then Some Op_set_tctl
     else if i = MDIC then Some Op_set_mdic
     else if i = ICS then Some Op_set_ics
     else if i \<in> {TDH, RDH} then Some Op_set_16bit
     else if i = RDT then Some Op_set_rdt
     else if i = IMC then Some Op_set_imc
     else if i = IMS then Some Op_set_ims
     else if i = ICR then Some Op_set_icr
     else if i = EECD then Some Op_set_eecd
     else if i = RCTL then Some Op_set_rx_control
     else if i = CTRL then Some Op_set_ctrl
     else if reg_range i RA (RA + 31) \<or> reg_range i MTA (MTA + 127) \<or> reg_range i VFTA (VFTA + 127) \<or>
             i \<in> {PF_ATQBAH, PF_ATQBAL, PF_ATQLEN, PF_ATQH}
     then Some Op_mac_writereg
     else if i = PF_ATQT then Some Op_set_atq_tail
     else None)"

fun run_read_op :: "read_op \<Rightarrow> E1000State \<Rightarrow> nat \<Rightarrow> u32 \<times> E1000State" where
  "run_read_op Op_mac_readreg s i = (mac_readreg s i, s)"
| "run_read_op Op_mac_read_clr4 s i = mac_read_clr4 s i"
| "run_read_op Op_mac_read_clr8 s i = mac_read_clr8 s i"
| "run_read_op Op_mac_icr_read s i = mac_icr_read s i"
| "run_read_op Op_get_eecd s i = (get_eecd s i, s)"
| "run_read_op Op_flash_eerd_read s i = (flash_eerd_read s i, s)"

text \<open>Most handlers touch only the device; two reach memory, network and firmware.\<close>

definition lift_out :: "'a outcome \<Rightarrow> ('w, 'a) M" where
  "lift_out r = (\<lambda>h. bindO r (\<lambda>x. Ok (x, h)))"

definition on_dev :: "(E1000State \<Rightarrow> nat \<Rightarrow> u32 \<Rightarrow> E1000State) \<Rightarrow> nic \<Rightarrow> nat \<Rightarrow> u32 \<Rightarrow> ('w, nic) M" where
  "on_dev f n i v = returnM (n\<lparr>dev := f (dev n) i v\<rparr>)"

fun run_write_op ::
  "'w os \<Rightarrow> nat \<Rightarrow> (nat \<Rightarrow> u16) \<Rightarrow> write_op \<Rightarrow> nic \<Rightarrow> nat \<Rightarrow> u32 \<Rightarrow> ('w, nic) M" where
  "run_write_op os fuel pad Op_mac_writereg n i v = on_dev mac_writereg n i v"
| "run_write_op os fuel pad Op_set_dlen n i v = on_dev set_dlen n i v"
| "run_write_op os fuel pad Op_set_tctl n i v = lift_out (set_tctl fuel n i v)"
| "run_write_op os fuel pad Op_set_mdic n i v = on_dev set_mdic n i v"
| "run_write_op os fuel pad Op_set_ics n i v = on_dev set_ics n i v"
| "run_write_op os fuel pad Op_set_16bit n i v = on_dev set_16bit n i v"
| "run_write_op os fuel pad Op_set_rdt n i v = on_dev set_rdt n i v"
| "run_write_op os fuel pad Op_set_imc n i v = on_dev set_imc n i v"
| "run_write_op os fuel pad Op_set_ims n i v = on_dev set_ims n i v"
| "run_write_op os fuel pad Op_set_icr n i v = on_dev set_icr n i v"
| "run_write_op os fuel pad Op_set_eecd n i v = on_dev set_eecd n i v"
| "run_write_op os fuel pad Op_set_rx_control n i v = on_dev set_rx_control n i v"
| "run_write_op os fuel pad Op_set_ctrl n i v = on_dev set_ctrl n i v"
| "run_write_op os fuel pad Op_set_atq_tail n i v = e1000_set_atq_tail os fuel pad n i v"

section \<open>Memory-mapped access\<close>

definition mmio_index :: "u64 \<Rightarrow> nat" where
  "mmio_index addr = unat (drop_bit 2 (addr AND 0x1ffff))"

definition e1000_mmio_writel :: "'w os \<Rightarrow> nat \<Rightarrow> (nat \<Rightarrow> u16) \<Rightarrow> nic \<Rightarrow> u64 \<Rightarrow> u32 \<Rightarrow> ('w, nic) M" where
  "e1000_mmio_writel os fuel pad n addr val =
    (let index = mmio_index addr in
     case macreg_writeops index of
       Some f \<Rightarrow> run_write_op os fuel pad f n index val
     | None \<Rightarrow> returnM n)"

definition byte_shift :: "u64 \<Rightarrow> nat" where
  "byte_shift addr = 8 * unat (addr AND 3)"

definition e1000_mmio_writew :: "'w os \<Rightarrow> nat \<Rightarrow> (nat \<Rightarrow> u16) \<Rightarrow> nic \<Rightarrow> u64 \<Rightarrow> u32 \<Rightarrow> ('w, nic) M" where
  "e1000_mmio_writew os fuel pad n addr val =
    e1000_mmio_writel os fuel pad n (addr AND NOT 3) (push_bit (byte_shift addr) (val AND 0xffff))"

definition e1000_mmio_writeb :: "'w os \<Rightarrow> nat \<Rightarrow> (nat \<Rightarrow> u16) \<Rightarrow> nic \<Rightarrow> u64 \<Rightarrow> u32 \<Rightarrow> ('w, nic) M" where
  "e1000_mmio_writeb os fuel pad n addr val =
    e1000_mmio_writel os fuel pad n (addr AND NOT 3) (push_bit (byte_shift addr) (val AND 0xff))"

definition e1000_mmio_readl :: "E1000State \<Rightarrow> u64 \<Rightarrow> u32 \<times> E1000State" where
  "e1000_mmio_readl s addr =
    (let index = mmio_index addr in
     case macreg_readops index of
       Some f \<Rightarrow> run_read_op f s index
     | None \<Rightarrow> (0, s))"

definition e1000_mmio_readb :: "E1000State \<Rightarrow> u64 \<Rightarrow> u32 \<times> E1000State" where
  "e1000_mmio_readb s addr =
    (case e1000_mmio_readl s (addr AND NOT 3) of (v, s) \<Rightarrow> (drop_bit (byte_shift addr) v AND 0xff, s))"

definition e1000_mmio_readw :: "E1000State \<Rightarrow> u64 \<Rightarrow> u32 \<times> E1000State" where
  "e1000_mmio_readw s addr =
    (case e1000_mmio_readl s (addr AND NOT 3) of (v, s) \<Rightarrow> (drop_bit (byte_shift addr) v AND 0xffff, s))"

section \<open>What a handler keeps\<close>

lemma write_op_regs:
  assumes "macreg_writeops i = Some f"
  shows "f = Op_mac_writereg \<Longrightarrow> free_reg i" "f = Op_set_dlen \<Longrightarrow> i \<in> length_regs"
    "f = Op_set_tctl \<Longrightarrow> i = TCTL \<or> i = TDT" "f = Op_set_16bit \<Longrightarrow> i \<in> ring_regs" "f = Op_set_rdt \<Longrightarrow> i \<in> ring_regs"
    "f = Op_set_atq_tail \<Longrightarrow> i = PF_ATQT"
  using assms by (auto simp: macreg_writeops_def free_reg_def reg_range_def split: if_splits)

lemma read_op_regs:
  assumes "macreg_readops i = Some f"
  shows "f = Op_mac_read_clr4 \<Longrightarrow> free_reg i" "f = Op_mac_read_clr8 \<Longrightarrow> free_reg i \<and> free_reg (i - 1)"
  using assms by (auto simp: macreg_readops_def free_reg_def reg_range_def split: if_splits)

context device_invariant
begin

lemma inv_mmio_writel:
  assumes w: "e1000_mmio_writel os fuel pad n addr v h = Ok (n', h')" and "I (dev n)" and "ring_ok (dev n)"
  shows "I (dev n')"
proof (cases "macreg_writeops (mmio_index addr)")
  case None
  with w assms(2) show ?thesis by (simp add: e1000_mmio_writel_def returnM_def)
next
  case (Some f)
  then have r: "run_write_op os fuel pad f n (mmio_index addr) v h = Ok (n', h')"
    using w by (simp add: e1000_mmio_writel_def)
  have "unat (mac_reg (dev n) TDLEN) \<le> 0xfffff" using ring_ok_bounds [OF assms(3)] by simp
  then show ?thesis
    using r assms(2) write_op_regs [OF Some]
    by (cases f)
      (auto simp: on_dev_def returnM_def lift_out_def bindO_eq_Ok_conv
        intro: inv_ics inv_interrupts inv_control inv_mdic inv_eecd inv_plain inv_set_tctl inv_set_atq_tail)
qed

lemma inv_mmio_readl:
  assumes "I s"
  shows "I (snd (e1000_mmio_readl s addr))"
proof (cases "macreg_readops (mmio_index addr)")
  case (Some f)
  then show ?thesis
    using assms read_op_regs [OF Some]
    by (cases f) (auto simp: e1000_mmio_readl_def intro: inv_plain inv_interrupts)
qed (simp add: e1000_mmio_readl_def assms)

end

section \<open>Reachable states\<close>

text \<open>
  The events of a device: accesses of the guest to its registers, frames and link changes from the
  network, resets, and changes by others to guest memory and to the host.
\<close>

inductive dev_step :: "'w os \<Rightarrow> nat \<Rightarrow> (nat \<Rightarrow> u16) \<Rightarrow> nic \<times> 'w host \<Rightarrow> nic \<times> 'w host \<Rightarrow> bool"
  for os :: "'w os" and fuel :: nat and pad :: "nat \<Rightarrow> u16" where
  writel: "e1000_mmio_writel os fuel pad n addr v h = Ok (n', h') \<Longrightarrow> dev_step os fuel pad (n, h) (n', h')"
| writew: "e1000_mmio_writew os fuel pad n addr v h = Ok (n', h') \<Longrightarrow> dev_step os fuel pad (n, h) (n', h')"
| writeb: "e1000_mmio_writeb os fuel pad n addr v h = Ok (n', h') \<Longrightarrow> dev_step os fuel pad (n, h) (n', h')"
| readl: "e1000_mmio_readl (dev n) addr = (v, s) \<Longrightarrow> dev_step os fuel pad (n, h) (n\<lparr>dev := s\<rparr>, h)"
| readw: "e1000_mmio_readw (dev n) addr = (v, s) \<Longrightarrow> dev_step os fuel pad (n, h) (n\<lparr>dev := s\<rparr>, h)"
| readb: "e1000_mmio_readb (dev n) addr = (v, s) \<Longrightarrow> dev_step os fuel pad (n, h) (n\<lparr>dev := s\<rparr>, h)"
| receive: "e1000_receive fuel n buf = Ok (r, n') \<Longrightarrow> dev_step os fuel pad (n, h) (n', h)"
| link: "dev_step os fuel pad (n, h) (n\<lparr>dev := e1000_set_link_status down (dev n)\<rparr>, h)"
| reset: "dev_step os fuel pad (n, h) (n\<lparr>dev := pci_device_reset (dev n)\<rparr>, h)"
| memory: "dev_step os fuel pad (n, h) (n\<lparr>ram := m\<rparr>, h)"
| host: "dev_step os fuel pad (n, h) (n, h')"

inductive dev_reach :: "'w os \<Rightarrow> nat \<Rightarrow> (nat \<Rightarrow> u16) \<Rightarrow> u8 list \<Rightarrow> nic \<times> 'w host \<Rightarrow> bool"
  for os :: "'w os" and fuel :: nat and pad :: "nat \<Rightarrow> u16" and mac :: "u8 list" where
  start: "pci_e1000_init os log mac dev0 conf h = Ok ((d, conf'), h') \<Longrightarrow>
    dev_reach os fuel pad mac (\<lparr>dev = pci_device_reset d, ram = m, sent = []\<rparr>, h')"
| step: "dev_reach os fuel pad mac c \<Longrightarrow> dev_step os fuel pad c c' \<Longrightarrow> dev_reach os fuel pad mac c'"

context device_invariant
begin

lemma inv_mmio_narrow:
  assumes "I s"
  shows "I (snd (e1000_mmio_readw s addr))" "I (snd (e1000_mmio_readb s addr))"
  using inv_mmio_readl [OF assms, of "addr AND NOT 3"]
  by (auto simp: e1000_mmio_readw_def e1000_mmio_readb_def split: prod.splits)

lemma inv_step:
  assumes "dev_step os fuel pad (n, h) (n', h')" and I: "I (dev n)" and ring: "ring_ok (dev n)"
    and reset: "\<And>s. I s \<Longrightarrow> ring_ok s \<Longrightarrow> I (pci_device_reset s)"
  shows "I (dev n')"
  using assms(1)
proof (cases rule: dev_step.cases)
  case (writel addr v)
  then show ?thesis by (rule inv_mmio_writel [OF _ I ring])
next
  case (writew addr v)
  then show ?thesis unfolding e1000_mmio_writew_def by (rule inv_mmio_writel [OF _ I ring])
next
  case (writeb addr v)
  then show ?thesis unfolding e1000_mmio_writeb_def by (rule inv_mmio_writel [OF _ I ring])
next
  case (readl addr v s)
  then show ?thesis using inv_mmio_readl [OF I, of addr] by simp
next
  case (readw addr v s)
  then show ?thesis using inv_mmio_narrow(1) [OF I, of addr] by simp
next
  case (readb addr v s)
  then show ?thesis using inv_mmio_narrow(2) [OF I, of addr] by simp
next
  case (receive buf r)
  moreover have "unat (mac_reg (dev n) RDLEN) \<le> 0xfffff" using ring_ok_bounds [OF ring] by simp
  ultimately show ?thesis using I inv_receive by blast
next
  case (link down)
  then show ?thesis using inv_control(3) [OF I] by simp
next
  case reset
  then show ?thesis using assms(4) [OF I ring] by simp
qed (simp_all add: I)

end

lemma reach_ring_ok: "dev_reach os fuel pad mac c \<Longrightarrow> ring_ok (dev (fst c))"
proof (induction rule: dev_reach.induct)
  case (start log conf h d conf' h' m)
  then have "rxbuf_size d = 0"
    by (auto simp: pci_e1000_init_def bindM_eq_Ok_conv returnM_def dev0_def)
  then show ?case by (simp add: reset_ring_ok)
next
  case (step c c')
  obtain n h n' h' where c: "c = (n, h)" "c' = (n', h')" by (cases c, cases c')
  have "ring_ok (pci_device_reset s)" if "ring_ok s" for s
    by (rule reset_ring_ok) (use that in \<open>simp only: ring_ok_def\<close>)
  then show ?case using rings.inv_step [of os fuel pad n h n' h'] step by (simp add: c)
qed

lemma reach_irq_ok: "dev_reach os fuel pad mac c \<Longrightarrow> irq_ok (dev (fst c))"
proof (induction rule: dev_reach.induct)
  case (step c c')
  obtain n h n' h' where c: "c = (n, h)" "c' = (n', h')" by (cases c, cases c')
  show ?case
    using irqs.inv_step [of os fuel pad n h n' h'] step reach_ring_ok [OF step(1)] reset_irq_ok by (simp add: c)
qed (simp add: reset_irq_ok)

lemma reach_rom: "dev_reach os fuel pad mac c \<Longrightarrow> eeprom_data (dev (fst c)) = eeprom_init mac"
proof (induction rule: dev_reach.induct)
  case (start log conf h d conf' h' m)
  then show ?case by (auto simp: pci_e1000_init_def bindM_eq_Ok_conv returnM_def reset_rom)
next
  case (step c c')
  obtain n h n' h' where c: "c = (n, h)" "c' = (n', h')" by (cases c, cases c')
  show ?case
    using rom.inv_step [of os fuel pad n h n' h' "eeprom_init mac"] step reach_ring_ok [OF step(1)] reset_rom by (simp add: c)
qed

text \<open>
  C5: In every state a device can reach, the interrupt line has the level that mask and cause registers
  ask for, the two cause registers agree, and a pending cause has the asserted bit set.
\<close>

theorem irq_line_follows_registers:
  assumes "dev_reach os fuel pad mac (n, h)"
  shows "(irq (dev n) \<longleftrightarrow> mac_reg (dev n) IMS AND mac_reg (dev n) ICR \<noteq> 0) \<and>
    mac_reg (dev n) ICS = mac_reg (dev n) ICR \<and>
    (mac_reg (dev n) ICR \<noteq> 0 \<longrightarrow> mac_reg (dev n) ICR AND E1000_ICR_INT_ASSERTED \<noteq> 0)"
  using reach_irq_ok [OF assms] by (simp add: irq_ok_def)

text \<open>
  C26: In every state a device can reach, the ring registers are well formed: heads and tails have 16
  bits, the ring lengths are multiples of 128 below one megabyte, the receive buffer size is zero or one
  that the control register can select, and the threshold shift is between 1 and 4.
\<close>

theorem ring_registers_well_formed:
  assumes "dev_reach os fuel pad mac (n, h)"
  shows "unat (mac_reg (dev n) TDH) \<le> 0xffff \<and> unat (mac_reg (dev n) TDT) \<le> 0xffff \<and>
    unat (mac_reg (dev n) RDH) \<le> 0xffff \<and> unat (mac_reg (dev n) RDT) \<le> 0xffff \<and>
    mac_reg (dev n) TDLEN AND NOT 0xfff80 = 0 \<and> mac_reg (dev n) RDLEN AND NOT 0xfff80 = 0 \<and>
    rxbuf_size (dev n) \<in> {0, 256, 512, 1024, 2048, 4096, 8192, 16384} \<and> rxbuf_min_shift (dev n) \<in> {1, 2, 3, 4}"
  using reach_ring_ok [OF assms] unfolding ring_ok_def word_le_nat_alt by simp

text \<open>
  C27: Nothing the guest, the network or a reset does changes the EEPROM: in every state a device can
  reach it holds what start-up put there for its station address.
\<close>

theorem eeprom_never_changes:
  assumes "dev_reach os fuel pad mac (n, h)"
  shows "eeprom_data (dev n) = eeprom_init mac"
  using reach_rom [OF assms] by simp

text \<open>A device that was started, lost its link and had the mask register written.\<close>

definition started :: nic where
  "started = \<lparr>dev = pci_device_reset (dev0\<lparr>eeprom_data := eeprom_init [0x52, 0x54, 0, 0x12, 0x34, 0x56], fs := NO_FS\<rparr>),
     ram = (\<lambda>_. 0), sent = []\<rparr>"

definition masked :: nic where
  "masked = started\<lparr>dev := set_ims (e1000_set_link_status True (dev started)) IMS 4\<rparr>"

lemma reach_masked: "dev_reach loop_os 0 (\<lambda>_. 0) [0x52, 0x54, 0, 0x12, 0x34, 0x56] (masked, loop_host)"
proof -
  let ?mac = "[0x52, 0x54, 0, 0x12, 0x34, 0x56] :: u8 list"
  let ?down = "started\<lparr>dev := e1000_set_link_status True (dev started)\<rparr>"
  have "dev_reach loop_os 0 (\<lambda>_. 0) ?mac (started, loop_host)"
    unfolding started_def
    by (rule dev_reach.start [where log = True and h = loop_host and conf = "\<lambda>_. 0" and conf' = "e1000_pci_conf (\<lambda>_. 0)"])
      (simp add: pci_e1000_init_def bindM_def returnM_def)
  then have "dev_reach loop_os 0 (\<lambda>_. 0) ?mac (?down, loop_host)"
    by (rule dev_reach.step) (rule dev_step.link)
  moreover have "e1000_mmio_writel loop_os 0 (\<lambda>_. 0) ?down 0xd0 4 loop_host = Ok (masked, loop_host)"
    by (simp add: e1000_mmio_writel_def mmio_index_def macreg_writeops_def on_dev_def returnM_def masked_def)
  ultimately show ?thesis by (blast intro: dev_reach.step dev_step.writel)
qed

theorem irq_line_follows_registers_witness:
  "irq (dev masked) \<and> mac_reg (dev masked) IMS AND mac_reg (dev masked) ICR \<noteq> 0"
  using irq_line_follows_registers [OF reach_masked]
  by (simp add: masked_def started_def set_ims_def e1000_set_link_status_def Let_def pci_device_reset_def
      qdev_e1000_reset_def e1000_reset_def mac_reg_init_def asserted_def)

theorem ring_registers_well_formed_witness:
  "unat (mac_reg (dev masked) TDH) \<le> 0xffff \<and> rxbuf_min_shift (dev masked) \<in> {1, 2, 3, 4}"
  using ring_registers_well_formed [OF reach_masked] by simp

theorem eeprom_never_changes_witness:
  "eeprom_data (dev masked) 0 = 0x5452"
  using eeprom_never_changes [OF reach_masked]
  by (simp add: eeprom_init_def Let_def eeprom_mac_def upt_rec)

end
