(* ===== verification/E1000_VMState.thy ===== *)
theory E1000_VMState
  imports E1000_Regs
begin

text \<open>
  Saving and loading the state of the network device: the table \<^verbatim>\<open>vmstate_e1000\<close> of \<^verbatim>\<open>hw/e1000.c\<close> and the
  loops and field codecs of \<^verbatim>\<open>savevm.c\<close> that it uses. A field of the table says in which versions it
  exists, how many bytes it has, and how these are written and read. At the end of the input a scalar is
  read as zero and a buffer keeps its old bytes. The first entry of the table, the PCI device, belongs to
  the PCI layer and is left out; the table has no hooks, and no subsections are present.
\<close>

section \<open>Fields\<close>

record VMStateField =
  field_exists :: "nat \<Rightarrow> bool"
  field_size :: nat
  field_put :: "E1000State \<Rightarrow> u8 list"
  field_get :: "u8 list \<Rightarrow> E1000State \<Rightarrow> E1000State"

definition get_uint8 :: "u8 list \<Rightarrow> u8" where "get_uint8 bs = be_word (take 1 (bs @ replicate 1 0))"
definition put_uint8 :: "u8 \<Rightarrow> u8 list" where "put_uint8 v = be_bytes 1 v"
definition get_uint16 :: "u8 list \<Rightarrow> u16" where "get_uint16 bs = be_word (take 2 (bs @ replicate 2 0))"
definition put_uint16 :: "u16 \<Rightarrow> u8 list" where "put_uint16 v = be_bytes 2 v"
definition get_uint32 :: "u8 list \<Rightarrow> u32" where "get_uint32 bs = be_word (take 4 (bs @ replicate 4 0))"
definition put_uint32 :: "u32 \<Rightarrow> u8 list" where "put_uint32 v = be_bytes 4 v"

text \<open>The flags \<^verbatim>\<open>tx.ip\<close> and \<^verbatim>\<open>tx.tcp\<close> are signed bytes with the value 0 or 1.\<close>

definition get_int8 :: "u8 list \<Rightarrow> bool" where "get_int8 bs \<longleftrightarrow> get_uint8 bs \<noteq> 0"
definition put_int8 :: "bool \<Rightarrow> u8 list" where "put_int8 b = put_uint8 (if b then 1 else 0)"

definition VMSTATE_UINT8 :: "(E1000State \<Rightarrow> u8) \<Rightarrow> (u8 \<Rightarrow> E1000State \<Rightarrow> E1000State) \<Rightarrow> VMStateField" where
  "VMSTATE_UINT8 g u = \<lparr>field_exists = (\<lambda>_. True), field_size = 1, field_put = (\<lambda>s. put_uint8 (g s)), field_get = (\<lambda>bs. u (get_uint8 bs))\<rparr>"

definition VMSTATE_INT8 :: "(E1000State \<Rightarrow> bool) \<Rightarrow> (bool \<Rightarrow> E1000State \<Rightarrow> E1000State) \<Rightarrow> VMStateField" where
  "VMSTATE_INT8 g u = \<lparr>field_exists = (\<lambda>_. True), field_size = 1, field_put = (\<lambda>s. put_int8 (g s)), field_get = (\<lambda>bs. u (get_int8 bs))\<rparr>"

definition VMSTATE_UINT16 :: "(E1000State \<Rightarrow> u16) \<Rightarrow> (u16 \<Rightarrow> E1000State \<Rightarrow> E1000State) \<Rightarrow> VMStateField" where
  "VMSTATE_UINT16 g u = \<lparr>field_exists = (\<lambda>_. True), field_size = 2, field_put = (\<lambda>s. put_uint16 (g s)), field_get = (\<lambda>bs. u (get_uint16 bs))\<rparr>"

definition VMSTATE_UINT32 :: "(E1000State \<Rightarrow> u32) \<Rightarrow> (u32 \<Rightarrow> E1000State \<Rightarrow> E1000State) \<Rightarrow> VMStateField" where
  "VMSTATE_UINT32 g u = \<lparr>field_exists = (\<lambda>_. True), field_size = 4, field_put = (\<lambda>s. put_uint32 (g s)), field_get = (\<lambda>bs. u (get_uint32 bs))\<rparr>"

definition VMSTATE_UNUSED_TEST :: "(nat \<Rightarrow> bool) \<Rightarrow> nat \<Rightarrow> VMStateField" where
  "VMSTATE_UNUSED_TEST t n = \<lparr>field_exists = t, field_size = n, field_put = (\<lambda>s. replicate n 0), field_get = (\<lambda>bs s. s)\<rparr>"

definition VMSTATE_UNUSED :: "nat \<Rightarrow> VMStateField" where
  "VMSTATE_UNUSED n = VMSTATE_UNUSED_TEST (\<lambda>_. True) n"

definition VMSTATE_BUFFER ::
  "(E1000State \<Rightarrow> nat \<Rightarrow> u8) \<Rightarrow> ((nat \<Rightarrow> u8) \<Rightarrow> E1000State \<Rightarrow> E1000State) \<Rightarrow> nat \<Rightarrow> VMStateField" where
  "VMSTATE_BUFFER g u n = \<lparr>field_exists = (\<lambda>_. True), field_size = n, field_put = (\<lambda>s. buf_get (g s) 0 n),
     field_get = (\<lambda>bs s. u (buf_put (g s) 0 bs) s)\<rparr>"

definition VMSTATE_UINT16_ARRAY ::
  "(E1000State \<Rightarrow> nat \<Rightarrow> u16) \<Rightarrow> ((nat \<Rightarrow> u16) \<Rightarrow> E1000State \<Rightarrow> E1000State) \<Rightarrow> nat \<Rightarrow> VMStateField" where
  "VMSTATE_UINT16_ARRAY g u n = \<lparr>field_exists = (\<lambda>_. True), field_size = 2 * n,
     field_put = (\<lambda>s. concat (map (\<lambda>i. put_uint16 (g s i)) [0..<n])),
     field_get = (\<lambda>bs s. u (\<lambda>i. if i < n then get_uint16 (take 2 (drop (2 * i) bs)) else g s i) s)\<rparr>"

definition VMSTATE_UINT32_SUB_ARRAY :: "nat \<Rightarrow> nat \<Rightarrow> VMStateField" where
  "VMSTATE_UINT32_SUB_ARRAY start n = \<lparr>field_exists = (\<lambda>_. True), field_size = 4 * n,
     field_put = (\<lambda>s. concat (map (\<lambda>i. put_uint32 (mac_reg s (start + i))) [0..<n])),
     field_get = (\<lambda>bs s. s\<lparr>mac_reg := (\<lambda>i. if start \<le> i \<and> i < start + n
        then get_uint32 (take 4 (drop (4 * (i - start)) bs)) else mac_reg s i)\<rparr>)\<rparr>"

definition VMSTATE_REG :: "nat \<Rightarrow> VMStateField" where
  "VMSTATE_REG i = VMSTATE_UINT32 (\<lambda>s. mac_reg s i) (put_reg i)"

definition is_version_1 :: "nat \<Rightarrow> bool" where
  "is_version_1 version_id \<longleftrightarrow> version_id = 1"

section \<open>The table\<close>

definition vmstate_scalars :: "VMStateField list" where
  "vmstate_scalars = [
    VMSTATE_UNUSED_TEST is_version_1 4,
    VMSTATE_UNUSED 4,
    VMSTATE_UINT32 rxbuf_size (\<lambda>v s. s\<lparr>rxbuf_size := v\<rparr>),
    VMSTATE_UINT32 rxbuf_min_shift (\<lambda>v s. s\<lparr>rxbuf_min_shift := v\<rparr>),
    VMSTATE_UINT32 (\<lambda>s. val_in (eecd_state s)) (\<lambda>v s. s\<lparr>eecd_state := (eecd_state s)\<lparr>val_in := v\<rparr>\<rparr>),
    VMSTATE_UINT16 (\<lambda>s. bitnum_in (eecd_state s)) (\<lambda>v s. s\<lparr>eecd_state := (eecd_state s)\<lparr>bitnum_in := v\<rparr>\<rparr>),
    VMSTATE_UINT16 (\<lambda>s. bitnum_out (eecd_state s)) (\<lambda>v s. s\<lparr>eecd_state := (eecd_state s)\<lparr>bitnum_out := v\<rparr>\<rparr>),
    VMSTATE_UINT16 (\<lambda>s. reading (eecd_state s)) (\<lambda>v s. s\<lparr>eecd_state := (eecd_state s)\<lparr>reading := v\<rparr>\<rparr>),
    VMSTATE_UINT32 (\<lambda>s. old_eecd (eecd_state s)) (\<lambda>v s. s\<lparr>eecd_state := (eecd_state s)\<lparr>old_eecd := v\<rparr>\<rparr>),
    VMSTATE_UINT8 (\<lambda>s. ipcss (tx s)) (\<lambda>v s. s\<lparr>tx := (tx s)\<lparr>ipcss := v\<rparr>\<rparr>),
    VMSTATE_UINT8 (\<lambda>s. ipcso (tx s)) (\<lambda>v s. s\<lparr>tx := (tx s)\<lparr>ipcso := v\<rparr>\<rparr>),
    VMSTATE_UINT16 (\<lambda>s. ipcse (tx s)) (\<lambda>v s. s\<lparr>tx := (tx s)\<lparr>ipcse := v\<rparr>\<rparr>),
    VMSTATE_UINT8 (\<lambda>s. tucss (tx s)) (\<lambda>v s. s\<lparr>tx := (tx s)\<lparr>tucss := v\<rparr>\<rparr>),
    VMSTATE_UINT8 (\<lambda>s. tucso (tx s)) (\<lambda>v s. s\<lparr>tx := (tx s)\<lparr>tucso := v\<rparr>\<rparr>),
    VMSTATE_UINT16 (\<lambda>s. tucse (tx s)) (\<lambda>v s. s\<lparr>tx := (tx s)\<lparr>tucse := v\<rparr>\<rparr>),
    VMSTATE_UINT32 (\<lambda>s. paylen (tx s)) (\<lambda>v s. s\<lparr>tx := (tx s)\<lparr>paylen := v\<rparr>\<rparr>),
    VMSTATE_UINT8 (\<lambda>s. hdr_len (tx s)) (\<lambda>v s. s\<lparr>tx := (tx s)\<lparr>hdr_len := v\<rparr>\<rparr>),
    VMSTATE_UINT16 (\<lambda>s. mss (tx s)) (\<lambda>v s. s\<lparr>tx := (tx s)\<lparr>mss := v\<rparr>\<rparr>),
    VMSTATE_UINT16 (\<lambda>s. tx_size (tx s)) (\<lambda>v s. s\<lparr>tx := (tx s)\<lparr>tx_size := v\<rparr>\<rparr>),
    VMSTATE_UINT16 (\<lambda>s. tso_frames (tx s)) (\<lambda>v s. s\<lparr>tx := (tx s)\<lparr>tso_frames := v\<rparr>\<rparr>),
    VMSTATE_UINT8 (\<lambda>s. sum_needed (tx s)) (\<lambda>v s. s\<lparr>tx := (tx s)\<lparr>sum_needed := v\<rparr>\<rparr>),
    VMSTATE_INT8 (\<lambda>s. ip (tx s)) (\<lambda>v s. s\<lparr>tx := (tx s)\<lparr>ip := v\<rparr>\<rparr>),
    VMSTATE_INT8 (\<lambda>s. tcp (tx s)) (\<lambda>v s. s\<lparr>tx := (tx s)\<lparr>tcp := v\<rparr>\<rparr>)]"

definition vmstate_buffers :: "VMStateField list" where
  "vmstate_buffers = [
    VMSTATE_BUFFER (\<lambda>s. header (tx s)) (\<lambda>f s. s\<lparr>tx := (tx s)\<lparr>header := f\<rparr>\<rparr>) 256,
    VMSTATE_BUFFER (\<lambda>s. data (tx s)) (\<lambda>f s. s\<lparr>tx := (tx s)\<lparr>data := f\<rparr>\<rparr>) 0x10000,
    VMSTATE_UINT16_ARRAY eeprom_data (\<lambda>f s. s\<lparr>eeprom_data := f\<rparr>) 64,
    VMSTATE_UINT16_ARRAY phy_reg (\<lambda>f s. s\<lparr>phy_reg := f\<rparr>) 0x20]"

definition vmstate_regs :: "nat list" where
  "vmstate_regs = [CTRL, EECD, EERD, GPRC, GPTC, ICR, ICS, IMC, IMS, LEDCTL, MANC, MDIC, MPC, PBA, RCTL, RDBAH, RDBAL,
    RDH, RDLEN, RDT, STATUS, SWSM, TCTL, TDBAH, TDBAL, TDH, TDLEN, TDT, TORH, TORL, TOTH, TOTL, TPR, TPT, TXDCTL, WUFC, VET]"

definition vmstate_e1000 :: "VMStateField list" where
  "vmstate_e1000 = vmstate_scalars @ vmstate_buffers @ map VMSTATE_REG vmstate_regs @
    [VMSTATE_UINT32_SUB_ARRAY RA 32, VMSTATE_UINT32_SUB_ARRAY MTA 128, VMSTATE_UINT32_SUB_ARRAY VFTA 128]"

abbreviation (input) vmstate_version :: nat where "vmstate_version \<equiv> 2"
abbreviation (input) vmstate_minimum_version :: nat where "vmstate_minimum_version \<equiv> 1"

section \<open>Saving and loading\<close>

fun save_fields :: "nat \<Rightarrow> VMStateField list \<Rightarrow> E1000State \<Rightarrow> u8 list" where
  "save_fields version_id [] s = []"
| "save_fields version_id (f # rest) s =
     (if field_exists f version_id then field_put f s @ save_fields version_id rest s else save_fields version_id rest s)"

definition vmstate_save_state :: "E1000State \<Rightarrow> u8 list" where
  "vmstate_save_state s = save_fields vmstate_version vmstate_e1000 s"

fun load_fields :: "nat \<Rightarrow> VMStateField list \<Rightarrow> u8 list \<Rightarrow> E1000State \<Rightarrow> E1000State" where
  "load_fields version_id [] bs s = s"
| "load_fields version_id (f # rest) bs s =
     (if field_exists f version_id
      then load_fields version_id rest (drop (field_size f) bs) (field_get f (take (field_size f) bs) s)
      else load_fields version_id rest bs s)"

definition vmstate_load_state :: "nat \<Rightarrow> u8 list \<Rightarrow> E1000State \<Rightarrow> int \<times> E1000State" where
  "vmstate_load_state version_id bs s =
     (if version_id > vmstate_version \<or> version_id < vmstate_minimum_version then (- 22, s)
      else (0, load_fields version_id vmstate_e1000 bs s))"

section \<open>What a saved state restores\<close>

lemma get_put [simp]:
  "get_uint8 (put_uint8 v8) = v8" "get_uint16 (put_uint16 v16) = v16" "get_uint32 (put_uint32 v32) = v32"
  "get_int8 (put_int8 b) = b"
  by (simp_all add: get_uint8_def put_uint8_def get_uint16_def put_uint16_def get_uint32_def put_uint32_def
      get_int8_def put_int8_def)

lemma length_put [simp]:
  "length (put_uint8 v8) = 1" "length (put_uint16 v16) = 2" "length (put_uint32 v32) = 4" "length (put_int8 b) = 1"
  by (simp_all add: put_uint8_def put_uint16_def put_uint32_def put_int8_def)

lemma length_concat_put:
  "(\<And>i. length (f i) = w) \<Longrightarrow> length (concat (map f [0..<n])) = w * n"
  by (induction n) simp_all

lemma chunk_concat_put:
  assumes "\<And>i. length (f i) = w" and "k < n"
  shows "take w (drop (w * k) (concat (map f [0..<n]))) = f k"
  using assms(2)
proof (induction n)
  case (Suc n)
  note len = length_concat_put [of f w, OF assms(1)]
  show ?case
  proof (cases "k < n")
    case True
    then have "w * k + w \<le> w * n" by (metis Suc_leI mult_Suc_right add.commute mult_le_mono2)
    then show ?thesis using Suc True by (simp add: len)
  next
    case False
    then show ?thesis using Suc.prems by (simp add: len assms(1) less_Suc_eq)
  qed
qed simp

text \<open>A field is sound when it reads exactly the bytes it has written.\<close>

definition sound_field :: "VMStateField \<Rightarrow> bool" where
  "sound_field f \<longleftrightarrow> (\<forall>s. length (field_put f s) = field_size f)"

definition copy_field :: "E1000State \<Rightarrow> VMStateField \<Rightarrow> E1000State \<Rightarrow> E1000State" where
  "copy_field s f t = field_get f (field_put f s) t"

lemma load_save_fields:
  assumes "\<And>f. f \<in> set tab \<Longrightarrow> sound_field f"
  shows "load_fields v tab (save_fields v tab s @ rest) t = fold (copy_field s) (filter (\<lambda>f. field_exists f v) tab) t"
  using assms
proof (induction tab arbitrary: t)
  case (Cons f tab)
  then have "length (field_put f s) = field_size f" by (simp add: sound_field_def)
  then show ?case using Cons by (simp add: copy_field_def)
qed simp

lemma sound_fields:
  "sound_field (VMSTATE_UINT8 g8 u8)" "sound_field (VMSTATE_INT8 gb ub)" "sound_field (VMSTATE_UINT16 g16 u16)"
  "sound_field (VMSTATE_UINT32 g32 u32)" "sound_field (VMSTATE_UNUSED_TEST t n)" "sound_field (VMSTATE_UNUSED n)"
  "sound_field (VMSTATE_BUFFER gf uf n)" "sound_field (VMSTATE_UINT16_ARRAY ga ua n)"
  "sound_field (VMSTATE_UINT32_SUB_ARRAY start n)" "sound_field (VMSTATE_REG i)"
  by (simp_all add: sound_field_def VMSTATE_UINT8_def VMSTATE_INT8_def VMSTATE_UINT16_def VMSTATE_UINT32_def
      VMSTATE_UNUSED_TEST_def VMSTATE_UNUSED_def VMSTATE_BUFFER_def VMSTATE_UINT16_ARRAY_def
      VMSTATE_UINT32_SUB_ARRAY_def VMSTATE_REG_def length_concat_put)

lemma sound_vmstate: "f \<in> set vmstate_e1000 \<Longrightarrow> sound_field f"
  by (auto simp: vmstate_e1000_def vmstate_scalars_def vmstate_buffers_def sound_fields)

lemma exists_vmstate:
  "field_exists (VMSTATE_UINT8 g8 u8) v" "field_exists (VMSTATE_INT8 gb ub) v" "field_exists (VMSTATE_UINT16 g16 u16) v"
  "field_exists (VMSTATE_UINT32 g32 u32) v" "field_exists (VMSTATE_UNUSED n) v"
  "field_exists (VMSTATE_BUFFER gf uf n) v" "field_exists (VMSTATE_UINT16_ARRAY ga ua n) v"
  "field_exists (VMSTATE_UINT32_SUB_ARRAY start n) v" "field_exists (VMSTATE_REG i) v"
  "field_exists (VMSTATE_UNUSED_TEST is_version_1 n) v \<longleftrightarrow> v = 1"
  by (simp_all add: VMSTATE_UINT8_def VMSTATE_INT8_def VMSTATE_UINT16_def VMSTATE_UINT32_def is_version_1_def
      VMSTATE_UNUSED_TEST_def VMSTATE_UNUSED_def VMSTATE_BUFFER_def VMSTATE_UINT16_ARRAY_def
      VMSTATE_UINT32_SUB_ARRAY_def VMSTATE_REG_def)

lemma copy_fields:
  "copy_field s (VMSTATE_UINT8 g8 u8) t = u8 (g8 s) t" "copy_field s (VMSTATE_INT8 gb ub) t = ub (gb s) t"
  "copy_field s (VMSTATE_UINT16 g16 u16) t = u16 (g16 s) t" "copy_field s (VMSTATE_UINT32 g32 u32) t = u32 (g32 s) t"
  "copy_field s (VMSTATE_UNUSED_TEST x n) t = t" "copy_field s (VMSTATE_UNUSED n) t = t"
  "copy_field s (VMSTATE_BUFFER gf uf n) t = uf (\<lambda>i. if i < n then gf s i else gf t i) t"
  by (auto simp: copy_field_def VMSTATE_UINT8_def VMSTATE_INT8_def VMSTATE_UINT16_def VMSTATE_UINT32_def
      VMSTATE_UNUSED_TEST_def VMSTATE_UNUSED_def VMSTATE_BUFFER_def buf_put_def intro!: arg_cong2 [where f = uf])

lemma copy_arrays:
  "copy_field s (VMSTATE_UINT16_ARRAY ga ua n) t = ua (\<lambda>i. if i < n then ga s i else ga t i) t"
  "copy_field s (VMSTATE_UINT32_SUB_ARRAY start n) t =
     t\<lparr>mac_reg := (\<lambda>i. if start \<le> i \<and> i < start + n then mac_reg s i else mac_reg t i)\<rparr>"
proof -
  have 16: "take 2 (drop (2 * i) (concat (map (\<lambda>i. put_uint16 (ga s i)) [0..<n]))) = put_uint16 (ga s i)" if "i < n" for i
    by (rule chunk_concat_put [OF _ that]) simp
  have 32: "take 4 (drop (4 * i) (concat (map (\<lambda>i. put_uint32 (mac_reg s (start + i))) [0..<n]))) = put_uint32 (mac_reg s (start + i))"
    if "i < n" for i by (rule chunk_concat_put [OF _ that]) simp
  show "copy_field s (VMSTATE_UINT16_ARRAY ga ua n) t = ua (\<lambda>i. if i < n then ga s i else ga t i) t"
    by (simp add: copy_field_def VMSTATE_UINT16_ARRAY_def 16 cong: if_cong)
  show "copy_field s (VMSTATE_UINT32_SUB_ARRAY start n) t =
     t\<lparr>mac_reg := (\<lambda>i. if start \<le> i \<and> i < start + n then mac_reg s i else mac_reg t i)\<rparr>"
    using 32 [of "_ - start"] by (auto simp: copy_field_def VMSTATE_UINT32_SUB_ARRAY_def fun_eq_iff intro!: E1000State.fold_congs)
qed

lemma copy_regs:
  "fold (copy_field s) (map VMSTATE_REG is) t = t\<lparr>mac_reg := (\<lambda>i. if i \<in> set is then mac_reg s i else mac_reg t i)\<rparr>"
  by (induction "is" arbitrary: t) (auto simp: VMSTATE_REG_def copy_fields put_reg_def fun_eq_iff intro!: E1000State.fold_congs)

definition saved_reg :: "nat \<Rightarrow> bool" where
  "saved_reg i \<longleftrightarrow> i \<in> set vmstate_regs \<or> RA \<le> i \<and> i < RA + 32 \<or> MTA \<le> i \<and> i < MTA + 128 \<or> VFTA \<le> i \<and> i < VFTA + 128"

lemma copy_scalars:
  "fold (copy_field s) (filter (\<lambda>f. field_exists f v) vmstate_scalars) t =
   t\<lparr>rxbuf_size := rxbuf_size s, rxbuf_min_shift := rxbuf_min_shift s, eecd_state := eecd_state s,
     tx := (tx t)\<lparr>tx_size := tx_size (tx s), sum_needed := sum_needed (tx s), ipcss := ipcss (tx s), ipcso := ipcso (tx s),
       ipcse := ipcse (tx s), tucss := tucss (tx s), tucso := tucso (tx s), tucse := tucse (tx s), hdr_len := hdr_len (tx s),
       mss := mss (tx s), paylen := paylen (tx s), tso_frames := tso_frames (tx s), ip := ip (tx s), tcp := tcp (tx s)\<rparr>\<rparr>"
  by (simp add: vmstate_scalars_def exists_vmstate copy_fields)

lemma copy_buffers:
  "fold (copy_field s) (filter (\<lambda>f. field_exists f v) vmstate_buffers) t =
   t\<lparr>tx := (tx t)\<lparr>header := (\<lambda>i. if i < 256 then header (tx s) i else header (tx t) i),
                 data := (\<lambda>i. if i < 0x10000 then data (tx s) i else data (tx t) i)\<rparr>,
     eeprom_data := (\<lambda>i. if i < 64 then eeprom_data s i else eeprom_data t i),
     phy_reg := (\<lambda>i. if i < 0x20 then phy_reg s i else phy_reg t i)\<rparr>"
  by (simp add: vmstate_buffers_def exists_vmstate copy_fields copy_arrays cong: if_cong)

lemma copy_vmstate_regs:
  "fold (copy_field s) (filter (\<lambda>f. field_exists f v) (map VMSTATE_REG vmstate_regs @
     [VMSTATE_UINT32_SUB_ARRAY RA 32, VMSTATE_UINT32_SUB_ARRAY MTA 128, VMSTATE_UINT32_SUB_ARRAY VFTA 128])) t =
   t\<lparr>mac_reg := (\<lambda>i. if saved_reg i then mac_reg s i else mac_reg t i)\<rparr>"
proof -
  have all: "filter (\<lambda>f. field_exists f v) (map VMSTATE_REG is) = map VMSTATE_REG is" for "is"
    by (induction "is") (simp_all add: exists_vmstate)
  show ?thesis
    by (simp add: all exists_vmstate copy_regs copy_arrays saved_reg_def) (auto simp: fun_eq_iff intro!: E1000State.fold_congs)
qed

text \<open>
  C11: What is saved is restored: loading the bytes that saving wrote, whatever follows them, succeeds and
  gives the state of the target with exactly the fields of the table replaced by those of the source. The
  admin queue registers are not among the registers restored.
\<close>

theorem saved_state_restored:
  "vmstate_load_state 2 (vmstate_save_state s @ rest) t = (0, t\<lparr>
     mac_reg := (\<lambda>i. if saved_reg i then mac_reg s i else mac_reg t i),
     phy_reg := (\<lambda>i. if i < 0x20 then phy_reg s i else phy_reg t i),
     eeprom_data := (\<lambda>i. if i < 64 then eeprom_data s i else eeprom_data t i),
     rxbuf_size := rxbuf_size s, rxbuf_min_shift := rxbuf_min_shift s, eecd_state := eecd_state s,
     tx := (tx t)\<lparr>header := (\<lambda>i. if i < 256 then header (tx s) i else header (tx t) i),
       data := (\<lambda>i. if i < 0x10000 then data (tx s) i else data (tx t) i),
       tx_size := tx_size (tx s), sum_needed := sum_needed (tx s), ipcss := ipcss (tx s), ipcso := ipcso (tx s),
       ipcse := ipcse (tx s), tucss := tucss (tx s), tucso := tucso (tx s), tucse := tucse (tx s), hdr_len := hdr_len (tx s),
       mss := mss (tx s), paylen := paylen (tx s), tso_frames := tso_frames (tx s), ip := ip (tx s), tcp := tcp (tx s)\<rparr>\<rparr>) \<and>
   \<not> saved_reg PF_ATQBAH \<and> \<not> saved_reg PF_ATQBAL \<and> \<not> saved_reg PF_ATQH \<and> \<not> saved_reg PF_ATQLEN \<and> \<not> saved_reg PF_ATQT"
proof -
  have "load_fields 2 vmstate_e1000 (vmstate_save_state s @ rest) t =
      fold (copy_field s) (filter (\<lambda>f. field_exists f 2) vmstate_e1000) t"
    unfolding vmstate_save_state_def by (rule load_save_fields) (rule sound_vmstate)
  moreover have "\<not> saved_reg PF_ATQBAH \<and> \<not> saved_reg PF_ATQBAL \<and> \<not> saved_reg PF_ATQH \<and> \<not> saved_reg PF_ATQLEN \<and> \<not> saved_reg PF_ATQT"
    by (simp add: saved_reg_def vmstate_regs_def)
  ultimately show ?thesis
    unfolding vmstate_load_state_def
    by (simp only: vmstate_e1000_def filter_append [of _ vmstate_scalars] filter_append [of _ vmstate_buffers]
        fold_append o_def copy_scalars copy_buffers copy_vmstate_regs) (simp cong: if_cong)
qed

text \<open>A stream of version 1 has four more bytes in front, and other versions are refused.\<close>

lemma version_1_loaded:
  assumes "length ys = 4"
  shows "vmstate_load_state 1 (ys @ bs) t = vmstate_load_state 2 bs t"
proof -
  obtain tab where tab: "vmstate_e1000 = VMSTATE_UNUSED_TEST is_version_1 4 # tab"
    and same: "\<forall>f \<in> set tab. field_exists f 1 = field_exists f 2"
    by (auto simp: vmstate_e1000_def vmstate_scalars_def vmstate_buffers_def exists_vmstate)
  have "load_fields 1 tab bs t = load_fields 2 tab bs t"
    using same by (induction tab arbitrary: bs t) simp_all
  then show ?thesis
    using assms by (simp add: vmstate_load_state_def tab VMSTATE_UNUSED_TEST_def is_version_1_def)
qed

lemma other_versions_refused: "2 < v \<or> v = 0 \<Longrightarrow> vmstate_load_state v bs t = (- 22, t)"
  by (auto simp: vmstate_load_state_def)

end
