(* ===== verification/Net_Queue.thy ===== *)
theory Net_Queue
  imports VF_Prelude
begin

text \<open>
  The packet queue between network clients (\<^verbatim>\<open>net/queue.c\<close>). A queue has a delivery handler, which is a
  parameter: it is given a packet and the state behind \<^verbatim>\<open>opaque\<close>, and answers with a return code, the packets
  that it has sent through the same queue meanwhile, and the new state. A return code of zero means
  that the packet could not be taken. Clients are numbered, and a completion callback is a number too;
  \<open>cb\<close> says what calling it does to the state behind \<^verbatim>\<open>opaque\<close>. Flushing takes fuel, since a handler may
  send a new packet for every one that it takes.
\<close>

section \<open>Packets and queues\<close>

record NetPacket =
  pkt_sender :: nat
  pkt_flags :: u32
  pkt_sent_cb :: "nat option"
  pkt_data :: "u8 list"

record 'x NetQueue =
  packets :: "NetPacket list"
  delivering :: bool
  opaque :: 'x

type_synonym resend = "nat \<times> u32 \<times> u8 list"
type_synonym 'x handler = "nat \<Rightarrow> u32 \<Rightarrow> u8 list \<Rightarrow> 'x \<Rightarrow> (int \<times> resend list \<times> 'x) outcome"
type_synonym 'x iov_handler = "nat \<Rightarrow> u32 \<Rightarrow> u8 list list \<Rightarrow> 'x \<Rightarrow> (int \<times> resend list \<times> 'x) outcome"
type_synonym 'x sent_cb = "nat \<Rightarrow> nat \<Rightarrow> int \<Rightarrow> 'x \<Rightarrow> 'x"

definition qemu_new_net_queue :: "'x \<Rightarrow> 'x NetQueue" where
  "qemu_new_net_queue x = \<lparr>packets = [], delivering = False, opaque = x\<rparr>"

text \<open>The packets are taken out and freed one after the other, and then the queue is gone.\<close>

fun qemu_del_net_queue :: "'x NetQueue \<Rightarrow> NetPacket list \<Rightarrow> NetPacket list" where
  "qemu_del_net_queue queue [] = []"
| "qemu_del_net_queue queue (packet # next) = packet # qemu_del_net_queue (queue\<lparr>packets := next\<rparr>) next"

definition qemu_net_queue_append :: "'x NetQueue \<Rightarrow> nat \<Rightarrow> u32 \<Rightarrow> u8 list \<Rightarrow> nat option \<Rightarrow> int \<times> 'x NetQueue" where
  "qemu_net_queue_append queue sender flags buf sent_cb =
     (int (length buf),
      queue\<lparr>packets := packets queue @ [\<lparr>pkt_sender = sender, pkt_flags = flags, pkt_sent_cb = sent_cb, pkt_data = buf\<rparr>]\<rparr>)"

text \<open>The pieces of a vector are copied behind one another.\<close>

fun iov_copy :: "u8 list list \<Rightarrow> u8 list \<Rightarrow> u8 list" where
  "iov_copy [] dat = dat"
| "iov_copy (v # iov) dat = iov_copy iov (dat @ v)"

definition qemu_net_queue_append_iov ::
  "'x NetQueue \<Rightarrow> nat \<Rightarrow> u32 \<Rightarrow> u8 list list \<Rightarrow> nat option \<Rightarrow> int \<times> 'x NetQueue" where
  "qemu_net_queue_append_iov queue sender flags iov sent_cb =
     (let packet = \<lparr>pkt_sender = sender, pkt_flags = flags, pkt_sent_cb = sent_cb, pkt_data = iov_copy iov []\<rparr>
      in (int (length (pkt_data packet)), queue\<lparr>packets := packets queue @ [packet]\<rparr>))"

section \<open>Delivery\<close>

text \<open>What the handler sends while it runs finds \<^verbatim>\<open>delivering\<close> set and is appended without a callback.\<close>

definition resend :: "'x NetQueue \<Rightarrow> resend \<Rightarrow> 'x NetQueue" where
  "resend queue = (\<lambda>(sender, flags, dat). snd (qemu_net_queue_append queue sender flags dat None))"

definition qemu_net_queue_deliver :: "'x handler \<Rightarrow> 'x NetQueue \<Rightarrow> nat \<Rightarrow> u32 \<Rightarrow> u8 list \<Rightarrow> (int \<times> 'x NetQueue) outcome" where
  "qemu_net_queue_deliver deliver queue sender flags dat =
     bindO (deliver sender flags dat (opaque queue)) (\<lambda>(ret, sends, x).
     let queue = foldl resend (queue\<lparr>delivering := True, opaque := x\<rparr>) sends
     in Ok (ret, queue\<lparr>delivering := False\<rparr>))"

definition qemu_net_queue_deliver_iov ::
  "'x iov_handler \<Rightarrow> 'x NetQueue \<Rightarrow> nat \<Rightarrow> u32 \<Rightarrow> u8 list list \<Rightarrow> (int \<times> 'x NetQueue) outcome" where
  "qemu_net_queue_deliver_iov deliver_iov queue sender flags iov =
     bindO (deliver_iov sender flags iov (opaque queue)) (\<lambda>(ret, sends, x).
     let queue = foldl resend (queue\<lparr>delivering := True, opaque := x\<rparr>) sends
     in Ok (ret, queue\<lparr>delivering := False\<rparr>))"

definition call_sent_cb :: "'x sent_cb \<Rightarrow> NetPacket \<Rightarrow> int \<Rightarrow> 'x NetQueue \<Rightarrow> 'x NetQueue" where
  "call_sent_cb cb packet ret queue =
     (case pkt_sent_cb packet of
        Some c \<Rightarrow> queue\<lparr>opaque := cb c (pkt_sender packet) ret (opaque queue)\<rparr>
      | None \<Rightarrow> queue)"

fun qemu_net_queue_flush :: "'x handler \<Rightarrow> 'x sent_cb \<Rightarrow> nat \<Rightarrow> 'x NetQueue \<Rightarrow> 'x NetQueue outcome" where
  "qemu_net_queue_flush deliver cb 0 queue = Fault No_Return"
| "qemu_net_queue_flush deliver cb (Suc fuel) queue =
     (case packets queue of
        [] \<Rightarrow> Ok queue
      | packet # rest \<Rightarrow>
          bindO (qemu_net_queue_deliver deliver (queue\<lparr>packets := rest\<rparr>)
                   (pkt_sender packet) (pkt_flags packet) (pkt_data packet)) (\<lambda>(ret, queue).
          if ret = 0 then Ok (queue\<lparr>packets := packet # packets queue\<rparr>)
          else qemu_net_queue_flush deliver cb fuel (call_sent_cb cb packet ret queue)))"

definition qemu_net_queue_send ::
  "'x handler \<Rightarrow> 'x sent_cb \<Rightarrow> nat \<Rightarrow> 'x NetQueue \<Rightarrow> nat \<Rightarrow> u32 \<Rightarrow> u8 list \<Rightarrow> nat option \<Rightarrow> (int \<times> 'x NetQueue) outcome" where
  "qemu_net_queue_send deliver cb fuel queue sender flags dat sent_cb =
     (if delivering queue then Ok (qemu_net_queue_append queue sender flags dat None)
      else
        bindO (qemu_net_queue_deliver deliver queue sender flags dat) (\<lambda>(ret, queue).
        if ret = 0 then Ok (0, snd (qemu_net_queue_append queue sender flags dat sent_cb))
        else bindO (qemu_net_queue_flush deliver cb fuel queue) (\<lambda>queue. Ok (ret, queue))))"

definition qemu_net_queue_send_iov ::
  "'x handler \<Rightarrow> 'x iov_handler \<Rightarrow> 'x sent_cb \<Rightarrow> nat \<Rightarrow> 'x NetQueue \<Rightarrow> nat \<Rightarrow> u32 \<Rightarrow> u8 list list \<Rightarrow> nat option \<Rightarrow>
     (int \<times> 'x NetQueue) outcome" where
  "qemu_net_queue_send_iov deliver deliver_iov cb fuel queue sender flags iov sent_cb =
     (if delivering queue then Ok (qemu_net_queue_append_iov queue sender flags iov None)
      else
        bindO (qemu_net_queue_deliver_iov deliver_iov queue sender flags iov) (\<lambda>(ret, queue).
        if ret = 0 then Ok (0, snd (qemu_net_queue_append_iov queue sender flags iov sent_cb))
        else bindO (qemu_net_queue_flush deliver cb fuel queue) (\<lambda>queue. Ok (ret, queue))))"

fun purge_loop :: "nat \<Rightarrow> NetPacket list \<Rightarrow> NetPacket list" where
  "purge_loop from [] = []"
| "purge_loop from (packet # next) = (if pkt_sender packet = from then purge_loop from next else packet # purge_loop from next)"

definition qemu_net_queue_purge :: "'x NetQueue \<Rightarrow> nat \<Rightarrow> 'x NetQueue" where
  "qemu_net_queue_purge queue from = queue\<lparr>packets := purge_loop from (packets queue)\<rparr>"

section \<open>Vectors, purging and deletion\<close>

lemma iov_copy_concat: "iov_copy iov dat = dat @ concat iov"
  by (induction iov arbitrary: dat) simp_all

lemma append_iov_eq: "qemu_net_queue_append_iov q sender flags iov cb = qemu_net_queue_append q sender flags (concat iov) cb"
  by (simp add: qemu_net_queue_append_iov_def qemu_net_queue_append_def Let_def iov_copy_concat)

lemma purge_filter: "purge_loop from ps = filter (\<lambda>p. pkt_sender p \<noteq> from) ps"
  by (induction ps) simp_all

lemma del_frees_all: "qemu_del_net_queue q ps = ps"
  by (induction ps arbitrary: q) simp_all

section \<open>Flushing\<close>

text \<open>
  The effect of a handler that returns and does not send through its own queue, given as a function
  \<open>step\<close> of packet and state: one packet taken and its sender told, and as many from the front of the queue
  as are taken.
\<close>

definition taken :: "(nat \<Rightarrow> u32 \<Rightarrow> u8 list \<Rightarrow> 'x \<Rightarrow> int \<times> 'x) \<Rightarrow> 'x sent_cb \<Rightarrow> NetPacket \<Rightarrow> 'x \<Rightarrow> int \<times> 'x" where
  "taken step cb p x =
     (let (ret, x) = step (pkt_sender p) (pkt_flags p) (pkt_data p) x
      in (ret, if ret = 0 then x else case pkt_sent_cb p of Some c \<Rightarrow> cb c (pkt_sender p) ret x | None \<Rightarrow> x))"

fun take_all ::
  "(nat \<Rightarrow> u32 \<Rightarrow> u8 list \<Rightarrow> 'x \<Rightarrow> int \<times> 'x) \<Rightarrow> 'x sent_cb \<Rightarrow> NetPacket list \<Rightarrow> 'x \<Rightarrow> NetPacket list \<times> 'x" where
  "take_all step cb [] x = ([], x)"
| "take_all step cb (p # ps) x = (let (ret, x) = taken step cb p x in if ret = 0 then (p # ps, x) else take_all step cb ps x)"

locale delivery =
  fixes deliver :: "'x handler" and step :: "nat \<Rightarrow> u32 \<Rightarrow> u8 list \<Rightarrow> 'x \<Rightarrow> int \<times> 'x" and cb :: "'x sent_cb" and good :: "'x \<Rightarrow> bool"
  assumes deliver: "good x \<Longrightarrow> deliver sender flags dat x = Ok (fst (step sender flags dat x), [], snd (step sender flags dat x))"
    and good: "good x \<Longrightarrow> good (snd (step sender flags dat x))" "good x \<Longrightarrow> good (cb c sender r x)"
begin

lemma good_taken: "good x \<Longrightarrow> good (snd (taken step cb p x))"
  using good by (simp add: taken_def Let_def case_prod_beta split: option.splits)

lemma deliver_taken:
  assumes "good (opaque q)"
  shows "qemu_net_queue_deliver deliver q sender flags dat =
    Ok (fst (step sender flags dat (opaque q)), q\<lparr>delivering := False, opaque := snd (step sender flags dat (opaque q))\<rparr>)"
  using assms by (simp add: qemu_net_queue_deliver_def deliver Let_def)

lemma flush_takes:
  assumes "good (opaque q)" and "length (packets q) < fuel" and "\<not> delivering q"
  shows "qemu_net_queue_flush deliver cb fuel q =
    Ok (q\<lparr>packets := fst (take_all step cb (packets q) (opaque q)), opaque := snd (take_all step cb (packets q) (opaque q))\<rparr>)"
  using assms
proof (induction "packets q" arbitrary: q fuel)
  case Nil
  then obtain f where "fuel = Suc f" by (cases fuel) auto
  with Nil(1) [symmetric] show ?case by simp
next
  case (Cons p ps)
  then obtain f where f: "fuel = Suc f" "length ps < f" by (cases fuel) (auto simp flip: Cons(2))
  obtain ret x where t: "step (pkt_sender p) (pkt_flags p) (pkt_data p) (opaque q) = (ret, x)" by (cases "step (pkt_sender p) (pkt_flags p) (pkt_data p) (opaque q)")
  show ?case
  proof (cases "ret = 0")
    case True
    then show ?thesis
      using Cons(2) [symmetric] Cons.prems(1,3) t by (simp add: f(1) deliver_taken taken_def)
  next
    case False
    define q' where "q' = call_sent_cb cb p ret (q\<lparr>packets := ps, delivering := False, opaque := x\<rparr>)"
    have q': "packets q' = ps" "\<not> delivering q'" "opaque q' = snd (taken step cb p (opaque q))"
      "q'\<lparr>packets := a, opaque := b\<rparr> = q\<lparr>packets := a, opaque := b\<rparr>" for a b
      using Cons.prems(3) False by (auto simp: q'_def call_sent_cb_def taken_def t split: option.splits)
    have flush: "qemu_net_queue_flush deliver cb fuel q = qemu_net_queue_flush deliver cb f q'"
      using Cons(2) [symmetric] Cons.prems(1) False t by (simp add: f(1) deliver_taken q'_def)
    have "good (opaque q')" unfolding q'(3) by (rule good_taken [OF Cons.prems(1)])
    from Cons.hyps(1) [OF q'(1) [symmetric] this _ q'(2), of f] f(2)
    have "qemu_net_queue_flush deliver cb f q' =
        Ok (q'\<lparr>packets := fst (take_all step cb ps (opaque q')), opaque := snd (take_all step cb ps (opaque q'))\<rparr>)"
      by (simp add: q'(1))
    moreover have "take_all step cb (packets q) (opaque q) = take_all step cb ps (opaque q')"
      using Cons(2) [symmetric] False by (simp add: q'(3) taken_def t)
    ultimately show ?thesis unfolding flush q'(4) by simp
  qed
qed

text \<open>The packets taken are a first part of the queue, in order, and the others stay.\<close>

lemma take_all_suffix: "\<exists>k \<le> length ps. fst (take_all step cb ps x) = drop k ps"
proof (induction ps arbitrary: x)
  case (Cons p ps)
  show ?case
  proof (cases "fst (taken step cb p x) = 0")
    case True
    then show ?thesis by (intro exI [of _ 0]) (simp add: case_prod_beta)
  next
    case False
    from Cons.IH [of "snd (taken step cb p x)"] obtain k where "k \<le> length ps" "fst (take_all step cb ps (snd (taken step cb p x))) = drop k ps" by blast
    then show ?thesis using False by (intro exI [of _ "Suc k"]) (simp add: case_prod_beta)
  qed
qed simp

end

end
