(* ===== verification/Net_Vlan.thy ===== *)
theory Net_Vlan
  imports Net_Queue E1000_Rx
begin

text \<open>
  Network clients and how packets get from one to another (\<^verbatim>\<open>net.c\<close>): delivery to a single peer and to
  all clients of a VLAN, through the queues of \<^verbatim>\<open>net/queue.c\<close>. The handlers of a client are in its
  \<^verbatim>\<open>NetClientInfo\<close>; a receive handler answers with its return code, the packets it has sent meanwhile, and
  the new state of the client. The network device is one such client.
\<close>

section \<open>Clients\<close>

record 'n NetClientInfo =
  receive :: "u8 list \<Rightarrow> 'n \<Rightarrow> (int \<times> resend list \<times> 'n) outcome"
  receive_raw :: "(u8 list \<Rightarrow> 'n \<Rightarrow> (int \<times> resend list \<times> 'n) outcome) option"
  receive_iov :: "(u8 list list \<Rightarrow> 'n \<Rightarrow> (int \<times> resend list \<times> 'n) outcome) option"
  can_receive :: "('n \<Rightarrow> bool) option"

record 'n VLANClientState =
  vc_id :: nat
  info :: "'n NetClientInfo"
  link_down :: bool
  receive_disabled :: bool
  vc_opaque :: 'n

abbreviation (input) QEMU_NET_PACKET_FLAG_NONE :: u32 where "QEMU_NET_PACKET_FLAG_NONE \<equiv> 0"
abbreviation (input) QEMU_NET_PACKET_FLAG_RAW :: u32 where "QEMU_NET_PACKET_FLAG_RAW \<equiv> 1"

definition client_can_receive :: "'n VLANClientState \<Rightarrow> bool" where
  "client_can_receive vc = (case can_receive (info vc) of None \<Rightarrow> True | Some f \<Rightarrow> f (vc_opaque vc))"

text \<open>A packet handed to a client; a return code of zero disables further reception.\<close>

definition client_receive :: "u32 \<Rightarrow> u8 list \<Rightarrow> 'n VLANClientState \<Rightarrow> (int \<times> resend list \<times> 'n VLANClientState) outcome" where
  "client_receive flags dat vc =
     (let f = (if flags AND QEMU_NET_PACKET_FLAG_RAW \<noteq> 0
               then (case receive_raw (info vc) of Some g \<Rightarrow> g | None \<Rightarrow> receive (info vc))
               else receive (info vc))
      in bindO (f dat (vc_opaque vc)) (\<lambda>(ret, sends, st).
         let vc = vc\<lparr>vc_opaque := st\<rparr>
         in Ok (ret, sends, if ret = 0 then vc\<lparr>receive_disabled := True\<rparr> else vc)))"

definition qemu_deliver_packet :: "'n VLANClientState handler" where
  "qemu_deliver_packet sender flags dat vc =
     (if link_down vc then Ok (int (length dat), [], vc)
      else if receive_disabled vc then Ok (0, [], vc)
      else client_receive flags dat vc)"

fun vlan_loop ::
  "nat \<Rightarrow> u32 \<Rightarrow> u8 list \<Rightarrow> int \<Rightarrow> 'n VLANClientState list \<Rightarrow> (int \<times> resend list \<times> 'n VLANClientState list) outcome" where
  "vlan_loop sender flags buf ret [] = Ok (ret, [], [])"
| "vlan_loop sender flags buf ret (vc # vcs) =
     (if vc_id vc = sender then
        bindO (vlan_loop sender flags buf ret vcs) (\<lambda>(ret, sends, vcs). Ok (ret, sends, vc # vcs))
      else if link_down vc then
        bindO (vlan_loop sender flags buf (int (length buf)) vcs) (\<lambda>(ret, sends, vcs). Ok (ret, sends, vc # vcs))
      else if receive_disabled vc then
        bindO (vlan_loop sender flags buf 0 vcs) (\<lambda>(ret, sends, vcs). Ok (ret, sends, vc # vcs))
      else
        bindO (client_receive flags buf vc) (\<lambda>(len, sends, vc).
        bindO (vlan_loop sender flags buf (if ret \<ge> 0 then ret else len) vcs) (\<lambda>(ret, sends', vcs).
        Ok (ret, sends @ sends', vc # vcs))))"

definition qemu_vlan_deliver_packet :: "'n VLANClientState list handler" where
  "qemu_vlan_deliver_packet sender flags buf clients = vlan_loop sender flags buf (- 1) clients"

section \<open>Vectors\<close>

fun sendv_compat_loop :: "u8 list list \<Rightarrow> u8 list \<Rightarrow> u8 list" where
  "sendv_compat_loop [] buffer = buffer"
| "sendv_compat_loop (v # iov) buffer = sendv_compat_loop iov (buffer @ take (min (4096 - length buffer) (length v)) v)"

definition vc_sendv_compat :: "'n VLANClientState \<Rightarrow> u8 list list \<Rightarrow> (int \<times> resend list \<times> 'n VLANClientState) outcome" where
  "vc_sendv_compat vc iov =
     bindO (receive (info vc) (sendv_compat_loop iov []) (vc_opaque vc)) (\<lambda>(ret, sends, st). Ok (ret, sends, vc\<lparr>vc_opaque := st\<rparr>))"

fun calc_iov_length :: "u8 list list \<Rightarrow> nat" where
  "calc_iov_length [] = 0"
| "calc_iov_length (v # iov) = length v + calc_iov_length iov"

definition client_receive_iov :: "u8 list list \<Rightarrow> 'n VLANClientState \<Rightarrow> (int \<times> resend list \<times> 'n VLANClientState) outcome" where
  "client_receive_iov iov vc =
     (case receive_iov (info vc) of
        Some f \<Rightarrow> bindO (f iov (vc_opaque vc)) (\<lambda>(ret, sends, st). Ok (ret, sends, vc\<lparr>vc_opaque := st\<rparr>))
      | None \<Rightarrow> vc_sendv_compat vc iov)"

definition qemu_deliver_packet_iov :: "'n VLANClientState iov_handler" where
  "qemu_deliver_packet_iov sender flags iov vc =
     (if link_down vc then Ok (int (calc_iov_length iov), [], vc) else client_receive_iov iov vc)"

section \<open>Sending\<close>

text \<open>Where a client is attached: a peer or a VLAN, each with its queue, or nothing.\<close>

datatype 'n attachment =
  Unattached
| Peer "'n VLANClientState NetQueue"
| Vlan "'n VLANClientState list NetQueue"

definition qemu_can_send_packet :: "nat \<Rightarrow> 'n attachment \<Rightarrow> bool" where
  "qemu_can_send_packet sender att =
     (case att of
        Peer q \<Rightarrow> \<not> receive_disabled (opaque q) \<and> client_can_receive (opaque q)
      | Unattached \<Rightarrow> True
      | Vlan q \<Rightarrow> list_ex (\<lambda>vc. vc_id vc \<noteq> sender \<and> client_can_receive vc) (opaque q))"

definition qemu_send_packet_async_with_flags ::
  "'n VLANClientState sent_cb \<Rightarrow> 'n VLANClientState list sent_cb \<Rightarrow> nat \<Rightarrow> 'n VLANClientState \<Rightarrow> 'n attachment \<Rightarrow>
     u32 \<Rightarrow> u8 list \<Rightarrow> nat option \<Rightarrow> (int \<times> 'n attachment) outcome" where
  "qemu_send_packet_async_with_flags pcb vcb fuel sender att flags buf sent_cb =
     (if link_down sender then Ok (int (length buf), att)
      else case att of
        Unattached \<Rightarrow> Ok (int (length buf), att)
      | Peer q \<Rightarrow> bindO (qemu_net_queue_send qemu_deliver_packet pcb fuel q (vc_id sender) flags buf sent_cb)
                   (\<lambda>(ret, q). Ok (ret, Peer q))
      | Vlan q \<Rightarrow> bindO (qemu_net_queue_send qemu_vlan_deliver_packet vcb fuel q (vc_id sender) flags buf sent_cb)
                   (\<lambda>(ret, q). Ok (ret, Vlan q)))"

definition qemu_send_packet_async ::
  "'n VLANClientState sent_cb \<Rightarrow> 'n VLANClientState list sent_cb \<Rightarrow> nat \<Rightarrow> 'n VLANClientState \<Rightarrow> 'n attachment \<Rightarrow>
     u8 list \<Rightarrow> nat option \<Rightarrow> (int \<times> 'n attachment) outcome" where
  "qemu_send_packet_async pcb vcb fuel sender att buf sent_cb =
     qemu_send_packet_async_with_flags pcb vcb fuel sender att QEMU_NET_PACKET_FLAG_NONE buf sent_cb"

definition qemu_send_packet ::
  "'n VLANClientState sent_cb \<Rightarrow> 'n VLANClientState list sent_cb \<Rightarrow> nat \<Rightarrow> 'n VLANClientState \<Rightarrow> 'n attachment \<Rightarrow>
     u8 list \<Rightarrow> 'n attachment outcome" where
  "qemu_send_packet pcb vcb fuel vc att buf =
     bindO (qemu_send_packet_async pcb vcb fuel vc att buf None) (\<lambda>(ret, att). Ok att)"

definition qemu_send_packet_raw ::
  "'n VLANClientState sent_cb \<Rightarrow> 'n VLANClientState list sent_cb \<Rightarrow> nat \<Rightarrow> 'n VLANClientState \<Rightarrow> 'n attachment \<Rightarrow>
     u8 list \<Rightarrow> (int \<times> 'n attachment) outcome" where
  "qemu_send_packet_raw pcb vcb fuel vc att buf =
     qemu_send_packet_async_with_flags pcb vcb fuel vc att QEMU_NET_PACKET_FLAG_RAW buf None"

definition qemu_purge_queued_packets :: "nat \<Rightarrow> 'n attachment \<Rightarrow> 'n attachment" where
  "qemu_purge_queued_packets vc att =
     (case att of
        Unattached \<Rightarrow> Unattached
      | Peer q \<Rightarrow> Peer (qemu_net_queue_purge q vc)
      | Vlan q \<Rightarrow> Vlan (qemu_net_queue_purge q vc))"

text \<open>Flushing what waits for a client on its own queue: it is ready to receive again.\<close>

definition qemu_flush_queued_packets ::
  "'n VLANClientState sent_cb \<Rightarrow> nat \<Rightarrow> 'n VLANClientState NetQueue \<Rightarrow> 'n VLANClientState NetQueue outcome" where
  "qemu_flush_queued_packets pcb fuel q =
     qemu_net_queue_flush qemu_deliver_packet pcb fuel (q\<lparr>opaque := (opaque q)\<lparr>receive_disabled := False\<rparr>\<rparr>)"

section \<open>The network device as a client\<close>

definition net_e1000_info :: "nat \<Rightarrow> nic NetClientInfo" where
  "net_e1000_info fuel = \<lparr>
     receive = (\<lambda>buf n. bindO (e1000_receive fuel n buf) (\<lambda>(ret, n). Ok (ret, [], n))),
     receive_raw = None, receive_iov = None,
     can_receive = Some (\<lambda>n. e1000_can_receive (dev n))\<rparr>"

section \<open>Delivery to all clients of a VLAN\<close>

text \<open>What one client of a VLAN sees of a packet.\<close>

definition got_packet :: "nat \<Rightarrow> u32 \<Rightarrow> u8 list \<Rightarrow> 'n VLANClientState \<Rightarrow> 'n VLANClientState \<Rightarrow> bool" where
  "got_packet sender flags buf vc vc' \<longleftrightarrow>
     (if vc_id vc = sender \<or> link_down vc \<or> receive_disabled vc then vc' = vc
      else \<exists>len sends. client_receive flags buf vc = Ok (len, sends, vc'))"

lemma vlan_loop_delivers:
  assumes "list_all (\<lambda>vc. \<exists>r. client_receive flags buf vc = Ok r) vcs"
  shows "\<exists>ret' sends vcs'. vlan_loop sender flags buf ret vcs = Ok (ret', sends, vcs') \<and>
    list_all2 (got_packet sender flags buf) vcs vcs'"
  using assms
proof (induction vcs arbitrary: ret)
  case (Cons vc vcs)
  then have IH: "\<exists>ret' sends vcs'. vlan_loop sender flags buf r vcs = Ok (ret', sends, vcs') \<and>
    list_all2 (got_packet sender flags buf) vcs vcs'" for r by simp
  show ?case
  proof (cases "vc_id vc = sender \<or> link_down vc \<or> receive_disabled vc")
    case True
    define r where "r = (if vc_id vc = sender then ret else if link_down vc then int (length buf) else 0)"
    obtain ret' sends vcs' where "vlan_loop sender flags buf r vcs = Ok (ret', sends, vcs')"
        "list_all2 (got_packet sender flags buf) vcs vcs'" using IH by blast
    moreover have "got_packet sender flags buf vc vc" using True by (simp add: got_packet_def)
    ultimately show ?thesis using True by (auto simp: r_def split: if_splits)
  next
    case False
    obtain len s vc' where 1: "client_receive flags buf vc = Ok (len, s, vc')" using Cons.prems by auto
    obtain ret' sends vcs' where "vlan_loop sender flags buf (if ret \<ge> 0 then ret else len) vcs = Ok (ret', sends, vcs')"
        "list_all2 (got_packet sender flags buf) vcs vcs'" using IH by blast
    moreover have "got_packet sender flags buf vc vc'" using False 1 by (simp add: got_packet_def)
    ultimately show ?thesis using False 1 by auto
  qed
qed simp


text \<open>A client that counts bytes, and one that does not take anything.\<close>

definition counter_info :: "nat NetClientInfo" where
  "counter_info = \<lparr>receive = (\<lambda>buf n. Ok (int (length buf), [], n + length buf)), receive_raw = None, receive_iov = None, can_receive = None\<rparr>"

definition counter :: "nat \<Rightarrow> bool \<Rightarrow> nat VLANClientState" where
  "counter i off = \<lparr>vc_id = i, info = counter_info, link_down = False, receive_disabled = off, vc_opaque = 0\<rparr>"


text \<open>
  When another client has stopped reception the result is zero although the packet was delivered: it is
  queued, and the next flush delivers it to the same client again.
\<close>

lemma vlan_delivers_twice:
  "\<exists>q q'. qemu_net_queue_send qemu_vlan_deliver_packet (\<lambda>_ _ _ x. x) 2 (qemu_new_net_queue [counter 2 False, counter 3 True]) 1 0 [7, 7] None = Ok (0, q) \<and>
     qemu_net_queue_flush qemu_vlan_deliver_packet (\<lambda>_ _ _ x. x) 2 (q\<lparr>opaque := map (\<lambda>vc. vc\<lparr>receive_disabled := False\<rparr>) (opaque q)\<rparr>) = Ok q' \<and>
     map vc_opaque (opaque q) = [2, 0] \<and> map vc_opaque (opaque q') = [4, 2]"
  by (simp add: qemu_net_queue_send_def qemu_net_queue_deliver_def qemu_vlan_deliver_packet_def qemu_new_net_queue_def
      client_receive_def counter_def counter_info_def qemu_net_queue_append_def numeral_2_eq_2 call_sent_cb_def Let_def)

section \<open>Frames queued for the network device\<close>

lemma rx_loop_keeps:
  assumes "rx_loop fuel h frame sp st n = Ok (ok, n')" and "j \<notin> {RDH, ICR, ICS}"
  shows "mac_reg (dev n') j = mac_reg (dev n) j"
  using assms(1)
proof (induction fuel arbitrary: n)
  case (Suc fuel)
  let ?m = "snd (rx_store frame sp st n)"
  have "mac_reg (dev ?m) j = mac_reg (dev n) j" using assms(2) by (simp add: rx_store_sel)
  with Suc assms(2) show ?case by (auto simp: rx_overrun_def case_prod_beta split: if_splits)
qed simp

lemma receive_keeps:
  assumes "e1000_receive fuel n buf = Ok (r, n')" and "j = RDT \<or> j = RDLEN"
  shows "mac_reg (dev n') j = mac_reg (dev n) j"
proof (cases "n' = n")
  case False
  with assms(1) obtain h frame sp st ok m where m: "rx_loop fuel h frame sp st n = Ok (ok, m)"
    and "n' = m \<or> n' = rx_finish (length frame) m"
    by (rule receive_loop)
  moreover have "mac_reg (dev (rx_finish k m)) j = mac_reg (dev m) j" for k
    using assms(2) by (auto simp: rx_finish_def rx_counters_def Let_def)
  moreover have "mac_reg (dev m) j = mac_reg (dev n) j"
    using rx_loop_keeps [OF m, of j] assms(2) by auto
  ultimately show ?thesis by metis
qed simp

lemma receive_not_0: "e1000_receive fuel n buf = Ok (r, n') \<Longrightarrow> r \<noteq> 0"
proof -
  have "56 \<le> length (rx_frame s (pad_frame buf))" for s by (auto simp: rx_frame_def pad_frame_def)
  then have "length (rx_frame s (pad_frame buf)) \<noteq> 0" for s by (metis le_zero_eq zero_neq_numeral)
  moreover have "length (pad_frame buf) \<noteq> 0" by (auto simp: pad_frame_def)
  ultimately show "e1000_receive fuel n buf = Ok (r, n') \<Longrightarrow> ?thesis"
    by (auto simp: e1000_receive_def Let_def bindO_eq_Ok_conv split: if_splits)
qed

text \<open>A device whose receive ring can be used: its tail lies inside the ring.\<close>

definition rx_ready :: "nic \<Rightarrow> bool" where
  "rx_ready n \<longleftrightarrow> ring_ok (dev n) \<and> in_ring (mac_reg (dev n) RDLEN) (mac_reg (dev n) RDT)"

abbreviation (input) rx_fuel :: nat where "rx_fuel \<equiv> 131072"

lemma receive_ready:
  assumes "rx_ready n"
  obtains r n' where "e1000_receive rx_fuel n buf = Ok (r, n')" and "r \<noteq> 0" and "rx_ready n'"
proof -
  obtain r n' where r: "e1000_receive rx_fuel n buf = Ok (r, n')"
    using receive_returns [of n rx_fuel buf] assms by (auto simp: rx_ready_def)
  have "ring_ok (dev n')"
    using rings.inv_receive [OF r] assms ring_ok_bounds [of "dev n"] by (simp add: rx_ready_def)
  then have "rx_ready n'" using assms receive_keeps [OF r] by (simp add: rx_ready_def)
  then show ?thesis using r receive_not_0 [OF r] that by blast
qed

definition e1000_client :: "nat \<Rightarrow> nic \<Rightarrow> nic VLANClientState" where
  "e1000_client i n = \<lparr>vc_id = i, info = net_e1000_info rx_fuel, link_down = False, receive_disabled = False, vc_opaque = n\<rparr>"

definition e1000_step :: "nat \<Rightarrow> u32 \<Rightarrow> u8 list \<Rightarrow> nic VLANClientState \<Rightarrow> int \<times> nic VLANClientState" where
  "e1000_step sender flags dat vc =
     (case e1000_receive rx_fuel (vc_opaque vc) dat of Ok (ret, n) \<Rightarrow> (ret, vc\<lparr>vc_opaque := n\<rparr>) | Fault e \<Rightarrow> (0, vc))"

definition e1000_ready :: "nic VLANClientState \<Rightarrow> bool" where
  "e1000_ready vc \<longleftrightarrow> (\<exists>i n. vc = e1000_client i n \<and> rx_ready n)"

lemma e1000_deliver:
  assumes "e1000_receive rx_fuel n dat = Ok (r, n')" and "r \<noteq> 0"
  shows "qemu_deliver_packet sender flags dat (e1000_client i n) = Ok (r, [], e1000_client i n')"
    and "e1000_step sender flags dat (e1000_client i n) = (r, e1000_client i n')"
  using assms
  by (simp_all add: qemu_deliver_packet_def client_receive_def e1000_client_def net_e1000_info_def e1000_step_def)

interpretation e1000_queue: delivery qemu_deliver_packet e1000_step "\<lambda>_ _ _ x. x" e1000_ready
proof
  fix x :: "nic VLANClientState" and sender flags dat
  assume "e1000_ready x"
  then obtain i n where x: "x = e1000_client i n" "rx_ready n" by (auto simp: e1000_ready_def)
  obtain r n' where r: "e1000_receive rx_fuel n dat = Ok (r, n')" "r \<noteq> 0" "rx_ready n'"
    by (rule receive_ready [OF x(2)])
  show "qemu_deliver_packet sender flags dat x = Ok (fst (e1000_step sender flags dat x), [], snd (e1000_step sender flags dat x))"
    using e1000_deliver [OF r(1,2)] by (simp add: x(1))
  show "e1000_ready (snd (e1000_step sender flags dat x))"
    using e1000_deliver(2) [OF r(1,2)] r(3) by (auto simp: x(1) e1000_ready_def)
qed

fun receive_all :: "u8 list list \<Rightarrow> nic \<Rightarrow> nic outcome" where
  "receive_all [] n = Ok n"
| "receive_all (f # frames) n = bindO (e1000_receive rx_fuel n f) (\<lambda>(r, n). receive_all frames n)"

lemma take_all_e1000:
  assumes "rx_ready n"
  shows "\<exists>n'. receive_all (map pkt_data ps) n = Ok n' \<and> rx_ready n' \<and>
    take_all e1000_step (\<lambda>_ _ _ x. x) ps (e1000_client i n) = ([], e1000_client i n')"
  using assms
proof (induction ps arbitrary: n)
  case (Cons p ps)
  obtain r n1 where r: "e1000_receive rx_fuel n (pkt_data p) = Ok (r, n1)" "r \<noteq> 0" "rx_ready n1"
    by (rule receive_ready [OF Cons.prems])
  then show ?case
    using Cons.IH [OF r(3)] e1000_deliver(2) [OF r(1,2)]
    by (auto simp: taken_def split: option.splits)
qed simp

text \<open>
  C8: Frames that wait for the network device reach it: when the tail of its receive ring lies inside the
  ring, flushing the queue ends, hands every waiting frame to \<^verbatim>\<open>e1000_receive\<close> in the order they were
  queued, and leaves the queue empty.
\<close>

theorem queued_frames_reach_device:
  assumes "rx_ready n" and "length ps < fuel"
  shows "\<exists>n'. receive_all (map pkt_data ps) n = Ok n' \<and>
    qemu_net_queue_flush qemu_deliver_packet (\<lambda>_ _ _ x. x) fuel \<lparr>packets = ps, delivering = False, opaque = e1000_client i n\<rparr> =
      Ok \<lparr>packets = [], delivering = False, opaque = e1000_client i n'\<rparr>"
proof -
  obtain n' where n': "receive_all (map pkt_data ps) n = Ok n'"
      "take_all e1000_step (\<lambda>_ _ _ x. x) ps (e1000_client i n) = ([], e1000_client i n')"
    using take_all_e1000 [OF assms(1)] by blast
  have "e1000_ready (e1000_client i n)" using assms(1) by (auto simp: e1000_ready_def)
  then show ?thesis
    using e1000_queue.flush_takes [of "\<lparr>packets = ps, delivering = False, opaque = e1000_client i n\<rparr>" fuel] assms(2) n'
    by simp
qed

theorem queued_frames_reach_device_witness:
  "\<exists>n'. receive_all [[1, 2], [3]] nic_rx = Ok n' \<and>
    qemu_net_queue_flush qemu_deliver_packet (\<lambda>_ _ _ x. x) 3
      \<lparr>packets = [\<lparr>pkt_sender = 1, pkt_flags = 0, pkt_sent_cb = None, pkt_data = [1, 2]\<rparr>,
                  \<lparr>pkt_sender = 1, pkt_flags = 0, pkt_sent_cb = Some 4, pkt_data = [3]\<rparr>],
       delivering = False, opaque = e1000_client 2 nic_rx\<rparr> =
      Ok \<lparr>packets = [], delivering = False, opaque = e1000_client 2 n'\<rparr>"
proof -
  have "rx_ready nic_rx"
    by (simp add: rx_ready_def ring_ok_def in_ring_def nic_rx_def dev0_def)
  from queued_frames_reach_device [OF this, of
      "[\<lparr>pkt_sender = 1, pkt_flags = 0, pkt_sent_cb = None, pkt_data = [1, 2]\<rparr>,
        \<lparr>pkt_sender = 1, pkt_flags = 0, pkt_sent_cb = Some 4, pkt_data = [3]\<rparr>]" 3 2]
  show ?thesis by simp
qed

section \<open>What the queue does not promise\<close>

text \<open>A packet without a callback that is not taken is queued, too.\<close>

lemma queued_without_callback:
  "\<exists>q. qemu_net_queue_send qemu_deliver_packet (\<lambda>_ _ _ x. x) 1 (qemu_new_net_queue (counter 2 True)) 1 0 [7] None = Ok (0, q) \<and>
     length (packets q) = 1"
  by (simp add: qemu_net_queue_send_def qemu_net_queue_deliver_def qemu_deliver_packet_def qemu_new_net_queue_def counter_def
      qemu_net_queue_append_def)

text \<open>
  A vector for a client without a vector handler is copied to a buffer of 4096 bytes: what does not fit
  is cut off.
\<close>

lemma sendv_compat_truncates: "sendv_compat_loop iov buf = (if length buf \<le> 4096 then take 4096 (buf @ concat iov) else buf)"
proof (induction iov arbitrary: buf)
  case (Cons v iov)
  have "take 4096 ((buf @ take (min (4096 - length buf) (length v)) v) @ concat iov) = take 4096 (buf @ v @ concat iov)"
    if "length buf \<le> 4096"
    using that by (cases "length v \<le> 4096 - length buf") (auto simp: min_def)
  then show ?case using Cons by auto
qed simp

end
