(* ===== verification/Apps.thy ===== *)
theory Apps
  imports Discovery
begin

text \<open>
  The test programs of the message layer: \<^verbatim>\<open>vf_tx/demo.c\<close>, \<^verbatim>\<open>vf_tx/sendrcv.c\<close> and \<^verbatim>\<open>vf_tx/oldcode/tinymsg.c\<close>
  (without Winsock). Each is a server that announces itself and prints one message, or a client that
  locates the server and sends one. Standard input and files are given by their contents, \<open>args\<close> are the
  command line arguments with the program name, and what is printed is a result; prompts and progress
  messages are left out.
\<close>

section \<open>Library functions\<close>

text \<open>
  \<^verbatim>\<open>fgets\<close> with a buffer of \<open>n\<close> elements: at most \<open>n - 1\<close>, up to and including the first newline; the result is
  what was read and what is left, or nothing at the end of the input.
\<close>

definition fgets :: "'a \<Rightarrow> nat \<Rightarrow> 'a list \<Rightarrow> ('a list \<times> 'a list) option" where
  "fgets nl n inp =
     (if inp = [] then None
      else let line = take (n - 1) (takeWhile (\<lambda>c. c \<noteq> nl) inp @ (if nl \<in> set inp then [nl] else []))
           in Some (line, drop (length line) inp))"

definition cbytes :: "u8 list \<Rightarrow> u8 list" where
  "cbytes bs = takeWhile (\<lambda>c. c \<noteq> 0) bs"

abbreviation (input) MAX_MSGSIZE :: nat where "MAX_MSGSIZE \<equiv> 1024"

definition zero_buffer :: "u8 list" where
  "zero_buffer = replicate (MAX_MSGSIZE + 1) 0"

text \<open>Bytes and the terminating zero stored at the start of a buffer.\<close>

definition store_string :: "u8 list \<Rightarrow> u8 list \<Rightarrow> u8 list" where
  "store_string bs buf = bs @ [0] @ drop (Suc (length bs)) buf"

section \<open>Arguments\<close>

definition is_server_arg :: "string \<Rightarrow> bool" where
  "is_server_arg a \<longleftrightarrow> (case a of c # d # _ \<Rightarrow> c = CHR ''-'' \<and> (d = CHR ''s'' \<or> d = CHR ''S'') | _ \<Rightarrow> False)"

fun ProcessArgs_loop :: "string list \<Rightarrow> bool \<Rightarrow> bool" where
  "ProcessArgs_loop [] bIsServer = bIsServer"
| "ProcessArgs_loop (a # args) bIsServer = ProcessArgs_loop args (if is_server_arg a then True else bIsServer)"

definition ProcessArgs :: "string list \<Rightarrow> bool" where
  "ProcessArgs args = ProcessArgs_loop (drop 1 args) False"

section \<open>The demonstration program\<close>

definition demo_server :: "'w os \<Rightarrow> u32 \<Rightarrow> ('w, i32 \<times> u8 list) M" where
  "demo_server os socket =
     bindM (recvdata os socket (of_nat MAX_MSGSIZE)) (\<lambda>(rc, bs, msg_size).
     if rc = SOCKET_ERROR then returnM (- 1, [])
     else returnM (0, cbytes (bs @ drop (length bs) zero_buffer)))"

definition demo_client :: "'w os \<Rightarrow> u16 \<Rightarrow> u32 \<Rightarrow> u8 list \<Rightarrow> ('w, i32) M" where
  "demo_client os pad socket stdin =
     (let msg = (case fgets 10 MAX_MSGSIZE stdin of None \<Rightarrow> zero_buffer | Some (line, _) \<Rightarrow> store_string line zero_buffer) in
      bindM (senddata os pad socket msg (of_nat (length (cbytes msg)))) (\<lambda>rc.
      if rc = SOCKET_ERROR then returnM (- 1) else returnM 0))"

definition demo_main :: "'w os \<Rightarrow> u16 \<Rightarrow> nat \<Rightarrow> string list \<Rightarrow> u8 list \<Rightarrow> ('w, i32 \<times> u8 list) M" where
  "demo_main os pad fuel args stdin =
     (let finish = (\<lambda>s r. bindM (close_fd os (word_of_int s)) (\<lambda>_. returnM r)) in
      if ProcessArgs args then
        bindM (announce os fuel (Some ''demo.optrc'')) (\<lambda>s.
        if s = INVALID_SOCKET then finish s (- 1, [])
        else bindM (demo_server os (word_of_int s)) (finish s))
      else
        bindM (locate os fuel (Some ''demo.optrc'')) (\<lambda>s.
        if s = INVALID_SOCKET then finish s (- 1, [])
        else bindM (demo_client os pad (word_of_int s) stdin) (\<lambda>rc. finish s (rc, []))))"

section \<open>The old message program\<close>

definition tinymsg_client :: "'w os \<Rightarrow> u16 \<Rightarrow> u32 \<Rightarrow> ('w, i32) M" where
  "tinymsg_client os pad socket =
     (let msg = store_string (map of_char ''Hello, this is the client!'') zero_buffer in
      senddata os pad socket msg (of_nat (length (cbytes msg))))"

definition tinymsg_server :: "'w os \<Rightarrow> u32 \<Rightarrow> ('w, i32 \<times> u8 list) M" where
  "tinymsg_server os socket =
     bindM (recvdata os socket (of_nat MAX_MSGSIZE)) (\<lambda>(rc, bs, msg_size).
     if rc = SOCKET_ERROR then returnM (rc, [])
     else returnM (rc, cbytes (bs @ drop (length bs) zero_buffer)))"

definition tinymsg_main :: "'w os \<Rightarrow> u16 \<Rightarrow> nat \<Rightarrow> string list \<Rightarrow> ('w, i32 \<times> u8 list) M" where
  "tinymsg_main os pad fuel args =
     (let finish = (\<lambda>s r. bindM (close_fd os (word_of_int s)) (\<lambda>_. returnM r)) in
      if ProcessArgs args then
        bindM (announce os fuel (Some ''tinymsg.optrc'')) (\<lambda>s.
        if s = INVALID_SOCKET then finish s (- 1, [])
        else bindM (tinymsg_server os (word_of_int s)) (finish s))
      else
        bindM (locate os fuel (Some ''tinymsg.optrc'')) (\<lambda>s.
        if s = INVALID_SOCKET then finish s (- 1, [])
        else bindM (tinymsg_client os pad (word_of_int s)) (\<lambda>rc. finish s (rc, []))))"

section \<open>The send and receive program\<close>

text \<open>The loop over the file with the size: the value of its last piece of at most four characters.\<close>

function read_size :: "string \<Rightarrow> i32 \<Rightarrow> i32 outcome" where
  "read_size inp buffSize =
     (case fgets (CHR 0x0A) 5 inp of
        None \<Rightarrow> Ok buffSize
      | Some (s, rest) \<Rightarrow> bindO (atoi (cstr s)) (\<lambda>v. read_size rest v))"
  by pat_completeness auto

text \<open>
  The loop over the lines of the file: \<^verbatim>\<open>msg\<close> holds the last line, over what longer lines have left, and
  the size is its length unless a file with the size is given.
\<close>

function read_lines :: "nat \<Rightarrow> string option \<Rightarrow> u8 list \<Rightarrow> u8 list \<Rightarrow> i32 \<Rightarrow> (u8 list \<times> i32) outcome" where
  "read_lines argc size_file inp msg buffSize =
     (case fgets 10 MAX_MSGSIZE inp of
        None \<Rightarrow> Ok (msg, buffSize)
      | Some (line, rest) \<Rightarrow>
          let msg = store_string line msg in
          bindO (if argc = 3 then Ok (int (length (cbytes msg)))
                 else case size_file of None \<Rightarrow> Ok buffSize | Some txt \<Rightarrow> read_size txt buffSize) (\<lambda>buffSize.
          read_lines argc size_file rest msg buffSize))"
  by pat_completeness auto

lemma fgets_less:
  assumes "fgets nl n inp = Some (line, rest)" and "1 < n"
  shows "length rest < length inp"
proof -
  have "takeWhile (\<lambda>c. c \<noteq> nl) inp @ (if nl \<in> set inp then [nl] else []) \<noteq> []" if "inp \<noteq> []"
    using that by (cases inp) auto
  then show ?thesis using assms by (auto simp: fgets_def Let_def split: if_splits)
qed

termination read_lines
  by (relation "measure (\<lambda>(argc, f, inp, msg, n). length inp)") (auto dest: fgets_less)

termination read_size
  by (relation "measure (\<lambda>(inp, n). length inp)") (auto dest: fgets_less)

declare read_lines.simps [simp del] read_size.simps [simp del]

text \<open>
  \<open>file\<close> is what \<^verbatim>\<open>fopen\<close> finds for the second argument, a null pointer if there is only one, and \<open>size_file\<close>
  for the third. Without any argument the program reads past the end of its argument vector.
\<close>

definition sendrcv_server :: "'w os \<Rightarrow> u32 \<Rightarrow> ('w, i32 \<times> (u8 list \<times> u16) option) M" where
  "sendrcv_server os socket =
     bindM (recvdata os socket (of_nat MAX_MSGSIZE)) (\<lambda>(rc, bs, msg_size).
     if rc = SOCKET_ERROR then returnM (- 1, None)
     else returnM (0, Some (cbytes (bs @ drop (length bs) zero_buffer), msg_size)))"

definition sendrcv_client :: "'w os \<Rightarrow> u16 \<Rightarrow> u32 \<Rightarrow> u8 list \<Rightarrow> i32 \<Rightarrow> ('w, i32) M" where
  "sendrcv_client os pad socket msg buffSize =
     bindM (senddata os pad socket msg (word_of_int buffSize)) (\<lambda>rc.
     if rc = SOCKET_ERROR then returnM (- 1) else returnM 0)"

definition sendrcv_main ::
  "'w os \<Rightarrow> u16 \<Rightarrow> nat \<Rightarrow> (string option \<Rightarrow> u8 list option) \<Rightarrow> (string \<Rightarrow> string option) \<Rightarrow> string list \<Rightarrow> ('w, i32 \<times> (u8 list \<times> u16) option) M" where
  "sendrcv_main os pad fuel file size_file args =
     (let argc = length args;
          finish = (\<lambda>s r. bindM (close_fd os (word_of_int s)) (\<lambda>_. returnM r)) in
      if argc < 2 then faultM Out_Of_Bounds
      else
        let fp = file (if argc = 2 then None else Some (args ! 2)) in
        if ProcessArgs args then
          bindM (announce os fuel (Some ''tinymsg.optrc'')) (\<lambda>s.
          if s = INVALID_SOCKET then finish s (- 1, None)
          else bindM (sendrcv_server os (word_of_int s)) (finish s))
        else if argc < 3 then returnM (1, None)
        else case fp of
          None \<Rightarrow> returnM (3, None)
        | Some inp \<Rightarrow>
            bindM (\<lambda>h. bindO (read_lines argc (if argc = 3 then None else size_file (args ! 3)) inp zero_buffer 0) (\<lambda>r. Ok (r, h))) (\<lambda>(msg, buffSize).
            bindM (locate os fuel (Some ''tinymsg.optrc'')) (\<lambda>s.
            if s = INVALID_SOCKET then finish s (- 1, None)
            else bindM (sendrcv_client os pad (word_of_int s) msg buffSize) (\<lambda>rc. finish s (rc, None)))))"

section \<open>A message typed is a message printed\<close>

lemma fgets_Some:
  assumes "fgets nl n inp = Some (line, rest)" and "1 < n"
  shows "line \<noteq> []" and "length line < n"
proof -
  have "takeWhile (\<lambda>c. c \<noteq> nl) inp @ (if nl \<in> set inp then [nl] else []) \<noteq> []" if "inp \<noteq> []"
    using that by (cases inp) auto
  then show "line \<noteq> []" "length line < n" using assms by (auto simp: fgets_def Let_def split: if_splits)
qed

lemma cbytes_append: "0 \<notin> set line \<Longrightarrow> cbytes (line @ 0 # rest) = line"
  by (induction line) (simp_all add: cbytes_def)

lemma cbytes_buffer:
  assumes "0 \<notin> set line" and "length line < 1025"
  shows "cbytes (line @ drop (length line) zero_buffer) = line"
proof -
  have "drop (length line) zero_buffer = 0 # replicate (1024 - length line) 0"
    using assms(2) by (simp add: zero_buffer_def drop_replicate Suc_diff_le flip: replicate_Suc)
  then show ?thesis using assms(1) by (simp add: cbytes_append)
qed



text \<open>
  A size from a file is used as it is: minus one means 65535 bytes, of which the message buffer has 1025.
\<close>

lemma sendrcv_size_unchecked:
  "read_size ''-1'' 0 = Ok (- 1) \<and> sendrcv_client os pad s zero_buffer (- 1) h = Fault Out_Of_Bounds"
proof -
  have "read_size ''-1'' 0 = Ok (- 1)"
    by (simp add: read_size.simps [of "''-1''"] read_size.simps [of "[]"] fgets_def atoi_def atoi_val_def cstr_def
        isspace_def isdigit_def dec_val_def digit_val_def in_int_range_def)
  moreover have "chksum zero_buffer (- 1) = Fault Out_Of_Bounds"
  proof -
    have "length zero_buffer < unat (- 1 :: u16)"
      by (simp add: zero_buffer_def unsigned_minus_1_eq_mask mask_eq_exp_minus_1)
    then show ?thesis by (simp add: chksum_def)
  qed
  ultimately show ?thesis by (simp add: sendrcv_client_def senddata_def bindM_run)
qed

end
