(* ===== verification/WSA_Strerror.thy ===== *)
theory WSA_Strerror
  imports Sockets
begin

text \<open>
  The description of Winsock errors (\<^verbatim>\<open>vf_tx/wsa_strerror.c\<close>) and its only caller on Windows, \<^verbatim>\<open>sock_error\<close> of
  \<^verbatim>\<open>vf_tx/sockerr.c\<close>. The cases of the switch are tables of code and text, with the codes that the comments
  of the source give for the names of the Windows headers. A null pointer is \<open>None\<close>.
\<close>

section \<open>The cases\<close>

definition wsa_system_errors :: "(i32 \<times> string) list" where
  "wsa_system_errors =
    [(6, ''Specified event object handle is invalid.''),
     (8, ''Insufficient memory available.''),
     (87, ''One or more parameters are invalid.''),
     (995, ''Overlapped operation aborted.''),
     (996, ''Overlapped I/O event object not in signaled state.''),
     (997, ''Overlapped operations will complete later.'')]"

definition wsa_socket_errors :: "(i32 \<times> string) list" where
  "wsa_socket_errors =
    [(10004, ''Interrupted function call.''),
     (10009, ''File handle is not valid.''),
     (10013, ''Permission denied.''),
     (10014, ''Bad address.''),
     (10022, ''Invalid argument.''),
     (10024, ''Too many open files.''),
     (10035, ''Resource temporarily unavailable.''),
     (10036, ''Operation now in progress.''),
     (10037, ''Operation already in progress.''),
     (10038, ''Socket operation on nonsocket.''),
     (10039, ''Destination address required.''),
     (10040, ''Message too long.''),
     (10041, ''Protocol wrong type for socket.''),
     (10042, ''Bad protocol option.''),
     (10043, ''Protocol not supported.''),
     (10044, ''Socket type not supported.''),
     (10045, ''Operation not supported.''),
     (10046, ''Protocol family not supported.''),
     (10047, ''Address family not supported by protocol family.''),
     (10048, ''Address already in use.''),
     (10049, ''Cannot assign requested address.''),
     (10050, ''Network is down.''),
     (10051, ''Network is unreachable.''),
     (10052, ''Network dropped connection on reset.''),
     (10053, ''Software caused connection abort.''),
     (10054, ''Connection reset by peer.''),
     (10055, ''No buffer space available.''),
     (10056, ''Socket is already connected.''),
     (10057, ''Socket is not connected.''),
     (10058, ''Cannot send after socket shutdown.''),
     (10059, ''Too many references.'')]"

definition wsa_connection_errors :: "(i32 \<times> string) list" where
  "wsa_connection_errors =
    [(10060, ''Connection timed out.''),
     (10061, ''Connection refused.''),
     (10062, ''Cannot translate name.''),
     (10063, ''Name too long.''),
     (10064, ''Host is down.''),
     (10065, ''No route to host.''),
     (10066, ''Directory not empty.''),
     (10067, ''Too many processes.''),
     (10068, ''User quota exceeded.''),
     (10069, ''Disk quota exceeded.''),
     (10070, ''Stale file handle reference.''),
     (10071, ''Item is remote.''),
     (10091, ''Network subsystem is unavailable.''),
     (10092, ''Winsock.dll version out of range.''),
     (10093, ''Successful WSAStartup not yet performed.''),
     (10101, ''Graceful shutdown in progress.''),
     (10102, ''No more results.''),
     (10103, ''Call has been canceled.''),
     (10104, ''Procedure call table is invalid.''),
     (10105, ''Service provider is invalid.''),
     (10106, ''Service provider failed to initialize.''),
     (10107, ''System call failure.''),
     (10108, ''Service not found.''),
     (10109, ''Class type not found.''),
     (10110, ''No more results.''),
     (10111, ''Call was canceled.''),
     (10112, ''Database query was refused.'')]"

definition wsa_resolver_errors :: "(i32 \<times> string) list" where
  "wsa_resolver_errors =
    [(11001, ''Host not found.''),
     (11002, ''Nonauthoritative host not found.''),
     (11003, ''This is a nonrecoverable error.''),
     (11004, ''Valid name, no data record of requested type.'')]"

definition wsa_qos_errors :: "(i32 \<times> string) list" where
  "wsa_qos_errors =
    [(11005, ''QoS receivers.''),
     (11006, ''QoS senders.''),
     (11007, ''No QoS senders.''),
     (11008, ''QoS no receivers.''),
     (11009, ''QoS request confirmed.''),
     (11010, ''QoS admission error.''),
     (11011, ''QoS policy failure.''),
     (11012, ''QoS bad style.''),
     (11013, ''QoS bad object.''),
     (11014, ''QoS traffic control error.''),
     (11015, ''QoS generic error.''),
     (11016, ''QoS service type error.''),
     (11017, ''QoS flowspec error.''),
     (11018, ''Invalid QoS provider buffer.''),
     (11019, ''Invalid QoS filter style.''),
     (11020, ''Invalid QoS filter type.''),
     (11021, ''Incorrect QoS filter count.''),
     (11022, ''Invalid QoS object length.''),
     (11023, ''Incorrect QoS flow count.''),
     (11024, ''Unrecognized QoS object.''),
     (11025, ''Invalid QoS policy object.''),
     (11026, ''Invalid QoS flow descriptor.''),
     (11027, ''Invalid QoS provider-specific flowspec.''),
     (11028, ''Invalid QoS provider-specific filterspec.''),
     (11029, ''Invalid QoS shape discard mode object.''),
     (11030, ''Invalid QoS shaping rate object.''),
     (11031, ''Reserved policy QoS element type.'')]"

definition wsa_errors :: "(i32 \<times> string) list" where
  "wsa_errors = wsa_system_errors @ wsa_socket_errors @ wsa_connection_errors @ wsa_resolver_errors @ wsa_qos_errors"

definition wsa_strerror :: "i32 \<Rightarrow> string option" where
  "wsa_strerror e = map_of wsa_errors e"

text \<open>\<^verbatim>\<open>sock_error\<close>: from the last Winsock error on Windows, from \<^verbatim>\<open>errno\<close> and the C library elsewhere.\<close>

definition sock_error_win32 :: "i32 \<Rightarrow> string option" where
  "sock_error_win32 last_error = wsa_strerror last_error"

definition sock_error :: "(i32 \<Rightarrow> string) \<Rightarrow> ('w, string) M" where
  "sock_error strerror = bindM (getM errno) (\<lambda>errval. returnM (strerror errval))"

section \<open>Every code has one description\<close>

lemmas wsa_tables = wsa_system_errors_def wsa_socket_errors_def wsa_connection_errors_def wsa_resolver_errors_def
  wsa_qos_errors_def

text \<open>The codes ascend, so no two cases of the switch have the same label.\<close>

lemma wsa_errors_ascend: "sorted_wrt (<) (map fst wsa_errors)"
proof -
  have step: "sorted_wrt (<) (x # y # zs) \<longleftrightarrow> x < y \<and> sorted_wrt (<) (y # zs)" for x y :: i32 and zs
    by auto
  show ?thesis
    unfolding wsa_errors_def wsa_tables append_Cons append_Nil list.map fst_conv step by simp
qed

lemma wsa_strerror_Some: "wsa_strerror e = Some t \<longleftrightarrow> (e, t) \<in> set wsa_errors"
proof -
  have "distinct (map fst wsa_errors)" using wsa_errors_ascend strict_sorted_iff by blast
  then show ?thesis by (simp add: wsa_strerror_def)
qed

lemma wsa_codes:
  assumes "wsa_strerror e = Some t"
  shows "e \<in> {6, 8, 87} \<union> {995..997} \<union> {10004..10112} \<union> {11001..11031}"
proof -
  have "list_all (\<lambda>e. e \<in> {6, 8, 87} \<union> {995..997} \<union> {10004..10112} \<union> {11001..11031}) (map fst wsa_errors)"
    unfolding wsa_errors_def wsa_tables append_Cons append_Nil list.map fst_conv by simp
  then show "e \<in> {6, 8, 87} \<union> {995..997} \<union> {10004..10112} \<union> {11001..11031}"
    using assms by (force simp: wsa_strerror_Some list_all_iff)
qed

text \<open>
  The message layer sets errors of the C library, which on Windows are below the Winsock codes: for
  \<^verbatim>\<open>ENOMEM\<close> (12), \<^verbatim>\<open>EINVAL\<close> (22) and \<^verbatim>\<open>ECANCELED\<close> (105) there is no description.
\<close>

lemma own_errors_undescribed:
  "sock_error_win32 12 = None \<and> sock_error_win32 22 = None \<and> sock_error_win32 105 = None"
proof -
  have "sock_error_win32 e = None" if "e \<in> {12, 22, 105}" for e
  proof (cases "wsa_strerror e")
    case (Some t)
    from wsa_codes [OF this] that show ?thesis by auto
  qed (simp add: sock_error_win32_def)
  then show ?thesis by simp
qed

end
