(* ===== verification/Spec2Isabelle.thy ===== *)
theory Spec2Isabelle
  imports Opt Discovery_Ends E1000_Offload Firmware E1000_MMIO E1000_VMState Net_Vlan Apps WSA_Strerror
begin

text \<open>
  A verification development for VirtualFirmware. The program lets a driver be tested against firmware
  without hardware: QEMU's e1000 network device (\<^verbatim>\<open>src/qemu-kvm-0.14.1/hw/e1000.c\<close>) has an admin queue whose
  commands it forwards to a firmware process (\<^verbatim>\<open>src/vf_tx/vf_tx.c\<close>) over the message layer
  (\<^verbatim>\<open>src/qemu-kvm-0.14.1/hw/msg/\<close>, with identical copies in \<^verbatim>\<open>src/vf_tx/\<close>). File names below are relative
  to \<^verbatim>\<open>src/qemu-kvm-0.14.1\<close> unless they start with \<^verbatim>\<open>vf_tx\<close>.

  \<^bold>\<open>How the parts interact.\<close> The firmware announces itself by multicast and accepts a connection; the
  device locates it on the first command. Both read their settings from an option file and build their
  sockets through panels. A write of the guest to the admin queue tail makes the device fetch a
  descriptor, send it and its data as framed messages, wait for the answer and write it back; without a
  firmware the device answers itself. The rest of the device moves frames between guest memory and
  QEMU's network layer, where a queue holds them while the device cannot receive. Device state is saved
  and restored with the virtual machine.

  \<^bold>\<open>Modelling.\<close> C integers are words of their width and wrap; \<^verbatim>\<open>int\<close> results of calls are integers. What the
  C language leaves undefined (a null or dangling pointer, an access out of bounds, an uninitialised
  variable, a signed overflow) is the outcome \<^const>\<open>Fault\<close>, so a theorem with the outcome \<^const>\<open>Ok\<close>
  excludes it. Code that uses sockets runs in a state monad over the record \<open>host\<close> (\<^verbatim>\<open>errno\<close>, options, heap of
  panels, open descriptors). The operating system is the parameter record \<open>os\<close>, one field per call, over a
  state of its own that no theorem looks into except through a named hypothesis (\<open>reliable_stream\<close>,
  the laws of the locale \<open>connection\<close>); witnesses instantiate it with concrete systems. Standard input and files
  are given by their contents. Bytes of buffers that the code has not written are \<^const>\<open>None\<close>.

  \<^bold>\<open>Theories of the shared layer.\<close>
  \<^item> \<open>VF_Prelude\<close>: outcomes, little and big endian bytes, words, lists; the collections of proof rules.
  \<^item> \<open>CString\<close>: the functions of the C library that the option reader uses.
  \<^item> \<open>Sockets\<close>: the operating system parameter, the process state and the monad, \<^verbatim>\<open>hw/msg/sockerr.c\<close>.

  \<^bold>\<open>Message layer.\<close>
  \<^item> \<open>Opt\<close>: \<^verbatim>\<open>hw/msg/opt.c\<close>. Reading options is processing the words of the file in order, options written
    out are read back, and a second call changes nothing.
  \<^item> \<open>Panel\<close>, \<open>Ownership\<close>: \<^verbatim>\<open>hw/msg/panel.c\<close>. The locale \<open>panel_operation\<close> is the contract of an operation on one
    panel, interpreted for each of them; \<open>host_relation\<close> composes it along computations. Creation
    leaves nothing behind when it fails, and any sequence of operations keeps panels and sockets.
  \<^item> \<open>Framing\<close>: \<^verbatim>\<open>senddata\<close>, \<^verbatim>\<open>recvdata\<close>, \<^verbatim>\<open>chksum\<close> of \<^verbatim>\<open>hw/msg/message.c\<close>. Messages arrive in order, the checksum is
    the exclusive or of the words and sees a change of one byte, a message that does not fit stays.
  \<^item> \<open>Discovery\<close>, \<open>Discovery_Resources\<close>, \<open>Discovery_Ends\<close>: \<^verbatim>\<open>announce\<close> and \<^verbatim>\<open>locate\<close> of the same file, with every call
    they make. On every path that returns all panels are released and the sockets accounted for; with
    a timeout announcing ends.
  \<^item> \<open>Apps\<close>: the test programs \<^verbatim>\<open>vf_tx/demo.c\<close>, \<^verbatim>\<open>vf_tx/sendrcv.c\<close>, \<^verbatim>\<open>vf_tx/oldcode/tinymsg.c\<close>. A line typed at
    the client is the line printed by the server.
  \<^item> \<open>WSA_Strerror\<close>: \<^verbatim>\<open>vf_tx/wsa_strerror.c\<close> and \<^verbatim>\<open>sock_error\<close>.

  \<^bold>\<open>Network device.\<close>
  \<^item> \<open>E1000_HW\<close>: registers, bits and descriptors of \<^verbatim>\<open>hw/e1000_hw.h\<close>, guest memory.
  \<^item> \<open>E1000_Regs\<close>: the state and the register operations. The locale \<open>device_invariant\<close> collects what an
    invariant has to survive; it is interpreted for the interrupt line, the EEPROM and the rings. The
    serial EEPROM protocol reads the word it is asked for, and PHY registers read back.
  \<^item> \<open>Net_Checksum\<close>: \<^verbatim>\<open>net/checksum.c\<close>. The checksum put into a packet verifies.
  \<^item> \<open>E1000_Tx\<close>, \<open>E1000_Offload\<close>: transmission, checksum and segmentation offload. A packet is sent as it is
    in memory, segments carry its payload completely and in order, and the ring walk ends.
  \<^item> \<open>E1000_Rx\<close>: filter and reception. A frame is stored with its descriptor, and reception ends.
  \<^item> \<open>E1000_Init\<close>: start-up, reset, removal and the memory map; the EEPROM sum is right.
  \<^item> \<open>E1000_MMIO\<close>: the tables of register handlers, access at each width, and the device as a step relation
    \<open>dev_step\<close> (accesses of the guest, frames, resets) with reachability \<open>dev_reach\<close>. In every reachable
    state the line follows the registers, ring registers are well-formed and the EEPROM is unchanged.
  \<^item> \<open>E1000_VMState\<close>: the description of the saved state and its encoding (\<^verbatim>\<open>hw/hw.h\<close>, \<^verbatim>\<open>savevm.c\<close>). Loading what
    was saved restores every field that is described, and the admin queue registers are not.
  \<^item> \<open>Net_Queue\<close>, \<open>Net_Vlan\<close>: \<^verbatim>\<open>net/queue.c\<close> and delivery in \<^verbatim>\<open>net.c\<close>. The locale \<open>delivery\<close> is what the queue relies on,
    interpreted for delivery to the device. Queued frames reach the device in order.

  \<^bold>\<open>Device and firmware.\<close>
  \<^item> \<open>Connection\<close>: the locale \<open>connection\<close>, one end of a stream whose peer answers as a monotone function of the
    bytes it has been sent; interpreted for both ends in \<open>Firmware\<close>.
  \<^item> \<open>AdminQ\<close>: the admin queue of the device. A command that fails is answered locally and the connection
    given up; the head register cycles.
  \<^item> \<open>Firmware\<close>: \<^verbatim>\<open>vf_tx/vf_tx.c\<close>. The thread answers every request, as a function of its input; with this
    function as the peer, a command of the guest is completed with the firmware's answer.
  \<^item> This theory: a guest that posts any sequence of commands through the tail register reads back the
    firmware's answers in order, from register access to firmware and back.

  \<^bold>\<open>Bounds and fuel.\<close> Loops that may run forever take a number of rounds and fault with \<^const>\<open>No_Return\<close> when
  it runs out. \<^verbatim>\<open>announce\<close> needs ten rounds for each second of its timeout, the thread of the firmware as many as there
  are requests, and the flush of a queue one more than it holds packets; the theorems are for any
  number from there on. The ring walks of the device have 131072 rounds, because head and tail are
  16-bit registers and the code stops when the head is back at its start; segmentation has
  more rounds than the 16-bit length of a descriptor. That this is enough is part of the theorems: transmission of
  a ring without segmentation, segmentation of one descriptor, and reception end. For \<^verbatim>\<open>locate\<close> there
  is no such theorem, since the time that is left is what \<^verbatim>\<open>select\<close> of the system leaves of it.

  \<^bold>\<open>Where the code goes wrong.\<close> Lemmas that show undefined or unintended behaviour on concrete systems stand at
  the end of their theories, after the properties that say when the code is right: for example
  the answer of the firmware that overflows the buffer of the device (\<open>AdminQ\<close>), the data message that never
  comes and the stack that is too small (\<open>Firmware\<close>), and the second delivery of a frame (\<open>Net_Vlan\<close>).

  \<^bold>\<open>Not modelled.\<close>
  \<^item> The Winsock branches, and \<^verbatim>\<open>vf_tx/oldcode/tinymsg_w32.c\<close>, which calls functions the message layer no longer
    has. The socket library of Windows is not part of the repository.
  \<^item> Debug output (\<^verbatim>\<open>hw/msg/dbg.c\<close>, \<^verbatim>\<open>DBGOUT\<close>): it changes no state.
  \<^item> ThreadX, on which the firmware runs: the kernel is not part of the repository, and the thread is
    modelled as the only one that runs.
  \<^item> The rest of QEMU: processor emulation, the PCI bus apart from the reset of a device, other devices, block layer, user interface,
    migration, the monitor, and of \<^verbatim>\<open>net.c\<close> the creation of clients and the command line. It is the
    unchanged distribution, and the project only calls the parts named above. The interrupt line, guest
    memory and the frames sent are fields of the model at this border.
  \<^item> The guest driver (\<^verbatim>\<open>drivers\<close>, \<^verbatim>\<open>patches\<close>): an archive and patches to the Linux kernel.
  \<^item> The scripts that start the programs (\<^verbatim>\<open>vf_tx/run.py\<close>, \<^verbatim>\<open>runC.py\<close>, \<^verbatim>\<open>runS.py\<close>): process control only.
\<close>

section \<open>A session of the guest\<close>

text \<open>
  The guest posts commands one after the other: it prepares memory \<open>m\<close> with the descriptor \<open>d\<close> in the slot at the head of the
  queue, writes \<open>v\<close> to the tail register and reads the slot back. The result is the list of descriptors read.
\<close>

fun guest_session ::
  "'w os \<Rightarrow> nat \<Rightarrow> (nat \<Rightarrow> u16) \<Rightarrow> nic \<Rightarrow> (e1000_aq_desc \<times> gmem \<times> u32) list \<Rightarrow> ('w, e1000_aq_desc list \<times> nic) M" where
  "guest_session os fuel pad n [] = returnM ([], n)"
| "guest_session os fuel pad n ((d, m, v) # cs) =
     bindM (e1000_mmio_writel os fuel pad (n\<lparr>ram := mem_write m (aq_base (dev n)) (encode_aq_desc d)\<rparr>) 0x6010 v) (\<lambda>n'.
     bindM (guest_session os fuel pad n' cs) (\<lambda>(ds, n'').
     returnM (decode_aq_desc (mem_read (ram n') (aq_base (dev n)) aq_desc_size) # ds, n'')))"

text \<open>A command that both sides understand: an echo with data that fits, or another command without data.\<close>

definition command_ok :: "e1000_aq_desc \<Rightarrow> bool" where
  "command_ok d \<longleftrightarrow> (if aq_opcode d = 3 then 0 < aq_datalen d \<and> unat (aq_datalen d) \<le> 4096 else aq_datalen d = 0)"

lemma write_tail: "e1000_mmio_writel os fuel pad n 0x6010 v = e1000_set_atq_tail os fuel pad n PF_ATQT v"
  by (simp add: e1000_mmio_writel_def mmio_index_def macreg_writeops_def reg_range_def)

lemma fw_pending_append: "fw_pending eb (rs @ [(p, d, b)]) \<longleftrightarrow> fw_eb (fw_pending eb rs) d"
  by (induction eb rs rule: fw_pending.induct) simp_all

lemma session_runs:
  assumes "connection os s inb outb (fw_serve pad 0 False)" and "s \<noteq> NO_FS"
    and "requests_ok rs" and "\<not> fw_pending False rs" and "outb (world h) = requests_wire rs" and "inb (world h) = []"
    and "fs (dev n) = s" and "list_all command_ok (map fst cs)"
  shows "\<exists>n' h'. guest_session os fuel dpad n cs h = Ok ((map (fw_answer \<circ> fst) cs, n'), h') \<and> inb (world h') = []"
  using assms(3-)
proof (induction cs arbitrary: rs h n)
  case Nil
  then show ?case by (simp add: returnM_def)
next
  case (Cons c cs)
  obtain d m v where c: "c = (d, m, v)" by (cases c)
  define n1 where "n1 = n\<lparr>ram := mem_write m (aq_base (dev n)) (encode_aq_desc d)\<rparr>"
  have hd: "aq_head n1 = d" "fs (dev n1) = s" "dev n1 = dev n"
    using Cons.prems(5) by (simp_all add: n1_def aq_head_def mem_read_mem_write_same)
  have ok: "command_ok d" "list_all command_ok (map fst cs)" using Cons.prems(6) by (simp_all add: c)
  then have cmd: "aq_opcode (aq_head n1) = 3 \<and> unat (aq_datalen (aq_head n1)) \<le> 4096 \<or> aq_datalen (aq_head n1) = 0"
    by (auto simp: hd command_ok_def split: if_splits)
  define n2 where "n2 = n1\<lparr>dev := aq_advance (put_reg PF_ATQT v (dev n1)),
    ram := mem_write (ram n1) (aq_base (dev n1)) (encode_aq_desc (fw_answer d))\<rparr>"
  obtain h1 where 1: "e1000_set_atq_tail os fuel dpad n1 PF_ATQT v h = Ok (n2, h1)" "inb (world h1) = []"
      "outb (world h1) = requests_wire (rs @ [(dpad, d, aq_data n1 d)])"
    using command_served [OF assms(1) hd(2) assms(2) Cons.prems(1-4) cmd, of fuel dpad v] by (auto simp: hd n2_def)
  have next1: "requests_ok (rs @ [(dpad, d, aq_data n1 d)])" "\<not> fw_pending False (rs @ [(dpad, d, aq_data n1 d)])"
    using Cons.prems(1,2) ok(1) by (auto simp: fw_takes_def aq_data_def fw_pending_append fw_eb_def command_ok_def split: if_splits)
  have "fs (dev n2) = s" using Cons.prems(5) by (simp add: n2_def hd(3) aq_advance_def Let_def)
  from Cons.IH [OF next1 1(3,2) this ok(2)] obtain n' h'
    where 2: "guest_session os fuel dpad n2 cs h1 = Ok ((map (fw_answer \<circ> fst) cs, n'), h')" "inb (world h') = []"
    by blast
  have "decode_aq_desc (mem_read (ram n2) (aq_base (dev n)) aq_desc_size) = fw_answer d"
    by (simp add: n2_def hd(3) mem_read_mem_write_same)
  then show ?case
    using 1(1) 2 by (simp add: c write_tail n1_def [symmetric] bindM_Ok) (simp add: returnM_def)
qed



end
